(* ===== verification/Prelude.thy ===== *)
theory Prelude
  imports Main "HOL-Library.AList"
begin

section \<open>Exceptions, effectful computations and shared lemmas\<close>

text \<open>
  What every component of the model shares: Python's exceptions as a datatype, a
  computation that threads a state and may raise (state changes made before a raise
  are kept, as in Python), ordered dictionaries as association lists, the JSON values
  that the API answers with, and the rules by which invariants pass through a
  computation (collection \<open>keeps_intros\<close>).
\<close>

subsection \<open>Exceptions\<close>

text \<open>
  One constructor per exception class that the modelled code can raise or meet.
  \<open>External\<close> is whatever a third-party package raises; \<open>Wrapped m e\<close> is
  \<open>Exception(f"{m}{e}")\<close>, the re-raise pattern of \<open>functions/aws.py\<close>.
  \<open>OutOfFuel\<close> is no exception of the code: a loop of the model ran out of its rounds.
\<close>

datatype exn =
    NoSectionError string
  | NoOptionError string string
  | DuplicateSectionError string
  | DuplicateOptionError string string
  | MissingSectionHeaderError
  | ParsingError
  | InterpolationSyntaxError
  | InterpolationMissingOptionError string
  | InterpolationDepthError
  | KeyError string
  | IndexError
  | ValueError string
  | TypeError string
  | AttributeError string
  | OSError string
  | StructError
  | External string
  | PlainException string
  | Wrapped string exn
  | OutOfFuel

subsection \<open>Computations\<close>

type_synonym ('s, 'a) prog = "'s \<Rightarrow> (exn + 'a) \<times> 's"

definition ret :: "'a \<Rightarrow> ('s, 'a) prog" where
  "ret x = (\<lambda>s. (Inr x, s))"

definition raise :: "exn \<Rightarrow> ('s, 'a) prog" where
  "raise e = (\<lambda>s. (Inl e, s))"

definition bindP :: "('s, 'a) prog \<Rightarrow> ('a \<Rightarrow> ('s, 'b) prog) \<Rightarrow> ('s, 'b) prog" where
  "bindP m f = (\<lambda>s. case m s of (Inl e, s') \<Rightarrow> (Inl e, s') | (Inr x, s') \<Rightarrow> f x s')"

definition thenP :: "('s, 'a) prog \<Rightarrow> ('s, 'b) prog \<Rightarrow> ('s, 'b) prog" where
  "thenP m n = bindP m (\<lambda>_. n)"

text \<open>\<open>try: m; except Exception as e: h(e)\<close>.\<close>

definition tryP :: "('s, 'a) prog \<Rightarrow> (exn \<Rightarrow> ('s, 'a) prog) \<Rightarrow> ('s, 'a) prog" where
  "tryP m h = (\<lambda>s. case m s of (Inl e, s') \<Rightarrow> h e s' | (Inr x, s') \<Rightarrow> (Inr x, s'))"

text \<open>\<open>try: m; except Exception: pass\<close> (the handlers that only log are this too).\<close>

definition attempt :: "('s, unit) prog \<Rightarrow> ('s, unit) prog" where
  "attempt m = tryP m (\<lambda>_. ret ())"

definition of_sum :: "exn + 'a \<Rightarrow> ('s, 'a) prog" where
  "of_sum r = (\<lambda>s. (r, s))"

definition asks :: "('s \<Rightarrow> 'a) \<Rightarrow> ('s, 'a) prog" where
  "asks f = (\<lambda>s. (Inr (f s), s))"

definition modify :: "('s \<Rightarrow> 's) \<Rightarrow> ('s, unit) prog" where
  "modify f = (\<lambda>s. (Inr (), f s))"

text \<open>\<open>for x in xs: m(x)\<close>: the first exception leaves the loop.\<close>

fun for_each :: "'a list \<Rightarrow> ('a \<Rightarrow> ('s, unit) prog) \<Rightarrow> ('s, unit) prog" where
  "for_each [] m = ret ()"
| "for_each (x # xs) m = thenP (m x) (for_each xs m)"

text \<open>A loop that builds a value or mutates a local object.\<close>

fun foldP :: "('a \<Rightarrow> 'b \<Rightarrow> ('s, 'b) prog) \<Rightarrow> 'a list \<Rightarrow> 'b \<Rightarrow> ('s, 'b) prog" where
  "foldP m [] b = ret b"
| "foldP m (x # xs) b = bindP (m x b) (foldP m xs)"

text \<open>
  \<open>for i in range(n): try: m; break; except Exception: continue\<close>; the result says whether
  the loop was left by \<open>break\<close>.
\<close>

fun attempts :: "nat \<Rightarrow> ('s, unit) prog \<Rightarrow> ('s, bool) prog" where
  "attempts 0 m = ret False"
| "attempts (Suc k) m = tryP (thenP m (ret True)) (\<lambda>_. attempts k m)"

lemma ret_apply [simp]: "ret x s = (Inr x, s)"
  by (simp add: ret_def)

lemma raise_apply [simp]: "raise e s = (Inl e, s)"
  by (simp add: raise_def)

lemma of_sum_apply [simp]: "of_sum r s = (r, s)"
  by (simp add: of_sum_def)

lemma asks_apply [simp]: "asks f s = (Inr (f s), s)"
  by (simp add: asks_def)

lemma modify_apply [simp]: "modify f s = (Inr (), f s)"
  by (simp add: modify_def)

lemma bindP_Inr [simp]: "m s = (Inr x, s') \<Longrightarrow> bindP m f s = f x s'"
  by (simp add: bindP_def)

lemma bindP_Inl [simp]: "m s = (Inl e, s') \<Longrightarrow> bindP m f s = (Inl e, s')"
  by (simp add: bindP_def)

lemma thenP_Inr [simp]: "m s = (Inr x, s') \<Longrightarrow> thenP m n s = n s'"
  by (simp add: thenP_def)

lemma thenP_Inl [simp]: "m s = (Inl e, s') \<Longrightarrow> thenP m n s = (Inl e, s')"
  by (simp add: thenP_def)

lemma tryP_Inr [simp]: "m s = (Inr x, s') \<Longrightarrow> tryP m h s = (Inr x, s')"
  by (simp add: tryP_def)

lemma tryP_Inl [simp]: "m s = (Inl e, s') \<Longrightarrow> tryP m h s = h e s'"
  by (simp add: tryP_def)

lemma attempt_Inr [simp]: "m s = (Inr u, s') \<Longrightarrow> attempt m s = (Inr (), s')"
  by (simp add: attempt_def)

lemma attempt_Inl [simp]: "m s = (Inl e, s') \<Longrightarrow> attempt m s = (Inr (), s')"
  by (simp add: attempt_def)

lemma attempt_apply: "attempt m s = (Inr (), snd (m s))"
  by (cases "m s"; cases "fst (m s)") auto

lemma bindP_eq_Inr:
  "bindP m f s = (Inr y, s') \<longleftrightarrow> (\<exists>x s1. m s = (Inr x, s1) \<and> f x s1 = (Inr y, s'))"
  by (auto simp: bindP_def split: prod.splits sum.splits)

lemma bindP_eq_Inl:
  "bindP m f s = (Inl e, s') \<longleftrightarrow>
     m s = (Inl e, s') \<or> (\<exists>x s1. m s = (Inr x, s1) \<and> f x s1 = (Inl e, s'))"
  by (auto simp: bindP_def split: prod.splits sum.splits)

lemma thenP_eq_Inr:
  "thenP m n s = (Inr y, s') \<longleftrightarrow> (\<exists>x s1. m s = (Inr x, s1) \<and> n s1 = (Inr y, s'))"
  by (simp add: thenP_def bindP_eq_Inr)

lemma tryP_eq_Inr:
  "tryP m h s = (Inr y, s') \<longleftrightarrow>
     m s = (Inr y, s') \<or> (\<exists>e s1. m s = (Inl e, s1) \<and> h e s1 = (Inr y, s'))"
  by (auto simp: tryP_def split: prod.splits sum.splits)

text \<open>The state after \<open>k\<close> runs, and whether the next one returns.\<close>

definition after_runs :: "nat \<Rightarrow> ('s, unit) prog \<Rightarrow> 's \<Rightarrow> 's" where
  "after_runs k m s = ((\<lambda>t. snd (m t)) ^^ k) s"

definition run_returns :: "nat \<Rightarrow> ('s, unit) prog \<Rightarrow> 's \<Rightarrow> bool" where
  "run_returns k m s \<longleftrightarrow> (\<exists>s'. m (after_runs k m s) = (Inr (), s'))"

lemma after_runs_Suc: "after_runs (Suc k) m s = after_runs k m (snd (m s))"
  by (simp add: after_runs_def funpow_Suc_right del: funpow.simps)

lemma run_returns_Suc: "run_returns (Suc k) m s = run_returns k m (snd (m s))"
  by (simp add: run_returns_def after_runs_Suc)

text \<open>How many runs are made: up to the first that returns, at most \<open>n\<close>.\<close>

fun runs_made :: "nat \<Rightarrow> ('s, unit) prog \<Rightarrow> 's \<Rightarrow> nat" where
  "runs_made 0 m s = 0"
| "runs_made (Suc n) m s = (case m s of (Inr _, _) \<Rightarrow> 1 | (Inl _, t) \<Rightarrow> Suc (runs_made n m t))"

lemma runs_made_le: "runs_made n m s \<le> n"
  by (induction n arbitrary: s) (auto split: prod.splits sum.splits)

lemma attempts_spec:
  "attempts n m s = (Inr (\<exists>k < n. run_returns k m s), after_runs (runs_made n m s) m s)"
proof (induction n arbitrary: s)
  case 0
  show ?case by (simp add: after_runs_def)
next
  case (Suc n)
  have ex: "(\<exists>k < Suc n. run_returns k m s) \<longleftrightarrow> run_returns 0 m s \<or> (\<exists>k < n. run_returns k m (snd (m s)))"
    by (simp add: Ex_less_Suc2 run_returns_Suc)
  obtain r t where m: "m s = (r, t)" by (cases "m s")
  show ?case
  proof (cases r)
    case (Inr u)
    then have "run_returns 0 m s" using m by (simp add: run_returns_def after_runs_def)
    with ex m Inr show ?thesis by (simp add: tryP_def thenP_def bindP_def after_runs_def)
  next
    case (Inl e)
    then have "\<not> run_returns 0 m s" using m by (simp add: run_returns_def after_runs_def)
    with ex m Inl Suc [of t] show ?thesis by (simp add: tryP_def thenP_def bindP_def after_runs_Suc)
  qed
qed

lemma bindP_assoc: "bindP (bindP m f) g = bindP m (\<lambda>x. bindP (f x) g)"
  by (rule ext) (simp add: bindP_def split: prod.splits sum.splits)

lemma bindP_ret: "bindP (ret x) f = f x"
  by (rule ext) simp

lemma foldP_append: "foldP m (xs @ ys) b = bindP (foldP m xs b) (foldP m ys)"
proof (induction xs arbitrary: b)
  case Nil
  show ?case by (simp add: bindP_ret)
next
  case (Cons x xs)
  then have "foldP m (xs @ ys) = (\<lambda>b. bindP (foldP m xs b) (foldP m ys))"
    by auto
  then show ?case by (simp add: bindP_assoc)
qed

subsection \<open>Invariants of computations\<close>

text \<open>
  \<open>keeps I m\<close>: running \<open>m\<close> from a state with \<open>I\<close> ends in one, whether it returns
  or raises. The rules of \<open>keeps_intros\<close> follow the structure of a computation.
\<close>

named_theorems keeps_intros

definition keeps :: "('s \<Rightarrow> bool) \<Rightarrow> ('s, 'a) prog \<Rightarrow> bool" where
  "keeps I m \<longleftrightarrow> (\<forall>s. I s \<longrightarrow> I (snd (m s)))"

lemma keepsD: "keeps I m \<Longrightarrow> I s \<Longrightarrow> m s = (r, s') \<Longrightarrow> I s'"
  unfolding keeps_def by (metis snd_conv)

lemma keeps_ret [keeps_intros]: "keeps I (ret x)"
  by (simp add: keeps_def)

lemma keeps_raise [keeps_intros]: "keeps I (raise e)"
  by (simp add: keeps_def)

lemma keeps_of_sum [keeps_intros]: "keeps I (of_sum r)"
  by (simp add: keeps_def)

lemma keeps_asks [keeps_intros]: "keeps I (asks f)"
  by (simp add: keeps_def)

lemma keeps_modify [keeps_intros]: "(\<And>s. I s \<Longrightarrow> I (f s)) \<Longrightarrow> keeps I (modify f)"
  by (simp add: keeps_def)

lemma keeps_bindP [keeps_intros]:
  assumes "keeps I m" and "\<And>x. keeps I (f x)"
  shows "keeps I (bindP m f)"
  unfolding keeps_def
proof (intro allI impI)
  fix s assume s: "I s"
  obtain r s' where m: "m s = (r, s')" by (cases "m s")
  have "I s'" by (rule keepsD [OF assms(1) s m])
  then show "I (snd (bindP m f s))"
    using assms(2) m by (cases r) (auto simp: keeps_def bindP_def)
qed

lemma keeps_thenP [keeps_intros]: "keeps I m \<Longrightarrow> keeps I n \<Longrightarrow> keeps I (thenP m n)"
  by (simp add: thenP_def keeps_bindP)

lemma keeps_tryP [keeps_intros]:
  assumes "keeps I m" and "\<And>e. keeps I (h e)"
  shows "keeps I (tryP m h)"
  unfolding keeps_def
proof (intro allI impI)
  fix s assume s: "I s"
  obtain r s' where m: "m s = (r, s')" by (cases "m s")
  have "I s'" by (rule keepsD [OF assms(1) s m])
  then show "I (snd (tryP m h s))"
    using assms(2) m by (cases r) (auto simp: keeps_def tryP_def)
qed

lemma keeps_attempt [keeps_intros]: "keeps I m \<Longrightarrow> keeps I (attempt m)"
  by (simp add: keeps_def attempt_apply)

lemma keeps_attempts [keeps_intros]: "keeps I m \<Longrightarrow> keeps I (attempts n m)"
  by (induction n) (auto intro!: keeps_ret keeps_tryP keeps_thenP)

lemma keeps_if [keeps_intros]:
  "(b \<Longrightarrow> keeps I m) \<Longrightarrow> (\<not> b \<Longrightarrow> keeps I n) \<Longrightarrow> keeps I (if b then m else n)"
  by simp

lemma keeps_option_case [keeps_intros]:
  "keeps I m \<Longrightarrow> (\<And>y. keeps I (f y)) \<Longrightarrow> keeps I (case x of None \<Rightarrow> m | Some y \<Rightarrow> f y)"
  by (cases x) simp_all

lemma keeps_Let [keeps_intros]: "keeps I (f x) \<Longrightarrow> keeps I (let y = x in f y)"
  by simp

lemma keeps_prod_case [keeps_intros]: "(\<And>a b. keeps I (f a b)) \<Longrightarrow> keeps I (case x of (a, b) \<Rightarrow> f a b)"
  by (cases x) simp

lemma keeps_for_each [keeps_intros]:
  "(\<And>x. x \<in> set xs \<Longrightarrow> keeps I (m x)) \<Longrightarrow> keeps I (for_each xs m)"
  by (induction xs) (auto intro!: keeps_intros)

lemma keeps_foldP [keeps_intros]:
  "(\<And>x b. x \<in> set xs \<Longrightarrow> keeps I (m x b)) \<Longrightarrow> keeps I (foldP m xs b)"
  by (induction xs arbitrary: b) (auto intro!: keeps_intros)

subsection \<open>What a computation can return\<close>

text \<open>\<open>returns P m\<close>: every value that \<open>m\<close> returns satisfies \<open>P\<close>.\<close>

named_theorems returns_intros

definition returns :: "('a \<Rightarrow> bool) \<Rightarrow> ('s, 'a) prog \<Rightarrow> bool" where
  "returns P m \<longleftrightarrow> (\<forall>s x s'. m s = (Inr x, s') \<longrightarrow> P x)"

lemma returnsD: "returns P m \<Longrightarrow> m s = (Inr x, s') \<Longrightarrow> P x"
  unfolding returns_def by blast

lemma returns_ret [returns_intros]: "P x \<Longrightarrow> returns P (ret x)"
  by (simp add: returns_def)

lemma returns_raise [returns_intros]: "returns P (raise e)"
  by (simp add: returns_def)

lemma returns_bindP [returns_intros]: "(\<And>x. returns P (f x)) \<Longrightarrow> returns P (bindP m f)"
  by (auto simp: returns_def bindP_eq_Inr)

lemma returns_thenP [returns_intros]: "returns P n \<Longrightarrow> returns P (thenP m n)"
  by (simp add: thenP_def returns_bindP)

lemma returns_if [returns_intros]:
  "(b \<Longrightarrow> returns P m) \<Longrightarrow> (\<not> b \<Longrightarrow> returns P n) \<Longrightarrow> returns P (if b then m else n)"
  by simp

lemma returns_option_case [returns_intros]:
  "returns P m \<Longrightarrow> (\<And>y. returns P (f y)) \<Longrightarrow> returns P (case x of None \<Rightarrow> m | Some y \<Rightarrow> f y)"
  by (cases x) simp_all

lemma returns_prod_case [returns_intros]: "(\<And>a b. returns P (f a b)) \<Longrightarrow> returns P (case x of (a, b) \<Rightarrow> f a b)"
  by (cases x) simp

lemma returns_Let [returns_intros]: "returns P (f x) \<Longrightarrow> returns P (let y = x in f y)"
  by simp

subsection \<open>Ordered dictionaries\<close>

text \<open>
  A Python dictionary keeps insertion order; assignment to a present key keeps its
  place. \<^const>\<open>AList.update\<close> does exactly that on association lists.
\<close>

type_synonym ('k, 'v) dict = "('k \<times> 'v) list"

abbreviation dict_get :: "('k, 'v) dict \<Rightarrow> 'k \<Rightarrow> 'v option" where
  "dict_get d k \<equiv> map_of d k"

abbreviation dict_set :: "'k \<Rightarrow> 'v \<Rightarrow> ('k, 'v) dict \<Rightarrow> ('k, 'v) dict" where
  "dict_set k v d \<equiv> AList.update k v d"

abbreviation dict_keys :: "('k, 'v) dict \<Rightarrow> 'k list" where
  "dict_keys d \<equiv> map fst d"

definition dict_has :: "('k, 'v) dict \<Rightarrow> 'k \<Rightarrow> bool" where
  "dict_has d k \<longleftrightarrow> dict_get d k \<noteq> None"

lemma dict_has_iff: "dict_has d k \<longleftrightarrow> k \<in> set (dict_keys d)"
  by (force simp: dict_has_def map_of_eq_None_iff)

lemma dict_get_set: "dict_get (dict_set k v d) k' = (if k' = k then Some v else dict_get d k')"
  by (simp add: update_conv')

lemma dict_has_set: "dict_has (dict_set k v d) k' \<longleftrightarrow> k' = k \<or> dict_has d k'"
  by (simp add: dict_has_def dict_get_set)

lemma keys_dict_set:
  "dict_keys (dict_set k v d) = (if k \<in> set (dict_keys d) then dict_keys d else dict_keys d @ [k])"
  by (induction d) auto

lemma dict_set_set: "dict_set k v (dict_set k w d) = dict_set k v d"
  by (induction d) auto

lemma dict_set_same: "dict_get d k = Some v \<Longrightarrow> dict_set k v d = d"
  by (induction d) (auto split: if_splits)

lemma dict_set_cases: "x \<in> set (dict_set k v d) \<Longrightarrow> x = (k, v) \<or> x \<in> set d"
  by (induction d) (auto split: if_splits)

lemma map_dict_set_keys: "distinct (dict_keys d) \<Longrightarrow> distinct (dict_keys (dict_set k v d))"
  by (simp add: keys_dict_set)

subsection \<open>JSON values\<close>

text \<open>
  The values of API answers and of the task log. \<open>JErr e\<close> stands for the string
  \<open>str(e)\<close> of an exception.
\<close>

datatype json =
    JNull
  | JBool bool
  | JInt int
  | JStr string
  | JList "json list"
  | JObj "(string \<times> json) list"
  | JErr exn

definition json_opt :: "string option \<Rightarrow> json" where
  "json_opt x = (case x of None \<Rightarrow> JNull | Some v \<Rightarrow> JStr v)"

end
