(* ===== verification/PyText.thy ===== *)
theory PyText
  imports Prelude
begin

section \<open>Python strings\<close>

text \<open>
  The string operations of the standard library that the program calls: \<open>strip\<close>,
  \<open>split\<close>, \<open>join\<close>, \<open>lower\<close>, \<open>startswith\<close>, \<open>str(n)\<close>, \<open>int(s)\<close> and the lines of a text
  file. A string is a list of code points; HOL's \<^typ>\<open>char\<close> covers U+0000 to U+00FF,
  and the classes below (white space, lower case) are Python's on that range.
\<close>

abbreviation LF :: char where "LF \<equiv> CHR 0x0A"
abbreviation CR :: char where "CR \<equiv> CHR 0x0D"
abbreviation TAB :: char where "TAB \<equiv> CHR 0x09"

abbreviation ord_of :: "char \<Rightarrow> nat" where "ord_of c \<equiv> of_char c"

subsection \<open>White space and case\<close>

definition py_space :: "char \<Rightarrow> bool" where
  "py_space c \<longleftrightarrow> (let n = ord_of c in
     9 \<le> n \<and> n \<le> 13 \<or> 28 \<le> n \<and> n \<le> 32 \<or> n = 133 \<or> n = 160)"

definition py_lstrip :: "string \<Rightarrow> string" where
  "py_lstrip s = dropWhile py_space s"

definition py_rstrip :: "string \<Rightarrow> string" where
  "py_rstrip s = rev (dropWhile py_space (rev s))"

definition py_strip :: "string \<Rightarrow> string" where
  "py_strip s = py_rstrip (py_lstrip s)"

definition lower_char :: "char \<Rightarrow> char" where
  "lower_char c = (let n = ord_of c in
     if 65 \<le> n \<and> n \<le> 90 \<or> 192 \<le> n \<and> n \<le> 222 \<and> n \<noteq> 215 then char_of (n + 32) else c)"

definition py_lower :: "string \<Rightarrow> string" where
  "py_lower s = map lower_char s"

text \<open>A string that \<open>strip\<close> leaves alone.\<close>

definition stripped :: "string \<Rightarrow> bool" where
  "stripped s \<longleftrightarrow> s = [] \<or> \<not> py_space (hd s) \<and> \<not> py_space (last s)"

lemma py_space_simps [simp]:
  "py_space LF" "py_space TAB" "py_space CR" "py_space CHR '' ''"
  "\<not> py_space CHR ''=''" "\<not> py_space CHR '':''" "\<not> py_space CHR ''[''" "\<not> py_space CHR '']''"
  "\<not> py_space CHR ''#''" "\<not> py_space CHR '';''" "\<not> py_space CHR ''-''" "\<not> py_space CHR ''+''"
  by (simp_all add: py_space_def)

lemma py_strip_Nil [simp]: "py_strip [] = []"
  by (simp add: py_strip_def py_lstrip_def py_rstrip_def)

lemma py_rstrip_Nil [simp]: "py_rstrip [] = []"
  by (simp add: py_rstrip_def)

lemma py_lstrip_nonspace [simp]: "\<not> py_space c \<Longrightarrow> py_lstrip (c # s) = c # s"
  by (simp add: py_lstrip_def)

lemma py_lstrip_space [simp]: "py_space c \<Longrightarrow> py_lstrip (c # s) = py_lstrip s"
  by (simp add: py_lstrip_def)

lemma py_rstrip_snoc_space [simp]: "py_space c \<Longrightarrow> py_rstrip (s @ [c]) = py_rstrip s"
  by (simp add: py_rstrip_def)

lemma py_rstrip_last: "s \<noteq> [] \<Longrightarrow> \<not> py_space (last s) \<Longrightarrow> py_rstrip s = s"
  by (cases s rule: rev_cases) (simp_all add: py_rstrip_def)

lemma py_strip_stripped: "stripped s \<Longrightarrow> py_strip s = s"
  by (cases s) (auto simp: stripped_def py_strip_def py_rstrip_last py_lstrip_def)

lemma py_rstrip_stripped: "stripped s \<Longrightarrow> py_rstrip s = s"
  by (cases s) (auto simp: stripped_def py_rstrip_last)

lemma py_lstrip_stripped: "stripped s \<Longrightarrow> py_lstrip s = s"
  by (cases s) (auto simp: stripped_def py_lstrip_def)

lemma stripped_Nil [simp]: "stripped []"
  by (simp add: stripped_def)

lemma hd_dropWhile_space: "dropWhile py_space s \<noteq> [] \<Longrightarrow> \<not> py_space (hd (dropWhile py_space s))"
  by (rule hd_dropWhile)

lemma last_py_rstrip: "py_rstrip s \<noteq> [] \<Longrightarrow> \<not> py_space (last (py_rstrip s))"
  by (simp add: py_rstrip_def last_rev hd_dropWhile)

lemma hd_py_rstrip: "py_rstrip s \<noteq> [] \<Longrightarrow> hd (py_rstrip s) = hd s"
proof -
  assume ne: "py_rstrip s \<noteq> []"
  have "s = py_rstrip s @ rev (takeWhile py_space (rev s))"
    by (metis py_rstrip_def rev_append rev_rev_ident takeWhile_dropWhile_id)
  then have "hd s = hd (py_rstrip s @ rev (takeWhile py_space (rev s)))" by simp
  with ne show ?thesis by simp
qed

lemma stripped_strip [simp]: "stripped (py_strip s)"
proof (cases "py_strip s = []")
  case False
  then have "hd (py_strip s) = hd (py_lstrip s)"
    by (simp add: py_strip_def hd_py_rstrip)
  moreover have "py_lstrip s \<noteq> []"
    using False by (auto simp: py_strip_def)
  ultimately have "\<not> py_space (hd (py_strip s))"
    by (simp add: py_lstrip_def hd_dropWhile)
  with False last_py_rstrip show ?thesis
    by (simp add: stripped_def py_strip_def)
qed simp

lemma set_py_rstrip: "set (py_rstrip s) \<subseteq> set s"
  using set_dropWhileD by (force simp: py_rstrip_def)

lemma set_py_strip: "set (py_strip s) \<subseteq> set s"
proof -
  have "set (py_strip s) \<subseteq> set (py_lstrip s)"
    unfolding py_strip_def by (rule set_py_rstrip)
  then show ?thesis
    by (auto simp: py_lstrip_def dest: set_dropWhileD)
qed

subsection \<open>Splitting and joining\<close>

text \<open>\<open>s.split(c)\<close> for a one-character separator.\<close>

fun split_on :: "char \<Rightarrow> string \<Rightarrow> string list" where
  "split_on c [] = [[]]"
| "split_on c (x # xs) =
     (if x = c then [] # split_on c xs
      else case split_on c xs of [] \<Rightarrow> [[x]] | y # ys \<Rightarrow> (x # y) # ys)"

text \<open>\<open>sep.join(xs)\<close>.\<close>

fun join :: "string \<Rightarrow> string list \<Rightarrow> string" where
  "join sep [] = []"
| "join sep [x] = x"
| "join sep (x # y # zs) = x @ sep @ join sep (y # zs)"

definition startswith :: "string \<Rightarrow> string \<Rightarrow> bool" where
  "startswith s p \<longleftrightarrow> take (length p) s = p"

lemma split_on_nonempty [simp]: "split_on c s \<noteq> []"
  by (cases s) (auto split: list.splits)

lemma split_on_parts: "p \<in> set (split_on c s) \<Longrightarrow> c \<notin> set p"
  by (induction s arbitrary: p) (auto split: list.splits if_splits)

lemma split_on_set: "p \<in> set (split_on c s) \<Longrightarrow> set p \<subseteq> set s"
proof (induction s arbitrary: p)
  case (Cons x xs)
  obtain y ys where y: "split_on c xs = y # ys"
    by (cases "split_on c xs") auto
  with Cons show ?case
    by (fastforce split: if_splits)
qed simp

lemma join_Cons: "xs \<noteq> [] \<Longrightarrow> join sep (x # xs) = x @ sep @ join sep xs"
  by (cases xs) auto

lemma join_split_on: "join [c] (split_on c s) = s"
proof (induction s)
  case (Cons x xs)
  obtain y ys where "split_on c xs = y # ys"
    by (cases "split_on c xs") auto
  with Cons show ?case by (cases ys) auto
qed simp

lemma split_on_append:
  "c \<notin> set a \<Longrightarrow> split_on c (a @ c # b) = a # split_on c b"
  by (induction a) (auto split: list.splits)

lemma split_on_none: "c \<notin> set a \<Longrightarrow> split_on c a = [a]"
  by (induction a) (auto split: list.splits)

lemma split_on_join:
  "xs \<noteq> [] \<Longrightarrow> \<forall>x \<in> set xs. c \<notin> set x \<Longrightarrow> split_on c (join [c] xs) = xs"
  by (induction "[c]" xs rule: join.induct) (auto simp: split_on_none split_on_append)

subsection \<open>Decimal numbers\<close>

definition digit_char :: "nat \<Rightarrow> char" where
  "digit_char d = char_of (48 + d)"

definition is_digit :: "char \<Rightarrow> bool" where
  "is_digit c \<longleftrightarrow> 48 \<le> ord_of c \<and> ord_of c \<le> 57"

definition digit_val :: "char \<Rightarrow> nat" where
  "digit_val c = ord_of c - 48"

text \<open>\<open>str(n)\<close>.\<close>

fun str_nat :: "nat \<Rightarrow> string" where
  "str_nat n = (if n < 10 then [digit_char n] else str_nat (n div 10) @ [digit_char (n mod 10)])"

declare str_nat.simps [simp del]

definition str_int :: "int \<Rightarrow> string" where
  "str_int i = (if i < 0 then CHR ''-'' # str_nat (nat (- i)) else str_nat (nat i))"

definition digits_val :: "string \<Rightarrow> nat" where
  "digits_val s = foldl (\<lambda>n c. 10 * n + digit_val c) 0 s"

text \<open>
  \<open>int(s)\<close>: white space around, a sign, decimal digits with single underscores between.
\<close>

definition py_int :: "string \<Rightarrow> exn + int" where
  "py_int s =
     (let t = py_strip s;
          neg = startswith t ''-'';
          d = (if neg \<or> startswith t ''+'' then tl t else t);
          groups = split_on CHR ''_'' d
      in if list_all (\<lambda>g. g \<noteq> [] \<and> list_all is_digit g) groups
         then Inr ((if neg then -1 else 1) * int (digits_val (concat groups)))
         else Inl (ValueError s))"

lemma ord_digit_char [simp]: "d < 10 \<Longrightarrow> ord_of (digit_char d) = 48 + d"
  by (simp add: digit_char_def)

lemma is_digit_char [simp]: "d < 10 \<Longrightarrow> is_digit (digit_char d)"
  by (simp add: is_digit_def)

lemma digit_val_char [simp]: "d < 10 \<Longrightarrow> digit_val (digit_char d) = d"
  by (simp add: digit_val_def)

lemma is_digit_not: "is_digit c \<Longrightarrow>
    c \<noteq> CHR ''_'' \<and> c \<noteq> CHR ''-'' \<and> c \<noteq> CHR ''+'' \<and> c \<noteq> CHR ''%'' \<and> c \<noteq> LF \<and> c \<noteq> CR \<and>
    c \<noteq> CHR '' '' \<and> c \<noteq> CHR ''.'' \<and> c \<noteq> CHR ''/'' \<and> c \<noteq> CHR '','' \<and> \<not> py_space c"
  by (auto simp: is_digit_def py_space_def)

lemma str_nat_digits: "c \<in> set (str_nat n) \<Longrightarrow> is_digit c"
proof (induction n arbitrary: c rule: str_nat.induct)
  case (1 n)
  show ?case
  proof (cases "n < 10")
    case True
    with 1 show ?thesis by (simp add: str_nat.simps [of n])
  next
    case False
    with 1 show ?thesis by (auto simp: str_nat.simps [of n])
  qed
qed

lemma str_nat_nonempty [simp]: "str_nat n \<noteq> []"
  by (subst str_nat.simps) simp

lemma digits_val_snoc: "digits_val (s @ [c]) = 10 * digits_val s + digit_val c"
  by (simp add: digits_val_def)

lemma digits_val_str_nat [simp]: "digits_val (str_nat n) = n"
proof (induction n rule: str_nat.induct)
  case (1 n)
  show ?case
  proof (cases "n < 10")
    case True
    then show ?thesis by (simp add: str_nat.simps [of n] digits_val_def)
  next
    case False
    with 1 show ?thesis by (simp add: str_nat.simps [of n] digits_val_snoc)
  qed
qed

lemma str_nat_inject [simp]: "str_nat m = str_nat n \<longleftrightarrow> m = n"
  by (metis digits_val_str_nat)

lemma stripped_digits: "\<forall>c \<in> set s. is_digit c \<Longrightarrow> stripped s"
  by (cases s) (auto simp: stripped_def is_digit_not dest: bspec [OF _ last_in_set])

lemma stripped_str_nat [simp]: "stripped (str_nat n)"
  by (simp add: stripped_digits str_nat_digits)

lemma str_nat_notin: "\<not> is_digit c \<Longrightarrow> c \<notin> set (str_nat n)"
  using str_nat_digits by blast

lemma str_nat_chars [simp]:
  "CHR ''%'' \<notin> set (str_nat n)" "LF \<notin> set (str_nat n)" "CR \<notin> set (str_nat n)"
  "CHR '' '' \<notin> set (str_nat n)" "CHR ''_'' \<notin> set (str_nat n)" "CHR ''.'' \<notin> set (str_nat n)"
  by (rule str_nat_notin, simp add: is_digit_def)+

lemma py_int_str_nat [simp]: "py_int (str_nat n) = Inr (int n)"
proof -
  obtain c s where c: "str_nat n = c # s" by (cases "str_nat n") auto
  have dig: "\<forall>x \<in> set (str_nat n). is_digit x" by (simp add: str_nat_digits)
  then have "is_digit c" by (simp add: c)
  then have "\<not> startswith (str_nat n) ''-''" "\<not> startswith (str_nat n) ''+''"
    by (auto simp: c startswith_def dest: is_digit_not)
  moreover have "split_on CHR ''_'' (str_nat n) = [str_nat n]"
    by (simp add: split_on_none)
  ultimately show ?thesis
    using dig by (simp add: py_int_def Let_def py_strip_stripped list_all_iff)
qed

subsection \<open>Text files\<close>

text \<open>
  Reading in text mode: \<open>\r\n\<close> and \<open>\r\<close> become \<open>\n\<close>; the lines of the file follow, each
  without its line break (which \<open>strip\<close> would remove anyway).
\<close>

fun universal_newlines :: "string \<Rightarrow> string" where
  "universal_newlines [] = []"
| "universal_newlines (c # s) =
     (if c = CR
      then (case s of [] \<Rightarrow> [LF] | d # s' \<Rightarrow> if d = LF then LF # universal_newlines s' else LF # universal_newlines s)
      else c # universal_newlines s)"

definition text_lines :: "string \<Rightarrow> string list" where
  "text_lines t =
     (let ps = split_on LF (universal_newlines t)
      in if last ps = [] then butlast ps else ps)"

lemma universal_newlines_id: "CR \<notin> set t \<Longrightarrow> universal_newlines t = t"
  by (induction t rule: universal_newlines.induct) auto

text \<open>A text whose lines all end in a line break.\<close>

definition unlines :: "string list \<Rightarrow> string" where
  "unlines ls = concat (map (\<lambda>l. l @ [LF]) ls)"

lemma unlines_append: "unlines (xs @ ys) = unlines xs @ unlines ys"
  by (simp add: unlines_def)

lemma unlines_Cons: "unlines (x # xs) = x @ LF # unlines xs"
  by (simp add: unlines_def)

lemma split_on_unlines:
  "\<forall>l \<in> set ls. LF \<notin> set l \<Longrightarrow> split_on LF (unlines ls) = ls @ [[]]"
  by (induction ls) (simp_all add: unlines_def split_on_append)

lemma text_lines_unlines:
  assumes "\<forall>l \<in> set ls. LF \<notin> set l \<and> CR \<notin> set l"
  shows "text_lines (unlines ls) = ls"
proof -
  have "CR \<notin> set (unlines ls)" using assms by (auto simp: unlines_def)
  then show ?thesis
    using assms by (simp add: text_lines_def universal_newlines_id split_on_unlines)
qed

end
