(* ===== verification/IniStore.thy ===== *)
theory IniStore
  imports PyText
begin

section \<open>The in-memory configuration parser\<close>

text \<open>
  The part of Python's \<open>configparser.ConfigParser\<close> (default settings: basic
  interpolation, lower-cased option names, the section \<open>DEFAULT\<close>, no value-less options)
  that the program uses: \<open>set\<close>, \<open>get\<close>, \<open>has_option\<close>, \<open>options\<close>, \<open>add_section\<close>. Values go
  in through a check of the percent signs and come out with references expanded.
\<close>

record ini =
  defaults :: "(string, string) dict"
  sections :: "(string, (string, string) dict) dict"

definition empty_ini :: ini where
  "empty_ini = \<lparr>defaults = [], sections = []\<rparr>"

definition default_section :: string where
  "default_section = ''DEFAULT''"

subsection \<open>Interpolation\<close>

text \<open>
  \<open>match_ref r\<close>: the string after \<open>%(\<close> read as \<open>name)s\<close>, i.e. the regular expression
  \<open>([^)]+)\)s\<close>; the result is the name and the rest.
\<close>

definition match_ref :: "string \<Rightarrow> (string \<times> string) option" where
  "match_ref r =
     (let name = takeWhile (\<lambda>c. c \<noteq> CHR '')'') r; rest = dropWhile (\<lambda>c. c \<noteq> CHR '')'') r
      in if name \<noteq> [] \<and> startswith rest '')s'' then Some (name, drop 2 rest) else None)"

lemma match_ref_length: "match_ref r = Some (n, r') \<Longrightarrow> length r' < length r"
proof -
  assume "match_ref r = Some (n, r')"
  then have r': "r' = drop 2 (dropWhile (\<lambda>c. c \<noteq> CHR '')'') r)"
    and ne: "dropWhile (\<lambda>c. c \<noteq> CHR '')'') r \<noteq> []"
    by (cases "dropWhile (\<lambda>c. c \<noteq> CHR '')'') r"; simp add: match_ref_def Let_def startswith_def split: if_splits)+
  have "length (dropWhile (\<lambda>c. c \<noteq> CHR '')'') r) \<le> length r"
    by (rule length_dropWhile_le)
  with ne r' show ?thesis by (cases "dropWhile (\<lambda>c. c \<noteq> CHR '')'') r") auto
qed

lemma match_ref_set: "match_ref r = Some (n, r') \<Longrightarrow> set r' \<subseteq> set r"
  by (auto simp: match_ref_def Let_def split: if_splits dest: in_set_dropD set_dropWhileD)

text \<open>\<open>before_set\<close>: drop \<open>%%\<close>, then drop the references; no percent sign may be left.\<close>

fun drop_escapes :: "string \<Rightarrow> string" where
  "drop_escapes [] = []"
| "drop_escapes [c] = [c]"
| "drop_escapes (c # d # s) =
     (if c = CHR ''%'' \<and> d = CHR ''%'' then drop_escapes s else c # drop_escapes (d # s))"

function drop_refs :: "string \<Rightarrow> string" where
  "drop_refs [] = []"
| "drop_refs (c # s) =
     (if c = CHR ''%'' \<and> startswith s ''(''
      then (case match_ref (tl s) of
              Some (_, rest) \<Rightarrow> drop_refs rest
            | None \<Rightarrow> c # drop_refs s)
      else c # drop_refs s)"
  by pat_completeness auto
termination
  by (relation "measure length") (auto dest!: match_ref_length)

definition bad_percent :: "string \<Rightarrow> bool" where
  "bad_percent v \<longleftrightarrow> CHR ''%'' \<in> set (drop_refs (drop_escapes v))"

text \<open>
  \<open>before_get\<close>: \<open>interp d m s\<close> expands \<open>s\<close> with the names of \<open>m\<close>; \<open>d\<close> is how many
  further levels of references are left of the ten.
\<close>

definition sum_append :: "exn + string \<Rightarrow> exn + string \<Rightarrow> exn + string" where
  "sum_append a b = (case a of Inl e \<Rightarrow> Inl e
     | Inr x \<Rightarrow> (case b of Inl e \<Rightarrow> Inl e | Inr y \<Rightarrow> Inr (x @ y)))"

function interp :: "nat \<Rightarrow> (string \<Rightarrow> string option) \<Rightarrow> string \<Rightarrow> exn + string" where
  "interp d m [] = Inr []"
| "interp d m (c # s) =
     (if c \<noteq> CHR ''%'' then sum_append (Inr [c]) (interp d m s)
      else if startswith s ''%'' then sum_append (Inr ''%'') (interp d m (tl s))
      else if startswith s ''('' then
        (case match_ref (tl s) of
           None \<Rightarrow> Inl InterpolationSyntaxError
         | Some (name, rest) \<Rightarrow>
             (case m (py_lower name) of
                None \<Rightarrow> Inl (InterpolationMissingOptionError (py_lower name))
              | Some v \<Rightarrow>
                  sum_append
                    (if CHR ''%'' \<notin> set v then Inr v
                     else if d = 0 then Inl InterpolationDepthError
                     else interp (d - 1) m v)
                    (interp d m rest)))
      else Inl InterpolationSyntaxError)"
  by pat_completeness auto
termination
  by (relation "measures [\<lambda>(d, m, s). d, \<lambda>(d, m, s). length s]")
    (auto simp: less_Suc_eq_le dest!: match_ref_length)

lemma drop_escapes_id: "CHR ''%'' \<notin> set v \<Longrightarrow> drop_escapes v = v"
  by (induction v rule: drop_escapes.induct) auto

lemma drop_refs_id: "CHR ''%'' \<notin> set v \<Longrightarrow> drop_refs v = v"
  by (induction v rule: drop_refs.induct) auto

lemma bad_percent_plain [simp]: "CHR ''%'' \<notin> set v \<Longrightarrow> \<not> bad_percent v"
  by (simp add: bad_percent_def drop_escapes_id drop_refs_id)

lemma interp_plain [simp]: "CHR ''%'' \<notin> set v \<Longrightarrow> interp d m v = Inr v"
  by (induction v) (auto simp: sum_append_def)

subsection \<open>Access\<close>

definition has_section :: "ini \<Rightarrow> string \<Rightarrow> bool" where
  "has_section c s \<longleftrightarrow> dict_has (sections c) s"

definition section_dict :: "ini \<Rightarrow> string \<Rightarrow> (string, string) dict" where
  "section_dict c s = (case dict_get (sections c) s of None \<Rightarrow> [] | Some d \<Rightarrow> d)"

definition is_default :: "string \<Rightarrow> bool" where
  "is_default s \<longleftrightarrow> s = [] \<or> s = default_section"

definition has_option :: "ini \<Rightarrow> string \<Rightarrow> string \<Rightarrow> bool" where
  "has_option c s k =
     (if is_default s then dict_has (defaults c) (py_lower k)
      else if \<not> has_section c s then False
      else dict_has (section_dict c s) (py_lower k) \<or> dict_has (defaults c) (py_lower k))"

text \<open>The names visible in a section: its own, then the defaults (\<open>_unify_values\<close>).\<close>

definition visible :: "ini \<Rightarrow> string \<Rightarrow> string \<Rightarrow> string option" where
  "visible c s k = (case dict_get (section_dict c s) k of Some v \<Rightarrow> Some v | None \<Rightarrow> dict_get (defaults c) k)"

definition ini_get :: "ini \<Rightarrow> string \<Rightarrow> string \<Rightarrow> exn + string" where
  "ini_get c s k =
     (if \<not> has_section c s \<and> s \<noteq> default_section then Inl (NoSectionError s)
      else case visible c s (py_lower k) of
             None \<Rightarrow> Inl (NoOptionError (py_lower k) s)
           | Some v \<Rightarrow> interp 9 (visible c s) v)"

definition set_raw :: "string \<Rightarrow> string \<Rightarrow> string \<Rightarrow> ini \<Rightarrow> ini" where
  "set_raw s k v c =
     (if is_default s then c\<lparr>defaults := dict_set k v (defaults c)\<rparr>
      else c\<lparr>sections := dict_set s (dict_set k v (section_dict c s)) (sections c)\<rparr>)"

definition ini_set :: "ini \<Rightarrow> string \<Rightarrow> string \<Rightarrow> string option \<Rightarrow> exn + ini" where
  "ini_set c s k v =
     (case v of
        None \<Rightarrow> Inl (TypeError ''option values must be strings'')
      | Some x \<Rightarrow>
          if x \<noteq> [] \<and> bad_percent x then Inl (ValueError x)
          else if \<not> is_default s \<and> \<not> has_section c s then Inl (NoSectionError s)
          else Inr (set_raw s (py_lower k) x c))"

definition ini_options :: "ini \<Rightarrow> string \<Rightarrow> string list" where
  "ini_options c s =
     dict_keys (section_dict c s) @
     filter (\<lambda>k. \<not> dict_has (section_dict c s) k) (dict_keys (defaults c))"

definition ini_add_section :: "ini \<Rightarrow> string \<Rightarrow> exn + ini" where
  "ini_add_section c s =
     (if s = default_section then Inl (ValueError s)
      else if has_section c s then Inl (DuplicateSectionError s)
      else Inr (c\<lparr>sections := sections c @ [(s, [])]\<rparr>))"

subsection \<open>Laws of the store\<close>

lemma not_default_simps: "\<not> is_default s \<Longrightarrow> s \<noteq> [] \<and> s \<noteq> default_section"
  by (simp add: is_default_def)

lemma section_dict_set_raw:
  "\<not> is_default s \<Longrightarrow>
     section_dict (set_raw s k v c) s' =
       (if s' = s then dict_set k v (section_dict c s) else section_dict c s')"
  by (simp add: section_dict_def set_raw_def dict_get_set)

lemma defaults_set_raw [simp]: "\<not> is_default s \<Longrightarrow> defaults (set_raw s k v c) = defaults c"
  by (simp add: set_raw_def)

lemma section_names_set_raw:
  "\<not> is_default s \<Longrightarrow> has_section c s \<Longrightarrow>
     dict_keys (sections (set_raw s k v c)) = dict_keys (sections c)"
  by (simp add: set_raw_def keys_dict_set has_section_def dict_has_iff)

lemma has_section_set_raw:
  "\<not> is_default s \<Longrightarrow> has_section (set_raw s k v c) s' \<longleftrightarrow> s' = s \<or> has_section c s'"
  by (simp add: has_section_def set_raw_def dict_has_set)

lemma visible_set_raw:
  "\<not> is_default s \<Longrightarrow>
     visible (set_raw s k v c) s' k' =
       (if s' = s \<and> k' = k then Some v else visible c s' k')"
  by (simp add: visible_def section_dict_set_raw dict_get_set split: option.splits)

lemma set_raw_set_raw: "\<not> is_default s \<Longrightarrow> set_raw s k v (set_raw s k w c) = set_raw s k v c"
  by (simp add: set_raw_def section_dict_def dict_get_set dict_set_set)

lemma set_raw_same:
  assumes "has_section c s" and "\<not> is_default s" and "dict_get (section_dict c s) k = Some v"
  shows "set_raw s k v c = c"
proof -
  obtain d where d: "dict_get (sections c) s = Some d"
    using assms(1) by (auto simp: has_section_def dict_has_def)
  then show ?thesis
    using assms(2,3) by (simp add: set_raw_def section_dict_def dict_set_same)
qed

lemma has_option_visible:
  "\<not> is_default s \<Longrightarrow> has_section c s \<Longrightarrow> has_option c s k \<longleftrightarrow> visible c s (py_lower k) \<noteq> None"
  by (auto simp: has_option_def visible_def dict_has_def split: option.splits)

lemma ini_get_visible:
  "has_section c s \<Longrightarrow> visible c s (py_lower k) = Some v \<Longrightarrow> CHR ''%'' \<notin> set v \<Longrightarrow>
     ini_get c s k = Inr v"
  by (simp add: ini_get_def)

lemma ini_get_no_section:
  "\<not> has_section c s \<Longrightarrow> s \<noteq> default_section \<Longrightarrow> ini_get c s k = Inl (NoSectionError s)"
  by (simp add: ini_get_def)

lemma ini_set_ok:
  "\<not> bad_percent x \<Longrightarrow> \<not> is_default s \<Longrightarrow> has_section c s \<Longrightarrow>
     ini_set c s k (Some x) = Inr (set_raw s (py_lower k) x c)"
  by (simp add: ini_set_def)

lemma ini_set_eq_Inr:
  "ini_set c s k v = Inr c' \<longleftrightarrow>
     (\<exists>x. v = Some x \<and> \<not> (x \<noteq> [] \<and> bad_percent x) \<and> (is_default s \<or> has_section c s) \<and>
          c' = set_raw s (py_lower k) x c)"
  by (auto simp: ini_set_def split: option.splits if_splits)

lemma dict_get_section:
  "has_section c s \<Longrightarrow> dict_get (sections c) s = Some (section_dict c s)"
  by (auto simp: has_section_def dict_has_def section_dict_def)

end
