(* ===== verification/IniText.thy ===== *)
theory IniText
  imports IniStore
begin

section \<open>Reading and writing configuration files\<close>

text \<open>
  \<open>configparser\<close>'s reader (strict mode: duplicate sections and options are errors,
  deeper-indented lines continue a value, \<open>#\<close> and \<open>;\<close> start comment lines) and its
  writer. The theorem of this theory is the round trip: what the writer prints for a
  well-formed store, the reader reads back as the same store.
\<close>

subsection \<open>The writer\<close>

definition indent_newlines :: "string \<Rightarrow> string" where
  "indent_newlines v = concat (map (\<lambda>c. if c = LF then [LF, TAB] else [c]) v)"

definition option_line :: "string \<times> string \<Rightarrow> string" where
  "option_line kv = fst kv @ '' = '' @ indent_newlines (snd kv)"

definition section_lines :: "string \<Rightarrow> (string, string) dict \<Rightarrow> string list" where
  "section_lines s d = (''['' @ s @ '']'') # map option_line d @ [[]]"

definition ini_lines :: "ini \<Rightarrow> string list" where
  "ini_lines c =
     (if defaults c = [] then [] else section_lines default_section (defaults c)) @
     concat (map (\<lambda>(s, d). section_lines s d) (sections c))"

definition ini_write :: "ini \<Rightarrow> string" where
  "ini_write c = unlines (ini_lines c)"

subsection \<open>The reader\<close>

text \<open>
  While a file is read, a new value is the list of its lines; values the parser held
  before are strings already.
\<close>

datatype ival = Str string | Lines "string list"

record rd =
  r_defs :: "(string, ival) dict"
  r_secs :: "(string, (string, ival) dict) dict"
  cursect :: "string option"
  optname :: string
  indent_level :: nat
  seen_secs :: "string list"
  seen_opts :: "(string \<times> string) list"
  bogus :: bool

definition upd_cur :: "string \<Rightarrow> (ival option \<Rightarrow> ival) \<Rightarrow> rd \<Rightarrow> rd" where
  "upd_cur k f st =
     (case cursect st of
        None \<Rightarrow> st
      | Some s \<Rightarrow>
          (case dict_get (r_secs st) s of
             Some d \<Rightarrow> st\<lparr>r_secs := dict_set s (dict_set k (f (dict_get d k)) d) (r_secs st)\<rparr>
           | None \<Rightarrow> st\<lparr>r_defs := dict_set k (f (dict_get (r_defs st) k)) (r_defs st)\<rparr>))"

definition add_line :: "string \<Rightarrow> ival option \<Rightarrow> ival" where
  "add_line l v = (case v of Some (Lines ls) \<Rightarrow> Lines (ls @ [l]) | Some (Str x) \<Rightarrow> Str x | None \<Rightarrow> Lines [l])"

text \<open>The header pattern \<open>\[(.+)\]\<close>, up to the last closing bracket of the line.\<close>

definition header_of :: "string \<Rightarrow> string option" where
  "header_of v =
     (if startswith v ''['' then
        (let p = rev (dropWhile (\<lambda>c. c \<noteq> CHR '']'') (rev (tl v)))
         in if length p < 2 then None else Some (butlast p))
      else None)"

definition is_delim :: "char \<Rightarrow> bool" where
  "is_delim c \<longleftrightarrow> c = CHR ''='' \<or> c = CHR '':''"

definition option_of :: "string \<Rightarrow> (string \<times> string) option" where
  "option_of v =
     (case dropWhile (\<lambda>c. \<not> is_delim c) v of
        [] \<Rightarrow> None
      | _ # rest \<Rightarrow> Some (py_rstrip (takeWhile (\<lambda>c. \<not> is_delim c) v), py_strip rest))"

definition read_header :: "string \<Rightarrow> rd \<Rightarrow> exn + rd" where
  "read_header h st =
     (if dict_has (r_secs st) h then
        (if h \<in> set (seen_secs st) then Inl (DuplicateSectionError h)
         else Inr (st\<lparr>cursect := Some h, seen_secs := h # seen_secs st, optname := []\<rparr>))
      else if h = default_section then Inr (st\<lparr>cursect := Some h, optname := []\<rparr>)
      else Inr (st\<lparr>r_secs := r_secs st @ [(h, [])], cursect := Some h,
                  seen_secs := h # seen_secs st, optname := []\<rparr>))"

definition read_option :: "string \<Rightarrow> string \<Rightarrow> string \<Rightarrow> rd \<Rightarrow> exn + rd" where
  "read_option s k v st =
     (let k' = py_lower k; st' = st\<lparr>bogus := bogus st \<or> k = []\<rparr>
      in if (s, k') \<in> set (seen_opts st) then Inl (DuplicateOptionError s k')
         else Inr (upd_cur k' (\<lambda>_. Lines [v])
                (st'\<lparr>seen_opts := (s, k') # seen_opts st, optname := k'\<rparr>)))"

definition read_line :: "string \<Rightarrow> rd \<Rightarrow> exn + rd" where
  "read_line line st =
     (let v = py_strip line; ind = length (takeWhile py_space line)
      in if startswith v ''#'' \<or> startswith v '';'' then Inr st
         else if v = [] then
           Inr (if cursect st \<noteq> None \<and> optname st \<noteq> [] then upd_cur (optname st) (add_line []) st else st)
         else if cursect st \<noteq> None \<and> optname st \<noteq> [] \<and> indent_level st < ind then
           Inr (upd_cur (optname st) (add_line v) st)
         else
           (let st1 = st\<lparr>indent_level := ind\<rparr>
            in case header_of v of
                 Some h \<Rightarrow> read_header h st1
               | None \<Rightarrow>
                   (case cursect st of
                      None \<Rightarrow> Inl MissingSectionHeaderError
                    | Some s \<Rightarrow>
                        (case option_of v of
                           None \<Rightarrow> Inr (st1\<lparr>bogus := True\<rparr>)
                         | Some (k, x) \<Rightarrow> read_option s k x st1))))"

fun read_lines :: "string list \<Rightarrow> rd \<Rightarrow> exn + rd" where
  "read_lines [] st = Inr st"
| "read_lines (l # ls) st = (case read_line l st of Inl e \<Rightarrow> Inl e | Inr st' \<Rightarrow> read_lines ls st')"

definition start_rd :: "ini \<Rightarrow> rd" where
  "start_rd c = \<lparr>r_defs = map (map_prod id Str) (defaults c),
     r_secs = map (map_prod id (map (map_prod id Str))) (sections c),
     cursect = None, optname = [], indent_level = 0, seen_secs = [], seen_opts = [], bogus = False\<rparr>"

text \<open>\<open>_join_multiline_values\<close>.\<close>

definition join_value :: "ival \<Rightarrow> string" where
  "join_value v = (case v of Str x \<Rightarrow> x | Lines ls \<Rightarrow> py_rstrip (join [LF] ls))"

definition join_dict :: "(string, ival) dict \<Rightarrow> (string, string) dict" where
  "join_dict d = map (map_prod id join_value) d"

definition finish_rd :: "rd \<Rightarrow> ini" where
  "finish_rd st = \<lparr>defaults = join_dict (r_defs st), sections = map (map_prod id join_dict) (r_secs st)\<rparr>"

text \<open>\<open>read_string c t\<close>: the parser \<open>c\<close> after reading the text \<open>t\<close>.\<close>

definition ini_read :: "ini \<Rightarrow> string \<Rightarrow> exn + ini" where
  "ini_read c t =
     (case read_lines (text_lines t) (start_rd c) of
        Inl e \<Rightarrow> Inl e
      | Inr st \<Rightarrow> if bogus st then Inl ParsingError else Inr (finish_rd st))"

subsection \<open>Well-formed stores\<close>

text \<open>
  The stores that the writer's syntax can carry: names without line breaks, option
  names as the reader would give them, values without line breaks or outer white space.
\<close>

definition one_line :: "string \<Rightarrow> bool" where
  "one_line s \<longleftrightarrow> LF \<notin> set s \<and> CR \<notin> set s"

definition wf_key :: "string \<Rightarrow> bool" where
  "wf_key k \<longleftrightarrow> k \<noteq> [] \<and> hd k \<notin> {CHR ''['', CHR ''#'', CHR '';''} \<and> stripped k \<and>
     py_lower k = k \<and> list_all (\<lambda>c. \<not> is_delim c) k \<and> one_line k"

definition wf_val :: "string \<Rightarrow> bool" where
  "wf_val v \<longleftrightarrow> stripped v \<and> one_line v"

definition wf_dict :: "(string, string) dict \<Rightarrow> bool" where
  "wf_dict d \<longleftrightarrow> distinct (dict_keys d) \<and> list_all (\<lambda>(k, v). wf_key k \<and> wf_val v) d"

definition wf_name :: "string \<Rightarrow> bool" where
  "wf_name s \<longleftrightarrow> \<not> is_default s \<and> one_line s"

definition wf_ini :: "ini \<Rightarrow> bool" where
  "wf_ini c \<longleftrightarrow> wf_dict (defaults c) \<and> distinct (dict_keys (sections c)) \<and>
     list_all (\<lambda>(s, d). wf_name s \<and> wf_dict d) (sections c)"

lemma one_line_append [simp]: "one_line (a @ b) \<longleftrightarrow> one_line a \<and> one_line b"
  by (auto simp: one_line_def)

lemma wf_dict_simps [simp]:
  "wf_dict []" 
  "wf_dict ((k, v) # d) \<longleftrightarrow> wf_key k \<and> wf_val v \<and> k \<notin> set (dict_keys d) \<and> wf_dict d"
  by (auto simp: wf_dict_def)

lemma wf_dict_set:
  assumes "wf_dict d" and "wf_key k" and "wf_val v"
  shows "wf_dict (dict_set k v d)"
proof -
  have "list_all (\<lambda>(k, v). wf_key k \<and> wf_val v) (dict_set k v d)"
    unfolding list_all_iff using assms
    by (auto simp: wf_dict_def list_all_iff dest!: dict_set_cases)
  then show ?thesis
    using assms by (simp add: wf_dict_def map_dict_set_keys)
qed

lemma wf_ini_section: "wf_ini c \<Longrightarrow> has_section c s \<Longrightarrow> wf_dict (section_dict c s) \<and> wf_name s"
  by (auto simp: wf_ini_def list_all_iff dest!: dict_get_section map_of_SomeD)

lemma wf_set_raw:
  assumes "wf_ini c" and "has_section c s" and "wf_key k" and "wf_val v"
  shows "wf_ini (set_raw s k v c)"
proof -
  have s: "\<not> is_default s" "wf_name s" "wf_dict (section_dict c s)"
    using wf_ini_section [OF assms(1,2)] by (auto simp: wf_name_def)
  have "list_all (\<lambda>(s, d). wf_name s \<and> wf_dict d)
      (dict_set s (dict_set k v (section_dict c s)) (sections c))"
    unfolding list_all_iff using assms s
    by (auto simp: wf_ini_def list_all_iff wf_dict_set dest!: dict_set_cases)
  then show ?thesis
    using assms s by (simp add: wf_ini_def set_raw_def map_dict_set_keys)
qed

subsection \<open>Reading back one section\<close>

lemma indent_newlines_id: "LF \<notin> set v \<Longrightarrow> indent_newlines v = v"
  by (induction v) (auto simp: indent_newlines_def)

lemma py_strip_hd:
  assumes "k \<noteq> []" and "\<not> py_space (hd k)"
  shows "py_strip (k @ r) = k @ py_rstrip r \<or> py_rstrip r = [] \<and> py_strip (k @ r) = py_rstrip k"
proof (cases "py_rstrip r = []")
  case True
  then have "dropWhile py_space (rev r) = []" by (simp add: py_rstrip_def)
  then have "\<forall>c \<in> set (rev r). py_space c" by (simp add: dropWhile_eq_Nil_conv)
  then have "dropWhile py_space (rev r @ rev k) = dropWhile py_space (rev k)"
    by (intro dropWhile_append2) auto
  then have "py_rstrip (k @ r) = py_rstrip k"
    by (simp add: py_rstrip_def)
  with True assms show ?thesis by (cases k) (auto simp: py_strip_def py_lstrip_def)
next
  case False
  then have "dropWhile py_space (rev r) \<noteq> []" by (simp add: py_rstrip_def)
  then obtain x where "x \<in> set (rev r)" "\<not> py_space x"
    by (auto simp: dropWhile_eq_Nil_conv)
  then have "py_rstrip (k @ r) = k @ py_rstrip r"
    by (simp add: py_rstrip_def dropWhile_append1)
  with assms show ?thesis by (cases k) (auto simp: py_strip_def py_lstrip_def)
qed

lemma option_line_parse:
  assumes "wf_key k" and "wf_val v"
  shows "option_of (py_strip (option_line (k, v))) = Some (k, v)"
    and "header_of (py_strip (option_line (k, v))) = None"
    and "\<not> startswith (py_strip (option_line (k, v))) ''#''"
    and "\<not> startswith (py_strip (option_line (k, v))) '';''"
    and "py_strip (option_line (k, v)) \<noteq> []"
    and "takeWhile py_space (option_line (k, v)) = []"
proof -
  obtain c k' where k: "k = c # k'" using assms by (cases k) (auto simp: wf_key_def)
  have c: "\<not> py_space c" "c \<noteq> CHR ''[''" "c \<noteq> CHR ''#''" "c \<noteq> CHR '';''"
    using assms(1) k by (auto simp: wf_key_def stripped_def)
  have v: "LF \<notin> set v" "stripped v" using assms(2) by (auto simp: wf_val_def one_line_def)
  have line: "option_line (k, v) = k @ '' = '' @ v"
    using v by (simp add: option_line_def indent_newlines_id)
  have kd: "\<forall>x \<in> set k. \<not> is_delim x" using assms(1) by (simp add: wf_key_def list_all_iff)
  have ne: "py_rstrip ('' = '' @ v) \<noteq> []"
  proof (cases "v = []")
    case False
    then have "py_rstrip ('' = '' @ v) = '' = '' @ v"
      using v by (intro py_rstrip_last) (auto simp: stripped_def)
    then show ?thesis by simp
  next
    case True
    have "py_rstrip '' = '' = '' =''" by (simp add: py_rstrip_def)
    with True show ?thesis by simp
  qed
  obtain t where t: "py_strip (option_line (k, v)) = k @ '' ='' @ t" and tv: "py_strip t = v"
  proof (cases "v = []")
    case True
    then have "py_strip (option_line (k, v)) = k @ '' ='' @ []"
      using py_strip_hd [of k "'' = ''"] c(1) ne line k by (auto simp: py_rstrip_def)
    then show ?thesis using that [of "[]"] True by simp
  next
    case False
    then have "py_rstrip ('' = '' @ v) = '' = '' @ v"
      using v by (intro py_rstrip_last) (auto simp: stripped_def)
    then have "py_strip (option_line (k, v)) = k @ '' ='' @ ('' '' @ v)"
      using py_strip_hd [of k "'' = '' @ v"] c(1) ne line k by auto
    moreover have "py_strip ('' '' @ v) = v"
      using v by (simp add: py_strip_def py_lstrip_stripped py_rstrip_stripped)
    ultimately show ?thesis using that by blast
  qed
  have d: "is_delim CHR ''=''" "\<not> is_delim CHR '' ''" by (simp_all add: is_delim_def)
  have "takeWhile (\<lambda>c. \<not> is_delim c) (k @ '' ='' @ t) = k @ '' ''"
    using kd d by (simp add: takeWhile_append2)
  moreover have "dropWhile (\<lambda>c. \<not> is_delim c) (k @ '' ='' @ t) = ''='' @ t"
    using kd d by (simp add: dropWhile_append2)
  moreover have "py_rstrip (k @ '' '') = k"
    using assms(1) by (simp add: wf_key_def py_rstrip_stripped)
  ultimately show "option_of (py_strip (option_line (k, v))) = Some (k, v)"
    using t tv by (simp add: option_of_def)
  show "header_of (py_strip (option_line (k, v))) = None"
    unfolding t using c by (simp add: k header_of_def startswith_def)
  show "\<not> startswith (py_strip (option_line (k, v))) ''#''"
    "\<not> startswith (py_strip (option_line (k, v))) '';''"
    "py_strip (option_line (k, v)) \<noteq> []"
    unfolding t using c by (simp_all add: k startswith_def)
  show "takeWhile py_space (option_line (k, v)) = []"
    unfolding line using c by (simp add: k)
qed

lemma header_line_parse:
  assumes "s \<noteq> []"
  shows "py_strip (''['' @ s @ '']'') = ''['' @ s @ '']''"
    and "header_of (''['' @ s @ '']'') = Some s"
proof -
  show "py_strip (''['' @ s @ '']'') = ''['' @ s @ '']''"
    by (rule py_strip_stripped) (simp add: stripped_def)
  show "header_of (''['' @ s @ '']'') = Some s"
    using assms by (cases s) (simp_all add: header_of_def startswith_def Let_def)
qed

subsection \<open>The dictionary being read\<close>

definition get_cur :: "rd \<Rightarrow> (string, ival) dict" where
  "get_cur st =
     (case cursect st of None \<Rightarrow> []
      | Some s \<Rightarrow> (case dict_get (r_secs st) s of Some d \<Rightarrow> d | None \<Rightarrow> r_defs st))"

definition put_cur :: "(string, ival) dict \<Rightarrow> rd \<Rightarrow> rd" where
  "put_cur d st =
     (case cursect st of None \<Rightarrow> st
      | Some s \<Rightarrow> if dict_has (r_secs st) s then st\<lparr>r_secs := dict_set s d (r_secs st)\<rparr>
                  else st\<lparr>r_defs := d\<rparr>)"

lemma upd_cur_put: "upd_cur k f st = put_cur (dict_set k (f (dict_get (get_cur st) k)) (get_cur st)) st"
  by (simp add: upd_cur_def put_cur_def get_cur_def dict_has_def split: option.splits)

lemma put_cur_simps [simp]:
  "cursect (put_cur d st) = cursect st" "indent_level (put_cur d st) = indent_level st"
  "seen_secs (put_cur d st) = seen_secs st" "seen_opts (put_cur d st) = seen_opts st"
  "bogus (put_cur d st) = bogus st" "optname (put_cur d st) = optname st"
  "dict_keys (r_secs (put_cur d st)) = dict_keys (r_secs st)"
  by (auto simp: put_cur_def keys_dict_set dict_has_iff split: option.splits)

lemma put_cur_put_cur [simp]: "put_cur d (put_cur e st) = put_cur d st"
  by (simp add: put_cur_def dict_has_set dict_set_set split: option.splits)

lemma put_cur_upd [simp]:
  "put_cur d st\<lparr>optname := x\<rparr> = put_cur d (st\<lparr>optname := x\<rparr>)"
  "put_cur d st\<lparr>seen_opts := y\<rparr> = put_cur d (st\<lparr>seen_opts := y\<rparr>)"
  by (simp_all add: put_cur_def split: option.splits)

lemma get_cur_put_cur [simp]: "cursect st \<noteq> None \<Longrightarrow> get_cur (put_cur d st) = d"
  by (auto simp: put_cur_def get_cur_def dict_has_def dict_get_set split: option.splits)

lemma get_cur_upd [simp]:
  "get_cur (st\<lparr>optname := x\<rparr>) = get_cur st" "get_cur (st\<lparr>seen_opts := y\<rparr>) = get_cur st"
  by (simp_all add: get_cur_def split: option.splits)

lemma dict_set_new: "k \<notin> set (dict_keys d) \<Longrightarrow> dict_set k v d = d @ [(k, v)]"
  by (induction d) auto

lemma dict_set_snoc: "k \<notin> fst ` set d \<Longrightarrow> dict_set k v (d @ [(k, w)]) = d @ [(k, v)]"
  by (induction d) auto

lemma rd_same: "st\<lparr>indent_level := indent_level st, bogus := bogus st\<rparr> = (st :: rd)"
  by (cases st) simp

lemma read_option_line:
  assumes "wf_key k" and "wf_val v" and "cursect st = Some s"
    and "(s, k) \<notin> set (seen_opts st)" and "indent_level st = 0" and "k \<notin> set (dict_keys (get_cur st))"
  shows "read_line (option_line (k, v)) st =
    Inr (put_cur (get_cur st @ [(k, Lines [v])]) (st\<lparr>seen_opts := (s, k) # seen_opts st, optname := k\<rparr>))"
proof -
  note parse = option_line_parse [OF assms(1,2)]
  have k: "py_lower k = k" "k \<noteq> []" using assms(1) by (auto simp: wf_key_def)
  have "read_line (option_line (k, v)) st = read_option s k v (st\<lparr>indent_level := 0\<rparr>)"
    unfolding read_line_def Let_def using parse assms(3,5) by simp
  also have "\<dots> = Inr (put_cur (get_cur st @ [(k, Lines [v])])
      (st\<lparr>seen_opts := (s, k) # seen_opts st, optname := k\<rparr>))"
    using assms k rd_same [of st] unfolding read_option_def Let_def upd_cur_put
    by (simp add: dict_set_new get_cur_def put_cur_def split: option.splits)
  finally show ?thesis .
qed

lemma read_lines_append:
  "read_lines (xs @ ys) st = (case read_lines xs st of Inl e \<Rightarrow> Inl e | Inr st' \<Rightarrow> read_lines ys st')"
  by (induction xs arbitrary: st) (auto split: sum.splits)

abbreviation as_lines :: "(string, string) dict \<Rightarrow> (string, ival) dict" where
  "as_lines d \<equiv> map (\<lambda>(k, v). (k, Lines [v])) d"

lemma read_options:
  assumes "wf_dict d" and "cursect st = Some s" and "indent_level st = 0"
    and "\<forall>k \<in> set (dict_keys d). (s, k) \<notin> set (seen_opts st) \<and> k \<notin> set (dict_keys (get_cur st))"
  shows "\<exists>sp opt. read_lines (map option_line d) st =
      Inr (put_cur (get_cur st @ as_lines d) (st\<lparr>seen_opts := sp, optname := opt\<rparr>)) \<and>
      set sp = set (seen_opts st) \<union> (\<lambda>k. (s, k)) ` set (dict_keys d) \<and>
      opt = (if d = [] then optname st else fst (last d))"
  using assms
proof (induction d arbitrary: st)
  case Nil
  have "put_cur (get_cur st) (st\<lparr>seen_opts := seen_opts st, optname := optname st\<rparr>) = st"
    using Nil by (auto simp: put_cur_def get_cur_def dict_has_def dict_set_same split: option.splits)
  then show ?case
    by (intro exI [of _ "seen_opts st"] exI [of _ "optname st"]) simp
next
  case (Cons kv d)
  obtain k v where kv: "kv = (k, v)" by (cases kv)
  let ?st = "put_cur (get_cur st @ [(k, Lines [v])]) (st\<lparr>seen_opts := (s, k) # seen_opts st, optname := k\<rparr>)"
  have line: "read_line (option_line (k, v)) st = Inr ?st"
    using Cons.prems kv by (intro read_option_line) auto
  have cur: "cursect st \<noteq> None" using Cons.prems by simp
  have "\<exists>sp opt. read_lines (map option_line d) ?st =
      Inr (put_cur (get_cur ?st @ as_lines d) (?st\<lparr>seen_opts := sp, optname := opt\<rparr>)) \<and>
      set sp = set (seen_opts ?st) \<union> (\<lambda>k. (s, k)) ` set (dict_keys d) \<and>
      opt = (if d = [] then optname ?st else fst (last d))"
    using Cons.prems kv cur by (intro Cons.IH) auto
  then obtain sp opt where
    "read_lines (map option_line d) ?st =
      Inr (put_cur (get_cur ?st @ as_lines d) (?st\<lparr>seen_opts := sp, optname := opt\<rparr>))"
    and "set sp = set (seen_opts ?st) \<union> (\<lambda>k. (s, k)) ` set (dict_keys d)"
    and "opt = (if d = [] then optname ?st else fst (last d))" by blast
  then show ?case
    using line kv cur by (intro exI [of _ sp] exI [of _ opt]) auto
qed

text \<open>The empty line after a section adds nothing to the value it would continue.\<close>

lemma join_snoc_Nil: "ls \<noteq> [] \<Longrightarrow> join [LF] (ls @ [[]]) = join [LF] ls @ [LF]"
  by (induction "[LF]" ls rule: join.induct) auto

lemma join_dict_add_empty:
  assumes "dict_get d k = Some (Lines ls)" and "ls \<noteq> []"
  shows "join_dict (dict_set k (Lines (ls @ [[]])) d) = join_dict d"
  using assms
  by (induction d) (auto simp: join_dict_def join_value_def join_snoc_Nil split: if_splits)

lemma read_blank:
  assumes "cursect st = Some s" and "optname st \<noteq> [] \<longrightarrow> (\<exists>ls. ls \<noteq> [] \<and> dict_get (get_cur st) (optname st) = Some (Lines ls))"
  shows "\<exists>d. read_line [] st = Inr (put_cur d st) \<and> join_dict d = join_dict (get_cur st)"
proof (cases "optname st = []")
  case True
  have "put_cur (get_cur st) st = st"
    using assms by (auto simp: put_cur_def get_cur_def dict_has_def dict_set_same split: option.splits)
  with True show ?thesis
    by (intro exI [of _ "get_cur st"]) (simp add: read_line_def startswith_def)
next
  case False
  with assms obtain ls where "ls \<noteq> []" "dict_get (get_cur st) (optname st) = Some (Lines ls)" by blast
  with False assms show ?thesis
    by (intro exI [of _ "dict_set (optname st) (Lines (ls @ [[]])) (get_cur st)"])
      (simp add: read_line_def startswith_def upd_cur_put add_line_def join_dict_add_empty)
qed

subsection \<open>The round trip\<close>

lemma join_dict_as_lines: "wf_dict d \<Longrightarrow> join_dict (as_lines d) = d"
  by (induction d) (auto simp: join_dict_def join_value_def wf_val_def py_rstrip_stripped)

lemma dict_get_as_lines_last:
  "wf_dict d \<Longrightarrow> d \<noteq> [] \<Longrightarrow> dict_get (as_lines d) (fst (last d)) = Some (Lines [snd (last d)])"
  by (induction d) (auto simp: image_iff split: if_splits, metis fst_conv image_eqI last_in_set)

definition read_inv :: "ini \<Rightarrow> rd \<Rightarrow> bool" where
  "read_inv c st \<longleftrightarrow> finish_rd st = c \<and> indent_level st = 0 \<and> \<not> bogus st \<and>
     set (seen_secs st) \<subseteq> set (dict_keys (sections c)) \<and>
     fst ` set (seen_opts st) \<subseteq> insert default_section (set (dict_keys (sections c)))"

lemma dict_keys_finish: "dict_keys (sections (finish_rd st)) = dict_keys (r_secs st)"
  by (simp add: finish_rd_def)

text \<open>Reading the option lines and the closing empty line of a section just opened.\<close>

lemma read_body:
  assumes "wf_dict d" and "cursect st = Some s" and "indent_level st = 0" and "optname st = []"
    and "get_cur st = []" and "\<forall>k. (s, k) \<notin> set (seen_opts st)"
  shows "\<exists>D sp opt. read_lines (map option_line d @ [[]]) st =
      Inr (put_cur D (st\<lparr>seen_opts := sp, optname := opt\<rparr>)) \<and> join_dict D = d \<and>
      fst ` set sp \<subseteq> insert s (fst ` set (seen_opts st))"
proof -
  obtain sp opt where
    opts: "read_lines (map option_line d) st =
      Inr (put_cur (get_cur st @ as_lines d) (st\<lparr>seen_opts := sp, optname := opt\<rparr>))"
    and sp: "set sp = set (seen_opts st) \<union> (\<lambda>k. (s, k)) ` set (dict_keys d)"
    and opt: "opt = (if d = [] then optname st else fst (last d))"
    using read_options [of d st s] assms by auto
  let ?st = "put_cur (as_lines d) (st\<lparr>seen_opts := sp, optname := opt\<rparr>)"
  have cur: "get_cur ?st = as_lines d" using assms(2) by simp
  have "optname ?st \<noteq> [] \<longrightarrow> (\<exists>ls. ls \<noteq> [] \<and> dict_get (get_cur ?st) (optname ?st) = Some (Lines ls))"
    unfolding cur using assms opt by (auto simp: dict_get_as_lines_last)
  with assms(2) have "\<exists>D. read_line [] ?st = Inr (put_cur D ?st) \<and> join_dict D = join_dict (get_cur ?st)"
    by (intro read_blank [of ?st s]) simp_all
  then obtain D where D: "read_line [] ?st = Inr (put_cur D ?st)" "join_dict D = d"
    unfolding cur using assms by (auto simp: join_dict_as_lines)
  show ?thesis
    using opts sp D assms(5) by (intro exI [of _ D] exI [of _ sp] exI [of _ opt])
      (auto simp: read_lines_append)
qed

lemma read_section:
  assumes "read_inv c st" and "wf_name s" and "s \<notin> set (dict_keys (sections c))" and "wf_dict d"
  shows "\<exists>st'. read_lines (section_lines s d) st = Inr st' \<and>
    read_inv (c\<lparr>sections := sections c @ [(s, d)]\<rparr>) st'"
proof -
  have s: "s \<noteq> []" "s \<noteq> default_section" using assms(2) by (auto simp: wf_name_def is_default_def)
  have keys: "dict_keys (r_secs st) = dict_keys (sections c)"
    using assms(1) dict_keys_finish [of st] by (simp add: read_inv_def)
  then have new: "\<not> dict_has (r_secs st) s" using assms(3) by (simp add: dict_has_iff)
  let ?st = "st\<lparr>indent_level := 0, r_secs := r_secs st @ [(s, [])], cursect := Some s,
    seen_secs := s # seen_secs st, optname := []\<rparr>"
  have ind: "indent_level st = 0" using assms(1) by (simp add: read_inv_def)
  have hdr: "read_line (''['' @ s @ '']'') st = Inr ?st"
    using s new header_line_parse [OF s(1)] ind
    by (simp add: read_line_def Let_def startswith_def read_header_def)
  have nk: "s \<notin> fst ` set (r_secs st)" using new by (simp add: dict_has_iff)
  then have none: "dict_get (r_secs st) s = None" by (simp add: map_of_eq_None_iff)
  have get: "get_cur ?st = []"
    by (simp add: get_cur_def map_add_def none)
  have fresh: "\<forall>k. (s, k) \<notin> set (seen_opts ?st)"
    using assms(1,3) s by (force simp: read_inv_def)
  obtain D sp opt where body: "read_lines (map option_line d @ [[]]) ?st =
      Inr (put_cur D (?st\<lparr>seen_opts := sp, optname := opt\<rparr>))" and D: "join_dict D = d"
    and sp: "fst ` set sp \<subseteq> insert s (fst ` set (seen_opts ?st))"
    using read_body [OF assms(4), of ?st s] get fresh by auto
  let ?st' = "put_cur D (?st\<lparr>seen_opts := sp, optname := opt\<rparr>)"
  have "r_secs ?st' = r_secs st @ [(s, D)] \<and> r_defs ?st' = r_defs st"
    using nk by (simp add: put_cur_def dict_has_iff dict_set_snoc)
  then have "finish_rd ?st' = c\<lparr>sections := sections c @ [(s, d)]\<rparr>"
    using assms(1) D by (auto simp: read_inv_def finish_rd_def)
  then have "read_inv (c\<lparr>sections := sections c @ [(s, d)]\<rparr>) ?st'"
    using assms(1) sp by (auto simp: read_inv_def)
  then show ?thesis using hdr body by (simp add: section_lines_def)
qed

lemma read_default_section:
  assumes "wf_dict d"
  shows "\<exists>st'. read_lines (section_lines default_section d) (start_rd empty_ini) = Inr st' \<and>
    read_inv (empty_ini\<lparr>defaults := d\<rparr>) st'"
proof -
  let ?st = "(start_rd empty_ini)\<lparr>cursect := Some default_section\<rparr>"
  have hdr: "read_line (''['' @ default_section @ '']'') (start_rd empty_ini) = Inr ?st"
    using header_line_parse [of default_section]
    by (simp add: read_line_def Let_def startswith_def read_header_def start_rd_def empty_ini_def
        default_section_def dict_has_def)
  have get: "get_cur ?st = []"
    by (simp add: get_cur_def start_rd_def empty_ini_def)
  obtain D sp opt where body: "read_lines (map option_line d @ [[]]) ?st =
      Inr (put_cur D (?st\<lparr>seen_opts := sp, optname := opt\<rparr>))" and D: "join_dict D = d"
    and sp: "fst ` set sp \<subseteq> insert default_section (fst ` set (seen_opts ?st))"
    using read_body [OF assms, of ?st default_section] get by (auto simp: start_rd_def)
  then have "read_inv (empty_ini\<lparr>defaults := d\<rparr>) (put_cur D (?st\<lparr>seen_opts := sp, optname := opt\<rparr>))"
    by (auto simp: read_inv_def finish_rd_def put_cur_def start_rd_def empty_ini_def dict_has_def)
  then show ?thesis using hdr body by (simp add: section_lines_def)
qed

lemma read_sections:
  assumes "read_inv c st" and "distinct (dict_keys (sections c @ ss))"
    and "list_all (\<lambda>(s, d). wf_name s \<and> wf_dict d) ss"
  shows "\<exists>st'. read_lines (concat (map (\<lambda>(s, d). section_lines s d) ss)) st = Inr st' \<and>
    read_inv (c\<lparr>sections := sections c @ ss\<rparr>) st'"
  using assms
proof (induction ss arbitrary: c st)
  case Nil
  then show ?case by simp
next
  case (Cons sd ss)
  obtain s d where sd: "sd = (s, d)" by (cases sd)
  obtain st1 where st1: "read_lines (section_lines s d) st = Inr st1"
      "read_inv (c\<lparr>sections := sections c @ [(s, d)]\<rparr>) st1"
    using read_section [OF Cons.prems(1), of s d] Cons.prems sd by auto
  then show ?case
    using Cons.IH [OF st1(2)] Cons.prems sd by (auto simp: read_lines_append)
qed

lemma option_line_one_line: "wf_key k \<Longrightarrow> wf_val v \<Longrightarrow> one_line (option_line (k, v))"
  by (auto simp: option_line_def wf_key_def wf_val_def one_line_def indent_newlines_id)

lemma section_lines_one_line:
  "wf_dict d \<Longrightarrow> one_line s \<Longrightarrow> l \<in> set (section_lines s d) \<Longrightarrow> one_line l"
  by (auto simp: section_lines_def wf_dict_def list_all_iff option_line_one_line)
    (auto simp: one_line_def)

lemma ini_lines_one_line:
  assumes "wf_ini c" and "l \<in> set (ini_lines c)"
  shows "one_line l"
proof -
  have "one_line default_section" by (simp add: one_line_def default_section_def)
  moreover have d: "wf_dict (defaults c)" using assms(1) by (simp add: wf_ini_def)
  moreover have s: "one_line s \<and> wf_dict d" if "(s, d) \<in> set (sections c)" for s d
    using assms(1) that by (auto simp: wf_ini_def list_all_iff wf_name_def)
  moreover have "(defaults c \<noteq> [] \<and> l \<in> set (section_lines default_section (defaults c))) \<or>
      (\<exists>s d. (s, d) \<in> set (sections c) \<and> l \<in> set (section_lines s d))"
    using assms(2) by (auto simp: ini_lines_def split: if_splits)
  ultimately show ?thesis using section_lines_one_line by blast
qed

lemma ini_read_write:
  assumes "wf_ini c"
  shows "ini_read empty_ini (ini_write c) = Inr c"
proof -
  let ?c0 = "empty_ini\<lparr>defaults := defaults c\<rparr>"
  let ?dl = "if defaults c = [] then [] else section_lines default_section (defaults c)"
  have "read_inv empty_ini (start_rd empty_ini)"
    by (simp add: read_inv_def start_rd_def empty_ini_def finish_rd_def join_dict_def)
  then obtain st0 where st0: "read_lines ?dl (start_rd empty_ini) = Inr st0" "read_inv ?c0 st0"
    using read_default_section [of "defaults c"] assms
    by (cases "defaults c = []") (auto simp: wf_ini_def empty_ini_def)
  obtain st where st: "read_lines (concat (map (\<lambda>(s, d). section_lines s d) (sections c))) st0 = Inr st"
      "read_inv (?c0\<lparr>sections := sections ?c0 @ sections c\<rparr>) st"
    using read_sections [OF st0(2)] assms by (auto simp: wf_ini_def empty_ini_def)
  have "text_lines (ini_write c) = ini_lines c"
    unfolding ini_write_def using ini_lines_one_line [OF assms]
    by (intro text_lines_unlines) (auto simp: one_line_def)
  then have "read_lines (text_lines (ini_write c)) (start_rd empty_ini) = Inr st"
    using st0 st by (simp add: ini_lines_def read_lines_append)
  then show ?thesis
    using st(2) by (cases c) (simp add: ini_read_def read_inv_def empty_ini_def)
qed

subsection \<open>Section names of what is read\<close>

text \<open>Whatever the file holds, the sections read have proper and distinct names.\<close>

definition names_ok :: "string list \<Rightarrow> bool" where
  "names_ok ns \<longleftrightarrow> distinct ns \<and> list_all (\<lambda>s. \<not> is_default s) ns"

lemma header_of_nonempty: "header_of v = Some h \<Longrightarrow> h \<noteq> []"
proof -
  assume "header_of v = Some h"
  then have h: "h = butlast (rev (dropWhile (\<lambda>c. c \<noteq> CHR '']'') (rev (tl v))))"
    and l: "2 \<le> length (rev (dropWhile (\<lambda>c. c \<noteq> CHR '']'') (rev (tl v))))"
    by (auto simp: header_of_def Let_def split: if_splits)
  have "length h = length (rev (dropWhile (\<lambda>c. c \<noteq> CHR '']'') (rev (tl v)))) - 1"
    unfolding h by (rule length_butlast)
  with l show ?thesis by auto
qed

lemma dict_keys_upd_cur [simp]: "dict_keys (r_secs (upd_cur k f st)) = dict_keys (r_secs st)"
  by (simp add: upd_cur_put)

lemma read_header_names:
  "read_header h st = Inr st' \<Longrightarrow> h \<noteq> [] \<Longrightarrow> names_ok (dict_keys (r_secs st)) \<Longrightarrow>
     names_ok (dict_keys (r_secs st'))"
  by (auto simp: read_header_def names_ok_def is_default_def dict_has_iff split: if_splits)

lemma read_line_names:
  assumes "read_line l st = Inr st'" and "names_ok (dict_keys (r_secs st))"
  shows "names_ok (dict_keys (r_secs st'))"
proof -
  have opt: "names_ok (dict_keys (r_secs t'))"
    if "read_option s k v t = Inr t'" "r_secs t = r_secs st" for s k v t t'
    using that assms(2) by (auto simp: read_option_def Let_def split: if_splits)
  have hdr: "names_ok (dict_keys (r_secs t'))"
    if "header_of v = Some h" "read_header h t = Inr t'" "r_secs t = r_secs st" for h v t t'
    using read_header_names [OF that(2) header_of_nonempty [OF that(1)]] that(3) assms(2) by simp
  show ?thesis
    using assms by (auto simp: read_line_def Let_def elim: opt hdr split: if_splits option.splits)
qed

lemma read_lines_names:
  "read_lines ls st = Inr st' \<Longrightarrow> names_ok (dict_keys (r_secs st)) \<Longrightarrow> names_ok (dict_keys (r_secs st'))"
  by (induction ls arbitrary: st) (auto split: sum.splits dest: read_line_names)

lemma ini_read_names:
  assumes "ini_read c t = Inr c'" and "names_ok (dict_keys (sections c))"
  shows "names_ok (dict_keys (sections c'))"
proof -
  obtain st where st: "read_lines (text_lines t) (start_rd c) = Inr st" and c': "c' = finish_rd st"
    using assms(1) by (auto simp: ini_read_def split: sum.splits if_splits)
  have "dict_keys (r_secs (start_rd c)) = dict_keys (sections c)"
    by (simp add: start_rd_def)
  then show ?thesis
    using read_lines_names [OF st] assms(2) by (simp add: c' dict_keys_finish)
qed

lemma names_ok_empty [simp]: "names_ok (dict_keys (sections empty_ini))"
  by (simp add: names_ok_def empty_ini_def)

lemma names_okD: "names_ok ns \<Longrightarrow> s \<in> set ns \<Longrightarrow> \<not> is_default s"
  by (auto simp: names_ok_def list_all_iff)

lemma wf_ini_names: "wf_ini c \<Longrightarrow> names_ok (dict_keys (sections c))"
  by (auto simp: wf_ini_def names_ok_def list_all_iff wf_name_def)

end
