(* ===== verification/World.thy ===== *)
theory World
  imports PyText
begin

section \<open>The program's surroundings\<close>

text \<open>
  The state the program works on is the text files it reads and writes and the outside
  world \<open>'w\<close>, of which nothing is known here. Whatever the code reaches through a
  third-party package, the operating system or the network is a field of one of the
  records below: a function on the world that may raise. These records are parameters
  of every definition that uses them.
\<close>

record 'w sys =
  files :: "string \<Rightarrow> string option"
  ext :: 'w

text \<open>
  The operating system: opening a file for writing (which may be refused), \<open>makedirs\<close>,
  \<open>os.system\<close> (the wait status), the formatted current time.
\<close>

record 'w os_api =
  os_open_w :: "string \<Rightarrow> 'w \<Rightarrow> (exn + unit) \<times> 'w"
  os_makedirs :: "string \<Rightarrow> 'w \<Rightarrow> (exn + unit) \<times> 'w"
  os_system :: "string \<Rightarrow> 'w \<Rightarrow> (exn + int) \<times> 'w"
  os_now :: "'w \<Rightarrow> string \<times> 'w"

definition ext_op :: "('w \<Rightarrow> (exn + 'a) \<times> 'w) \<Rightarrow> ('w sys, 'a) prog" where
  "ext_op f = (\<lambda>s. case f (ext s) of (r, w) \<Rightarrow> (r, s\<lparr>ext := w\<rparr>))"

text \<open>\<open>with open(path, "w") as file: file.write(text)\<close>.\<close>

definition write_file :: "'w os_api \<Rightarrow> string \<Rightarrow> string \<Rightarrow> ('w sys, unit) prog" where
  "write_file os p t = thenP (ext_op (os_open_w os p)) (modify (\<lambda>s. s\<lparr>files := (files s)(p := Some t)\<rparr>))"

text \<open>\<open>now.strftime(...)\<close>.\<close>

definition now :: "'w os_api \<Rightarrow> ('w sys, string) prog" where
  "now os = (\<lambda>s. case os_now os (ext s) of (t, w) \<Rightarrow> (Inr t, s\<lparr>ext := w\<rparr>))"

subsection \<open>Which files an operation can touch\<close>

lemma files_ext_op [simp]: "files (snd (ext_op f s)) = files s"
  by (simp add: ext_op_def split: prod.splits)

lemma ext_op_eq: "f (ext s) = (r, w) \<Longrightarrow> ext_op f s = (r, s\<lparr>ext := w\<rparr>)"
  by (simp add: ext_op_def)

lemma fst_ext_op [simp]: "fst (ext_op f s) = fst (f (ext s))"
  by (simp add: ext_op_def split: prod.splits)

lemma keeps_ext_op [keeps_intros]: "(\<And>s w. I s \<Longrightarrow> I (s\<lparr>ext := w\<rparr>)) \<Longrightarrow> keeps I (ext_op f)"
  by (simp add: keeps_def ext_op_def split: prod.splits)

lemma keeps_now [keeps_intros]: "(\<And>s w. I s \<Longrightarrow> I (s\<lparr>ext := w\<rparr>)) \<Longrightarrow> keeps I (now os)"
  by (simp add: keeps_def now_def split: prod.splits)

lemma keeps_write_file [keeps_intros]:
  assumes "\<And>s w. I s \<Longrightarrow> I (s\<lparr>ext := w\<rparr>)" and "\<And>s. I s \<Longrightarrow> I (s\<lparr>files := (files s)(p := Some t)\<rparr>)"
  shows "keeps I (write_file os p t)"
  unfolding write_file_def by (intro keeps_intros) (auto intro: assms)

text \<open>The content of one file, as an invariant of everything that writes elsewhere.\<close>

definition frame :: "string \<Rightarrow> string option \<Rightarrow> 'w sys \<Rightarrow> bool" where
  "frame p x s \<longleftrightarrow> files s p = x"

lemma frame_ext [simp]: "frame p x (s\<lparr>ext := w\<rparr>) = frame p x s"
  by (simp add: frame_def)

lemma frame_ext_op [keeps_intros]: "keeps (frame p x) (ext_op f)"
  by (rule keeps_ext_op) simp

lemma frame_write_file [keeps_intros]: "p \<noteq> q \<Longrightarrow> keeps (frame p x) (write_file os q t)"
  by (rule keeps_write_file) (simp_all add: frame_def)

lemma frameD: "keeps (frame p (files s p)) m \<Longrightarrow> m s = (r, s') \<Longrightarrow> files s' p = files s p"
  using keepsD [of "frame p (files s p)" m s r s'] by (simp add: frame_def)

text \<open>The writes that \<open>os\<close> lets through.\<close>

definition can_write :: "'w os_api \<Rightarrow> string \<Rightarrow> bool" where
  "can_write os p \<longleftrightarrow> (\<forall>w. fst (os_open_w os p w) = Inr ())"

lemma write_file_ok:
  assumes "can_write os p"
  shows "write_file os p t s =
    (Inr (), s\<lparr>ext := snd (os_open_w os p (ext s)), files := (files s)(p := Some t)\<rparr>)"
proof -
  obtain w where "os_open_w os p (ext s) = (Inr (), w)"
    using assms unfolding can_write_def by (metis prod.collapse)
  then show ?thesis by (simp add: write_file_def thenP_def bindP_def ext_op_def)
qed

lemma write_file_Inr:
  "write_file os p t s = (Inr u, s') \<Longrightarrow> files s' = (files s)(p := Some t)"
  by (auto simp: write_file_def thenP_eq_Inr ext_op_def split: prod.splits)

lemma write_file_Inl: "write_file os p t s = (Inl e, s') \<Longrightarrow> files s' = files s"
  by (auto simp: write_file_def thenP_def bindP_eq_Inl ext_op_def split: prod.splits)

end
