(* ===== verification/Loader.thy ===== *)
theory Loader
  imports IniText World
begin

section \<open>The configuration loader\<close>

text \<open>
  The class \<open>ConfigLoader\<close> of \<open>functions/main.py\<close>: the parser it owns, the API
  section, the profiles (every section but \<open>api\<close>), the numbering of the profiles that
  its constructor writes back to \<open>config.conf\<close>, and the write-back of one section.
  The methods that generate files for the services are in the theory \<open>Generators\<close>.
\<close>

subsection \<open>Data\<close>

record aws_config =
  ac_configName :: string
  ac_order :: string
  ac_accessKey :: string
  ac_secretKey :: string
  ac_instanceId :: string
  ac_region :: string
  ac_apikey :: string
  ac_whitelist :: string
  ac_user :: string
  ac_pass :: string

record api_config =
  api_apikey :: string
  api_port :: string
  api_interfaceWgPrivateKey :: string
  api_interfaceWgPublicKey :: string
  api_peerWgPublicKey :: string
  api_peerWgPrivateKey :: string
  api_publicip :: string
  api_sshKeyPath :: string

record loader =
  config :: ini
  api_cfg :: api_config
  all_aws :: "aws_config list"

definition conf_path :: string where
  "conf_path = ''config.conf''"

definition ssBasePort :: int where "ssBasePort = 30000"
definition wgPortBase :: int where "wgPortBase = 40000"
definition socks5PortBase :: int where "socks5PortBase = 50000"
definition httpPortBase :: int where "httpPortBase = 60000"

subsection \<open>Reading sections\<close>

text \<open>The calls \<open>self.config.get\<close> and \<open>self.config.set\<close> as computations on the parser.\<close>

definition cget :: "string \<Rightarrow> string \<Rightarrow> (ini, string) prog" where
  "cget s k = (\<lambda>c. (ini_get c s k, c))"

definition cset :: "string \<Rightarrow> string \<Rightarrow> string option \<Rightarrow> (ini, unit) prog" where
  "cset s k v = (\<lambda>c. case ini_set c s k v of Inl e \<Rightarrow> (Inl e, c) | Inr c' \<Rightarrow> (Inr (), c'))"

definition load_api_config :: "(ini, api_config) prog" where
  "load_api_config =
     bindP (cget ''api'' ''apikey'') (\<lambda>apikey.
     bindP (cget ''api'' ''port'') (\<lambda>port.
     bindP (cget ''api'' ''interfacewgPrivateKey'') (\<lambda>ipriv.
     bindP (cget ''api'' ''interfacewgPublicKey'') (\<lambda>ipub.
     bindP (cget ''api'' ''peerwgPublicKey'') (\<lambda>ppub.
     bindP (cget ''api'' ''peerwgPrivateKey'') (\<lambda>ppriv.
     bindP (cget ''api'' ''publicip'') (\<lambda>publicip.
     bindP (cget ''api'' ''sshKeyPath'') (\<lambda>ssh.
     ret \<lparr>api_apikey = apikey, api_port = port, api_interfaceWgPrivateKey = ipriv,
          api_interfaceWgPublicKey = ipub, api_peerWgPublicKey = ppub,
          api_peerWgPrivateKey = ppriv, api_publicip = publicip, api_sshKeyPath = ssh\<rparr>))))))))"

text \<open>\<open>if not self.config.has_option(name, k): self.config.set(name, k, v)\<close>.\<close>

definition ensure_option :: "string \<Rightarrow> string \<Rightarrow> string \<Rightarrow> (ini, unit) prog" where
  "ensure_option name k v = (\<lambda>c. if has_option c name k then (Inr (), c) else cset name k (Some v) c)"

definition aws_defaults :: "(string \<times> string) list" where
  "aws_defaults = [(''user'', []), (''pass'', []), (''apikey'', []), (''whitelist'', []),
     (''region'', ''us-east-1''), (''instanceid'', [])]"

definition load_aws_config :: "string \<Rightarrow> (ini, aws_config) prog" where
  "load_aws_config name =
     thenP (for_each aws_defaults (\<lambda>(k, v). ensure_option name k v)) (
     bindP (cget name ''order'') (\<lambda>ord.
     bindP (cget name ''accessKey'') (\<lambda>acc.
     bindP (cget name ''secretKey'') (\<lambda>sec.
     bindP (cget name ''instanceId'') (\<lambda>inst.
     bindP (cget name ''region'') (\<lambda>reg.
     bindP (cget name ''apikey'') (\<lambda>apikey.
     bindP (cget name ''whitelist'') (\<lambda>wl.
     bindP (cget name ''user'') (\<lambda>user.
     bindP (cget name ''pass'') (\<lambda>pass.
     ret \<lparr>ac_configName = name, ac_order = ord, ac_accessKey = acc, ac_secretKey = sec,
          ac_instanceId = inst, ac_region = reg, ac_apikey = apikey, ac_whitelist = wl,
          ac_user = user, ac_pass = pass\<rparr>))))))))))"

subsection \<open>The file\<close>

text \<open>\<open>config.read("config.conf")\<close>: a missing file leaves the parser as it is.\<close>

definition read_conf :: "ini \<Rightarrow> ('w sys, ini) prog" where
  "read_conf c = (\<lambda>s. case files s conf_path of
     None \<Rightarrow> (Inr c, s)
   | Some t \<Rightarrow> (ini_read c t, s))"

text \<open>A computation on the parser inside one on the system.\<close>

definition run_ini :: "(ini, 'a) prog \<Rightarrow> ini \<Rightarrow> ('s, 'a \<times> ini) prog" where
  "run_ini m c = (\<lambda>s. case m c of (Inl e, _) \<Rightarrow> (Inl e, s) | (Inr x, c') \<Rightarrow> (Inr (x, c'), s))"

definition reset_aws_config_order :: "'w os_api \<Rightarrow> string \<Rightarrow> ini \<Rightarrow> ('w sys, ini) prog" where
  "reset_aws_config_order os name c =
     bindP (run_ini (cset name ''order'' (Some [])) c) (\<lambda>(_, c').
     thenP (write_file os conf_path (ini_write c')) (ret c'))"

definition reorder_aws_config :: "'w os_api \<Rightarrow> string \<Rightarrow> nat \<Rightarrow> ini \<Rightarrow> ('w sys, ini) prog" where
  "reorder_aws_config os name n c =
     bindP (run_ini (cset name ''order'' (Some (str_nat n))) c) (\<lambda>(_, c').
     thenP (write_file os conf_path (ini_write c')) (ret c'))"

text \<open>The loop of \<open>load_all_aws_config\<close>; \<open>n\<close> is its \<open>counter\<close>.\<close>

fun load_all_loop :: "'w os_api \<Rightarrow> nat \<Rightarrow> string list \<Rightarrow> ini \<Rightarrow> ('w sys, aws_config list \<times> ini) prog" where
  "load_all_loop os n [] c = ret ([], c)"
| "load_all_loop os n (name # names) c =
     (if name = ''api'' then load_all_loop os n names c
      else
        bindP (reset_aws_config_order os name c) (\<lambda>c1.
        bindP (reorder_aws_config os name n c1) (\<lambda>c2.
        bindP (run_ini (load_aws_config name) c2) (\<lambda>(a, c3).
        bindP (load_all_loop os (Suc n) names c3) (\<lambda>(as, c4).
        ret (a # as, c4))))))"

definition load_all_aws_config :: "'w os_api \<Rightarrow> ini \<Rightarrow> ('w sys, aws_config list \<times> ini) prog" where
  "load_all_aws_config os c = load_all_loop os 1 (dict_keys (sections c)) c"

text \<open>The constructor, and \<open>reload_config\<close>, which reads into the same parser again.\<close>

definition load_into :: "'w os_api \<Rightarrow> ini \<Rightarrow> ('w sys, loader) prog" where
  "load_into os c0 =
     bindP (read_conf c0) (\<lambda>c.
     bindP (run_ini load_api_config c) (\<lambda>(api, c1).
     bindP (load_all_aws_config os c1) (\<lambda>(as, c2).
     ret \<lparr>config = c2, api_cfg = api, all_aws = as\<rparr>)))"

definition ConfigLoader :: "'w os_api \<Rightarrow> ('w sys, loader) prog" where
  "ConfigLoader os = load_into os empty_ini"

definition reload_config :: "'w os_api \<Rightarrow> loader \<Rightarrow> ('w sys, loader) prog" where
  "reload_config os ld = load_into os (config ld)"

subsection \<open>Writing one section back\<close>

definition set_value :: "string \<Rightarrow> string \<Rightarrow> string option \<Rightarrow> loader \<Rightarrow> ('s, loader) prog" where
  "set_value s k v ld = bindP (run_ini (cset s k v) (config ld)) (\<lambda>(_, c). ret (ld\<lparr>config := c\<rparr>))"

text \<open>\<open>for key in target_section: temp_config[name][key] = target_section[key]\<close>.\<close>

fun merge_keys :: "ini \<Rightarrow> string \<Rightarrow> string list \<Rightarrow> ini \<Rightarrow> exn + ini" where
  "merge_keys c name [] t = Inr t"
| "merge_keys c name (k # ks) t =
     (case ini_get c name k of
        Inl e \<Rightarrow> Inl e
      | Inr v \<Rightarrow> (case ini_set t name k (Some v) of Inl e \<Rightarrow> Inl e | Inr t' \<Rightarrow> merge_keys c name ks t'))"

definition target_keys :: "ini \<Rightarrow> string \<Rightarrow> string list" where
  "target_keys c name = (if name = default_section then dict_keys (defaults c) else ini_options c name)"

definition merge_section :: "ini \<Rightarrow> string \<Rightarrow> ini \<Rightarrow> exn + ini" where
  "merge_section c name t =
     (if name \<noteq> default_section \<and> \<not> has_section c name then Inl (KeyError name)
      else let t' = (if name = default_section \<or> has_section t name then Inr t else ini_add_section t name)
        in case t' of Inl e \<Rightarrow> Inl e | Inr t1 \<Rightarrow> merge_keys c name (target_keys c name) t1)"

definition write_changes :: "'w os_api \<Rightarrow> loader \<Rightarrow> string \<Rightarrow> ('w sys, unit) prog" where
  "write_changes os ld name =
     bindP (read_conf empty_ini) (\<lambda>temp.
     bindP (of_sum (merge_section (config ld) name temp)) (\<lambda>temp'.
     write_file os conf_path (ini_write temp')))"

definition load_aws :: "string \<Rightarrow> loader \<Rightarrow> ('s, aws_config \<times> loader) prog" where
  "load_aws name ld = bindP (run_ini (load_aws_config name) (config ld)) (\<lambda>(a, c). ret (a, ld\<lparr>config := c\<rparr>))"

definition loader_change_region :: "'w os_api \<Rightarrow> string \<Rightarrow> string \<Rightarrow> loader \<Rightarrow> ('w sys, loader) prog" where
  "loader_change_region os name new_region ld =
     bindP (load_aws name ld) (\<lambda>(_, ld1).
     bindP (set_value name ''region'' (Some new_region) ld1) (\<lambda>ld2.
     thenP (write_changes os ld2 name) (ret ld2)))"

subsection \<open>The contract of the option store\<close>

text \<open>
  What the loader needs of a store of options: a stored option is the one seen
  afterwards, everything else is seen as before, and a section stays there. From this
  follows what a loop that copies options into one section does.
\<close>

locale option_store =
  fixes lookup :: "'c \<Rightarrow> string \<Rightarrow> string \<Rightarrow> string option"
    and store :: "string \<Rightarrow> string \<Rightarrow> string \<Rightarrow> 'c \<Rightarrow> 'c"
    and present :: "'c \<Rightarrow> string \<Rightarrow> bool"
  assumes lookup_store:
      "present c s \<Longrightarrow> lookup (store s k v c) s' k' = (if s' = s \<and> k' = k then Some v else lookup c s' k')"
    and present_store: "present c s \<Longrightarrow> present (store s k v c) s' \<longleftrightarrow> present c s'"
begin

lemma present_copy:
  "present c s \<Longrightarrow> present (fold (\<lambda>k. store s k (f k)) ks c) s' \<longleftrightarrow> present c s'"
  by (induction ks arbitrary: c) (simp_all add: present_store)

lemma lookup_copy:
  "present c s \<Longrightarrow> lookup (fold (\<lambda>k. store s k (f k)) ks c) s' k' =
     (if s' = s \<and> k' \<in> set ks then Some (f k') else lookup c s' k')"
  by (induction ks arbitrary: c) (auto simp: present_store lookup_store)

lemma store_twice:
  "present c s \<Longrightarrow> lookup (store s k v (store s k w c)) s' k' = lookup (store s k v c) s' k'"
  by (simp add: lookup_store present_store)

end

definition proper_section :: "ini \<Rightarrow> string \<Rightarrow> bool" where
  "proper_section c s \<longleftrightarrow> \<not> is_default s \<and> has_section c s"

interpretation ini_store: option_store visible set_raw proper_section
  by unfold_locales (auto simp: proper_section_def visible_set_raw has_section_set_raw)

end
