(* ===== verification/Demo.thy ===== *)
theory Demo
  imports Loader
begin

section \<open>A concrete installation\<close>

text \<open>
  A small configuration and a quiet operating system, on which the hypotheses of the
  properties are shown to hold: two profiles, one with a whitelist and a proxy user.
\<close>

definition demo_os :: "unit os_api" where
  "demo_os = \<lparr>os_open_w = (\<lambda>p w. (Inr (), w)), os_makedirs = (\<lambda>p w. (Inr (), w)),
     os_system = (\<lambda>c w. (Inr 0, w)), os_now = (\<lambda>w. (''2024-01-01 00:00:00'', w))\<rparr>"

definition demo_api :: "(string, string) dict" where
  "demo_api = [(''apikey'', ''s3cret''), (''port'', ''8080''), (''interfacewgprivatekey'', ''ipriv''),
     (''interfacewgpublickey'', ''ipub''), (''peerwgpublickey'', ''ppub''), (''peerwgprivatekey'', ''ppriv''),
     (''publicip'', ''1.2.3.4''), (''sshkeypath'', ''/root/key'')]"

definition demo_ini :: ini where
  "demo_ini = \<lparr>defaults = [], sections =
     [(''api'', demo_api),
      (''acc1'', [(''accesskey'', ''AK1''), (''secretkey'', ''SK1''), (''order'', ''7'')]),
      (''acc2'', [(''accesskey'', ''AK2''), (''secretkey'', ''SK2''), (''user'', ''joe''),
                (''pass'', ''pw''), (''whitelist'', ''10.1.0.0/16, 10.2.0.1'')])]\<rparr>"

definition demo_files :: "string \<Rightarrow> string option" where
  "demo_files = [conf_path \<mapsto> ini_write demo_ini]"

definition demo_sys :: "unit sys" where
  "demo_sys = \<lparr>files = demo_files, ext = ()\<rparr>"

lemma can_write_demo [simp]: "can_write demo_os p"
  by (simp add: can_write_def demo_os_def)

lemma wf_demo_ini [simp]: "wf_ini demo_ini"
  by code_simp

lemma read_demo: "read_conf empty_ini demo_sys = (Inr demo_ini, demo_sys)"
  by (simp add: read_conf_def demo_sys_def demo_files_def ini_read_write)

end
