(* ===== verification/LoaderProps.thy ===== *)
theory LoaderProps
  imports Demo
begin

section \<open>What the configuration loader guarantees\<close>

text \<open>
  The numbering of the profiles by the constructor, its effect on the file (and that a
  second construction changes nothing), the defaults it supplies, and the write-back of
  one section: what it changes, what it leaves alone, and when it fails.
\<close>

subsection \<open>Defaults\<close>

lemma lower_names [simp]:
  "py_lower ''order'' = ''order''" "py_lower ''accessKey'' = ''accesskey''"
  "py_lower ''secretKey'' = ''secretkey''" "py_lower ''instanceId'' = ''instanceid''"
  "py_lower ''instanceid'' = ''instanceid''" "py_lower ''region'' = ''region''"
  "py_lower ''apikey'' = ''apikey''" "py_lower ''whitelist'' = ''whitelist''"
  "py_lower ''user'' = ''user''" "py_lower ''pass'' = ''pass''"
  "py_lower ''port'' = ''port''" "py_lower ''publicip'' = ''publicip''"
  "py_lower ''sshKeyPath'' = ''sshkeypath''"
  "py_lower ''interfacewgPrivateKey'' = ''interfacewgprivatekey''"
  "py_lower ''interfacewgPublicKey'' = ''interfacewgpublickey''"
  "py_lower ''peerwgPrivateKey'' = ''peerwgprivatekey''"
  "py_lower ''peerwgPublicKey'' = ''peerwgpublickey''"
  by code_simp+

lemma cget_apply [simp]: "cget s k c = (ini_get c s k, c)"
  by (simp add: cget_def)

lemma dict_get_aws_defaults:
  "dict_get aws_defaults ''user'' = Some []" "dict_get aws_defaults ''pass'' = Some []"
  "dict_get aws_defaults ''apikey'' = Some []" "dict_get aws_defaults ''whitelist'' = Some []"
  "dict_get aws_defaults ''region'' = Some ''us-east-1''" "dict_get aws_defaults ''instanceid'' = Some []"
  by (simp_all add: aws_defaults_def)

definition add_default :: "string \<Rightarrow> string \<times> string \<Rightarrow> ini \<Rightarrow> ini" where
  "add_default name kv c = (if visible c name (fst kv) = None then set_raw name (fst kv) (snd kv) c else c)"

definition add_defaults :: "string \<Rightarrow> ini \<Rightarrow> ini" where
  "add_defaults name c = fold (add_default name) aws_defaults c"

lemma ensure_option_eq:
  assumes "proper_section c name" and "py_lower k = k" and "CHR ''%'' \<notin> set v"
  shows "ensure_option name k v c = (Inr (), add_default name (k, v) c)"
  using assms
  by (auto simp: ensure_option_def add_default_def cset_def proper_section_def has_option_visible ini_set_ok)

lemma proper_add_default: "proper_section c n \<Longrightarrow> proper_section (add_default n kv c) s \<longleftrightarrow> proper_section c s"
  by (simp add: add_default_def ini_store.present_store)

lemma visible_add_default:
  "proper_section c n \<Longrightarrow> visible (add_default n kv c) s k =
     (if s = n \<and> k = fst kv \<and> visible c n k = None then Some (snd kv) else visible c s k)"
  by (auto simp: add_default_def ini_store.lookup_store)

lemma for_each_ensure:
  assumes "proper_section c name" and "\<forall>(k, v) \<in> set kvs. py_lower k = k \<and> CHR ''%'' \<notin> set v"
  shows "for_each kvs (\<lambda>(k, v). ensure_option name k v) c = (Inr (), fold (add_default name) kvs c)"
  using assms
proof (induction kvs arbitrary: c)
  case (Cons kv kvs)
  obtain k v where kv: "kv = (k, v)" by (cases kv)
  have "ensure_option name k v c = (Inr (), add_default name (k, v) c)"
    using Cons.prems kv by (intro ensure_option_eq) auto
  moreover have "proper_section (add_default name (k, v) c) name"
    using Cons.prems by (simp add: proper_add_default)
  ultimately show ?case using Cons kv by simp
qed simp

lemma ensure_all:
  "proper_section c name \<Longrightarrow>
     for_each aws_defaults (\<lambda>(k, v). ensure_option name k v) c = (Inr (), add_defaults name c)"
  unfolding add_defaults_def by (rule for_each_ensure) (auto simp: aws_defaults_def)

lemma proper_fold_defaults:
  "proper_section c n \<Longrightarrow> proper_section (fold (add_default n) kvs c) s \<longleftrightarrow> proper_section c s"
  by (induction kvs arbitrary: c) (simp_all add: proper_add_default)

lemma proper_add_defaults [simp]:
  "proper_section c n \<Longrightarrow> proper_section (add_defaults n c) s \<longleftrightarrow> proper_section c s"
  by (simp add: add_defaults_def proper_fold_defaults)

lemma visible_fold_defaults:
  "proper_section c n \<Longrightarrow> visible (fold (add_default n) kvs c) s k =
     (if s = n \<and> visible c n k = None then dict_get kvs k else visible c s k)"
  by (induction kvs arbitrary: c) (auto simp: proper_add_default visible_add_default)

text \<open>The names seen in a section after the defaults: what the file had, else the default.\<close>

lemma visible_add_defaults:
  "proper_section c n \<Longrightarrow> visible (add_defaults n c) s k =
     (if s = n \<and> visible c n k = None then dict_get aws_defaults k else visible c s k)"
  by (simp add: add_defaults_def visible_fold_defaults)

lemma section_dict_add_default:
  "proper_section c n \<Longrightarrow> s \<noteq> n \<Longrightarrow> section_dict (add_default n kv c) s = section_dict c s"
  by (simp add: add_default_def section_dict_set_raw proper_section_def)

lemma section_dict_add_defaults:
  "proper_section c n \<Longrightarrow> s \<noteq> n \<Longrightarrow> section_dict (add_defaults n c) s = section_dict c s"
proof -
  have "proper_section c n \<Longrightarrow> s \<noteq> n \<Longrightarrow>
      section_dict (fold (add_default n) kvs c) s = section_dict c s" for kvs
    by (induction kvs arbitrary: c) (simp_all add: proper_add_default section_dict_add_default)
  then show "proper_section c n \<Longrightarrow> s \<noteq> n \<Longrightarrow>
      section_dict (add_defaults n c) s = section_dict c s"
    by (simp add: add_defaults_def)
qed

lemma names_add_default:
  "proper_section c n \<Longrightarrow> dict_keys (sections (add_default n kv c)) = dict_keys (sections c)"
  by (simp add: add_default_def section_names_set_raw proper_section_def)

lemma names_add_defaults:
  "proper_section c n \<Longrightarrow> dict_keys (sections (add_defaults n c)) = dict_keys (sections c)"
proof -
  have "proper_section c n \<Longrightarrow>
      dict_keys (sections (fold (add_default n) kvs c)) = dict_keys (sections c)" for kvs
    by (induction kvs arbitrary: c) (simp_all add: proper_add_default names_add_default)
  then show "proper_section c n \<Longrightarrow> dict_keys (sections (add_defaults n c)) = dict_keys (sections c)"
    by (simp add: add_defaults_def)
qed

lemma add_defaults_none:
  "\<forall>(k, v) \<in> set aws_defaults. visible c n k \<noteq> None \<Longrightarrow> add_defaults n c = c"
proof -
  have "\<forall>(k, v) \<in> set kvs. visible c n k \<noteq> None \<Longrightarrow> fold (add_default n) kvs c = c" for kvs
    by (induction kvs) (auto simp: add_default_def)
  then show "\<forall>(k, v) \<in> set aws_defaults. visible c n k \<noteq> None \<Longrightarrow> add_defaults n c = c"
    by (simp add: add_defaults_def)
qed

subsection \<open>Reading one profile\<close>

lemma load_aws_config_eq:
  assumes "proper_section c name"
  shows "load_aws_config name c = (r, c') \<Longrightarrow> c' = add_defaults name c"
    and "load_aws_config name c = (Inr a, c') \<Longrightarrow>
      ac_configName a = name \<and>
      ini_get (add_defaults name c) name ''order'' = Inr (ac_order a) \<and>
      ini_get (add_defaults name c) name ''accessKey'' = Inr (ac_accessKey a) \<and>
      ini_get (add_defaults name c) name ''secretKey'' = Inr (ac_secretKey a) \<and>
      ini_get (add_defaults name c) name ''instanceId'' = Inr (ac_instanceId a) \<and>
      ini_get (add_defaults name c) name ''region'' = Inr (ac_region a) \<and>
      ini_get (add_defaults name c) name ''apikey'' = Inr (ac_apikey a) \<and>
      ini_get (add_defaults name c) name ''whitelist'' = Inr (ac_whitelist a) \<and>
      ini_get (add_defaults name c) name ''user'' = Inr (ac_user a) \<and>
      ini_get (add_defaults name c) name ''pass'' = Inr (ac_pass a)"
proof -
  note ens = ensure_all [OF assms]
  show "load_aws_config name c = (r, c') \<Longrightarrow> c' = add_defaults name c"
    by (cases r) (auto simp: load_aws_config_def ens bindP_eq_Inl bindP_eq_Inr)
  show "load_aws_config name c = (Inr a, c') \<Longrightarrow>
      ac_configName a = name \<and>
      ini_get (add_defaults name c) name ''order'' = Inr (ac_order a) \<and>
      ini_get (add_defaults name c) name ''accessKey'' = Inr (ac_accessKey a) \<and>
      ini_get (add_defaults name c) name ''secretKey'' = Inr (ac_secretKey a) \<and>
      ini_get (add_defaults name c) name ''instanceId'' = Inr (ac_instanceId a) \<and>
      ini_get (add_defaults name c) name ''region'' = Inr (ac_region a) \<and>
      ini_get (add_defaults name c) name ''apikey'' = Inr (ac_apikey a) \<and>
      ini_get (add_defaults name c) name ''whitelist'' = Inr (ac_whitelist a) \<and>
      ini_get (add_defaults name c) name ''user'' = Inr (ac_user a) \<and>
      ini_get (add_defaults name c) name ''pass'' = Inr (ac_pass a)"
    by (auto simp: load_aws_config_def ens bindP_eq_Inr)
qed

lemma load_aws_config_missing:
  assumes "\<not> has_section c name" and "\<not> is_default name"
  shows "load_aws_config name c = (Inl (NoSectionError name), c)"
  using assms
  by (simp add: load_aws_config_def aws_defaults_def ensure_option_def cset_def ini_set_def has_option_def)

text \<open>The profile that a section without percent signs is read as.\<close>

definition option_or :: "ini \<Rightarrow> string \<Rightarrow> string \<Rightarrow> string \<Rightarrow> string" where
  "option_or c name k d = (case visible c name k of None \<Rightarrow> d | Some v \<Rightarrow> v)"

definition profile_of :: "ini \<Rightarrow> string \<Rightarrow> aws_config" where
  "profile_of c name =
     \<lparr>ac_configName = name, ac_order = option_or c name ''order'' [],
      ac_accessKey = option_or c name ''accesskey'' [], ac_secretKey = option_or c name ''secretkey'' [],
      ac_instanceId = option_or c name ''instanceid'' [], ac_region = option_or c name ''region'' ''us-east-1'',
      ac_apikey = option_or c name ''apikey'' [], ac_whitelist = option_or c name ''whitelist'' [],
      ac_user = option_or c name ''user'' [], ac_pass = option_or c name ''pass'' []\<rparr>"

definition plain_section :: "ini \<Rightarrow> string \<Rightarrow> bool" where
  "plain_section c s \<longleftrightarrow> (\<forall>v \<in> set (map snd (section_dict c s) @ map snd (defaults c)). CHR ''%'' \<notin> set v)"

definition has_keys :: "ini \<Rightarrow> string \<Rightarrow> string list \<Rightarrow> bool" where
  "has_keys c s ks \<longleftrightarrow> list_all (\<lambda>k. visible c s k \<noteq> None) ks"

lemma plain_visible: "plain_section c s \<Longrightarrow> visible c s k = Some v \<Longrightarrow> CHR ''%'' \<notin> set v"
  by (force simp: plain_section_def visible_def split: option.splits dest!: map_of_SomeD)

lemma visible_default_plain:
  assumes "proper_section c n" and "plain_section c n" and "visible (add_defaults n c) n k = Some v"
  shows "CHR ''%'' \<notin> set v"
proof (cases "visible c n k")
  case None
  with assms have "dict_get aws_defaults k = Some v" by (simp add: visible_add_defaults)
  then show ?thesis by (auto simp: aws_defaults_def split: if_splits)
next
  case (Some w)
  with assms show ?thesis by (simp add: visible_add_defaults plain_visible)
qed

lemma load_aws_config_ok:
  assumes "proper_section c name" and "plain_section c name"
    and "has_keys c name [''order'', ''accesskey'', ''secretkey'']"
  shows "load_aws_config name c = (Inr (profile_of c name), add_defaults name c)"
proof -
  have get: "ini_get (add_defaults name c) name k = Inr (option_or c name (py_lower k) d)"
    if "visible c name (py_lower k) \<noteq> None \<or> dict_get aws_defaults (py_lower k) = Some d" for k d
  proof -
    have v: "visible (add_defaults name c) name (py_lower k) = Some (option_or c name (py_lower k) d)"
      using that assms(1) by (auto simp: visible_add_defaults option_or_def)
    have "has_section (add_defaults name c) name"
      using assms(1) proper_add_defaults [OF assms(1), of name] by (simp add: proper_section_def)
    then show ?thesis using v visible_default_plain [OF assms(1,2) v] by (rule ini_get_visible)
  qed
  have keys: "visible c name ''order'' \<noteq> None" "visible c name ''accesskey'' \<noteq> None"
    "visible c name ''secretkey'' \<noteq> None"
    using assms(3) by (simp_all add: has_keys_def)
  note gets = get [of "''order''" "[]"] get [of "''accessKey''" "[]"] get [of "''secretKey''" "[]"]
    get [of "''instanceId''" "[]"] get [of "''region''" "''us-east-1''"] get [of "''apikey''" "[]"]
    get [of "''whitelist''" "[]"] get [of "''user''" "[]"] get [of "''pass''" "[]"]
  show ?thesis
    using gets keys ensure_all [OF assms(1)]
    by (simp add: load_aws_config_def thenP_def bindP_def profile_of_def dict_get_aws_defaults)
qed

subsection \<open>The numbering loop\<close>

text \<open>
  \<open>renumber\<close> is the parser after the loop; \<open>last_saved\<close> is the parser as the loop last
  wrote it to the file, which lacks only the defaults of the last profile.
\<close>

definition number_profile :: "nat \<Rightarrow> string \<Rightarrow> ini \<Rightarrow> ini" where
  "number_profile n name c = set_raw name ''order'' (str_nat n) c"

fun renumber :: "nat \<Rightarrow> string list \<Rightarrow> ini \<Rightarrow> ini" where
  "renumber n [] c = c"
| "renumber n (x # xs) c =
     (if x = ''api'' then renumber n xs c
      else renumber (Suc n) xs (add_defaults x (number_profile n x c)))"

fun last_saved :: "nat \<Rightarrow> string list \<Rightarrow> ini \<Rightarrow> ini option" where
  "last_saved n [] c = None"
| "last_saved n (x # xs) c =
     (if x = ''api'' then last_saved n xs c
      else case last_saved (Suc n) xs (add_defaults x (number_profile n x c)) of
             None \<Rightarrow> Some (number_profile n x c)
           | Some d \<Rightarrow> Some d)"

lemma proper_number [simp]:
  "proper_section c x \<Longrightarrow> proper_section (number_profile n x c) s \<longleftrightarrow> proper_section c s"
  by (simp add: number_profile_def ini_store.present_store)

lemma visible_number:
  "proper_section c x \<Longrightarrow> visible (number_profile n x c) s k =
     (if s = x \<and> k = ''order'' then Some (str_nat n) else visible c s k)"
  by (simp add: number_profile_def ini_store.lookup_store)

lemma run_ini_eq_Inr:
  "run_ini m c s = (Inr y, s') \<longleftrightarrow> m c = (Inr (fst y), snd y) \<and> s' = s"
  by (auto simp: run_ini_def split: prod.splits sum.splits)

lemma set_order_eq:
  "proper_section c x \<Longrightarrow> CHR ''%'' \<notin> set v \<Longrightarrow>
     run_ini (cset x ''order'' (Some v)) c s = (Inr ((), set_raw x ''order'' v c), s)"
  by (simp add: run_ini_def cset_def ini_set_ok proper_section_def)

lemma reset_eq:
  "proper_section c x \<Longrightarrow> reset_aws_config_order os x c s =
     thenP (write_file os conf_path (ini_write (set_raw x ''order'' [] c))) (ret (set_raw x ''order'' [] c)) s"
  by (simp add: reset_aws_config_order_def set_order_eq)

lemma reorder_eq:
  "proper_section c x \<Longrightarrow> reorder_aws_config os x n c s =
     thenP (write_file os conf_path (ini_write (number_profile n x c))) (ret (number_profile n x c)) s"
  by (simp add: reorder_aws_config_def set_order_eq number_profile_def)

text \<open>One round of the loop: blank the number, write, set it, write.\<close>

lemma round_Inr:
  assumes "proper_section c x" and "reset_aws_config_order os x c s = (Inr c1, s1)"
    and "reorder_aws_config os x n c1 s1 = (Inr c2, s2)"
  shows "c2 = number_profile n x c \<and> files s2 = (files s)(conf_path := Some (ini_write c2))"
proof -
  have c1: "c1 = set_raw x ''order'' [] c" and f1: "files s1 = (files s)(conf_path := Some (ini_write c1))"
    using assms(1,2) by (auto simp: reset_eq thenP_eq_Inr dest: write_file_Inr)
  have "proper_section c1 x" using assms(1) by (simp add: c1 ini_store.present_store)
  then have "c2 = number_profile n x c1" "files s2 = (files s1)(conf_path := Some (ini_write c2))"
    using assms(3) by (auto simp: reorder_eq thenP_eq_Inr dest: write_file_Inr)
  then show ?thesis
    using assms(1) f1 by (simp add: c1 number_profile_def proper_section_def set_raw_set_raw)
qed

lemma loop_Inr:
  assumes "load_all_loop os n names c s = (Inr (as, c'), s')" and "\<forall>x \<in> set names. proper_section c x"
  shows "c' = renumber n names c \<and>
    map ac_order as = map str_nat [n..<n + length as] \<and>
    map ac_configName as = filter (\<lambda>x. x \<noteq> ''api'') names \<and>
    files s' = (case last_saved n names c of None \<Rightarrow> files s
                | Some d \<Rightarrow> (files s)(conf_path := Some (ini_write d)))"
  using assms
proof (induction names arbitrary: n c s as)
  case Nil
  then show ?case by simp
next
  case (Cons x xs)
  show ?case
  proof (cases "x = ''api''")
    case True
    with Cons show ?thesis by simp
  next
    case False
    have px: "proper_section c x" using Cons.prems by simp
    from False Cons.prems(1) obtain c1 s1 c2 s2 a c3 as' where
      r: "reset_aws_config_order os x c s = (Inr c1, s1)" "reorder_aws_config os x n c1 s1 = (Inr c2, s2)"
      and l: "load_aws_config x c2 = (Inr a, c3)"
      and rest: "load_all_loop os (Suc n) xs c3 s2 = (Inr (as', c'), s')" and as: "as = a # as'"
      by (auto simp: bindP_eq_Inr run_ini_eq_Inr)
    have c2: "c2 = number_profile n x c" and f2: "files s2 = (files s)(conf_path := Some (ini_write c2))"
      using round_Inr [OF px r] by auto
    have p2: "proper_section c2 x" using px by (simp add: c2)
    have c3: "c3 = add_defaults x c2" and name: "ac_configName a = x"
      and ord: "ini_get c3 x ''order'' = Inr (ac_order a)"
      using load_aws_config_eq [OF p2] l by auto
    have "visible c3 x ''order'' = Some (str_nat n)"
      using px p2 by (simp add: c3 visible_add_defaults) (simp add: c2 visible_number)
    moreover have "has_section c3 x"
      using proper_add_defaults [OF p2, of x] p2 by (simp add: c3 proper_section_def)
    ultimately have "ac_order a = str_nat n"
      using ord ini_get_visible [of c3 x "''order''" "str_nat n"] by simp
    moreover have "\<forall>y \<in> set xs. proper_section c3 y"
      using Cons.prems px p2 by (simp add: c3 c2)
    note IH = Cons.IH [OF rest this]
    moreover have "length as = Suc (length as')" by (simp add: as)
    ultimately show ?thesis
      using False name f2 by (auto simp: as c3 c2 upt_conv_Cons simp del: upt_Suc split: option.splits)
  qed
qed

lemma defaults_add_defaults: "proper_section c n \<Longrightarrow> defaults (add_defaults n c) = defaults c"
proof -
  have "proper_section c n \<Longrightarrow> defaults (fold (add_default n) kvs c) = defaults c" for kvs
    by (induction kvs arbitrary: c)
      (simp_all add: proper_add_default, simp add: add_default_def proper_section_def)
  then show "proper_section c n \<Longrightarrow> defaults (add_defaults n c) = defaults c"
    by (simp add: add_defaults_def)
qed

text \<open>One profile numbered and completed: the other sections are as before.\<close>

definition step_profile :: "nat \<Rightarrow> string \<Rightarrow> ini \<Rightarrow> ini" where
  "step_profile n x c = add_defaults x (number_profile n x c)"

lemma step_profile_other:
  assumes "proper_section c x" and "y \<noteq> x"
  shows "section_dict (step_profile n x c) y = section_dict c y"
    and "visible (step_profile n x c) y k = visible c y k"
    and "defaults (step_profile n x c) = defaults c"
    and "proper_section (step_profile n x c) s \<longleftrightarrow> proper_section c s"
    and "dict_keys (sections (step_profile n x c)) = dict_keys (sections c)"
  using assms
  by (simp_all add: step_profile_def section_dict_add_defaults visible_add_defaults
      defaults_add_defaults visible_number names_add_defaults)
    (simp_all add: number_profile_def section_dict_set_raw section_names_set_raw proper_section_def)

lemma step_profile_names:
  "proper_section c x \<Longrightarrow> dict_keys (sections (step_profile n x c)) = dict_keys (sections c)"
  by (simp add: step_profile_def names_add_defaults)
    (simp add: number_profile_def section_names_set_raw proper_section_def)

lemma proper_step_profile [simp]:
  "proper_section c x \<Longrightarrow> proper_section (step_profile n x c) s \<longleftrightarrow> proper_section c s"
  by (simp add: step_profile_def)

lemma visible_step_profile:
  "proper_section c x \<Longrightarrow> visible (step_profile n x c) s k =
     (if s = x \<and> k = ''order'' then Some (str_nat n)
      else if s = x \<and> visible c s k = None then dict_get aws_defaults k else visible c s k)"
  by (auto simp: step_profile_def visible_add_defaults visible_number)

lemma renumber_simps [simp]:
  "renumber n (x # xs) c =
     (if x = ''api'' then renumber n xs c else renumber (Suc n) xs (step_profile n x c))"
  by (simp add: step_profile_def)

declare renumber.simps(2) [simp del]

lemma renumber_names:
  "\<forall>x \<in> set xs. proper_section c x \<Longrightarrow> dict_keys (sections (renumber n xs c)) = dict_keys (sections c)"
  by (induction xs arbitrary: n c) (simp_all add: step_profile_names)

lemma renumber_other:
  "\<forall>x \<in> set xs. proper_section c x \<Longrightarrow> s \<notin> set xs \<or> s = ''api'' \<Longrightarrow>
     visible (renumber n xs c) s k = visible c s k \<and>
     section_dict (renumber n xs c) s = section_dict c s"
proof (induction xs arbitrary: n c)
  case (Cons x xs)
  then show ?case
    using step_profile_other [of c x s] by (cases "x = ''api''") auto
qed simp

lemma profile_of_cong:
  "(\<And>k. visible c x k = visible c' x k) \<Longrightarrow> profile_of c x = profile_of c' x"
  by (simp add: profile_of_def option_or_def)

lemma option_or_defaults:
  assumes "proper_section c x" and "dict_get aws_defaults k = Some d \<or> dict_get aws_defaults k = None"
  shows "option_or (add_defaults x c) x k d = option_or c x k d"
  using assms by (auto simp: option_or_def visible_add_defaults split: option.splits)

lemma aws_defaults_required:
  "dict_get aws_defaults ''order'' = None" "dict_get aws_defaults ''accesskey'' = None"
  "dict_get aws_defaults ''secretkey'' = None"
  by (simp_all add: aws_defaults_def)

lemma profile_of_defaults:
  "proper_section c x \<Longrightarrow> profile_of (add_defaults x c) x = profile_of c x"
  by (simp add: profile_of_def option_or_defaults dict_get_aws_defaults aws_defaults_required)

text \<open>A section from which a profile can be loaded.\<close>

definition profile_ready :: "ini \<Rightarrow> string \<Rightarrow> bool" where
  "profile_ready c x \<longleftrightarrow> proper_section c x \<and> plain_section c x \<and> has_keys c x [''accesskey'', ''secretkey'']"

lemma plain_number:
  assumes "proper_section c x" and "plain_section c x"
  shows "plain_section (number_profile n x c) x"
proof -
  have d: "section_dict (number_profile n x c) x = dict_set ''order'' (str_nat n) (section_dict c x)"
    and f: "defaults (number_profile n x c) = defaults c"
    using assms(1) by (simp_all add: number_profile_def section_dict_set_raw proper_section_def)
  show ?thesis
    using assms(2) by (auto simp: plain_section_def d f dest!: dict_set_cases)
qed

lemma profile_ready_step:
  assumes "profile_ready c y" and "proper_section c x" and "y \<noteq> x"
  shows "profile_ready (step_profile n x c) y"
  using assms by (simp add: profile_ready_def plain_section_def has_keys_def step_profile_other)

lemma loop_ok:
  assumes "\<forall>x \<in> set names. proper_section c x \<and> (x \<noteq> ''api'' \<longrightarrow> profile_ready c x)"
    and "distinct names" and "can_write os conf_path"
  shows "\<exists>s'. load_all_loop os n names c s =
    (Inr (map (profile_of (renumber n names c)) (filter (\<lambda>x. x \<noteq> ''api'') names), renumber n names c), s')"
  using assms(1,2)
proof (induction names arbitrary: n c s)
  case Nil
  then show ?case by simp
next
  case (Cons x xs)
  show ?case
  proof (cases "x = ''api''")
    case True
    with Cons.IH [of c n s] Cons.prems show ?thesis by simp
  next
    case False
    let ?c2 = "number_profile n x c"
    have px: "proper_section c x" and rx: "profile_ready c x" using Cons.prems False by auto
    obtain s1 where s1: "reset_aws_config_order os x c s = (Inr (set_raw x ''order'' [] c), s1)"
      using px assms(3) by (simp add: reset_eq write_file_ok thenP_def bindP_def)
    have p1: "proper_section (set_raw x ''order'' [] c) x" using px by (simp add: ini_store.present_store)
    have "number_profile n x (set_raw x ''order'' [] c) = ?c2"
      using px by (simp add: number_profile_def proper_section_def set_raw_set_raw)
    then obtain s2 where s2: "reorder_aws_config os x n (set_raw x ''order'' [] c) s1 = (Inr ?c2, s2)"
      using assms(3) by (simp add: reorder_eq [OF p1] write_file_ok thenP_def bindP_def)
    have "has_keys ?c2 x [''order'', ''accesskey'', ''secretkey'']"
      using rx px by (simp add: has_keys_def profile_ready_def visible_number)
    then have l: "load_aws_config x ?c2 = (Inr (profile_of ?c2 x), step_profile n x c)"
      using load_aws_config_ok [of ?c2 x] px rx plain_number by (simp add: profile_ready_def step_profile_def)
    have ready: "\<forall>y \<in> set xs. proper_section (step_profile n x c) y \<and>
        (y \<noteq> ''api'' \<longrightarrow> profile_ready (step_profile n x c) y)"
      using Cons.prems px by (auto intro!: profile_ready_step)
    obtain s' where rest: "load_all_loop os (Suc n) xs (step_profile n x c) s2 =
        (Inr (map (profile_of (renumber n (x # xs) c)) (filter (\<lambda>x. x \<noteq> ''api'') xs), renumber n (x # xs) c), s')"
      using Cons.IH [of "step_profile n x c" "Suc n" s2] ready Cons.prems False by auto
    have "profile_of (renumber n (x # xs) c) x = profile_of (step_profile n x c) x"
      using renumber_other [of xs "step_profile n x c" x "Suc n"] ready Cons.prems False
      by (intro profile_of_cong) auto
    then have "profile_of (renumber n (x # xs) c) x = profile_of ?c2 x"
      using px by (simp add: step_profile_def profile_of_defaults del: renumber_simps)
    then show ?thesis
      using False s1 s2 l rest by (simp add: bindP_def run_ini_def)
  qed
qed

subsection \<open>What the loop leaves in the file\<close>

lemma proper_wf_set: "wf_ini c \<Longrightarrow> proper_section c x \<Longrightarrow> wf_key k \<Longrightarrow> wf_val v \<Longrightarrow> wf_ini (set_raw x k v c)"
  by (simp add: proper_section_def wf_set_raw)

lemma wf_key_order: "wf_key ''order''"
  by code_simp

lemma wf_val_str_nat [simp]: "wf_val (str_nat n)"
  by (simp add: wf_val_def one_line_def)

lemma wf_number: "wf_ini c \<Longrightarrow> proper_section c x \<Longrightarrow> wf_ini (number_profile n x c)"
  by (simp add: number_profile_def proper_wf_set wf_key_order)

lemma wf_aws_defaults: "list_all (\<lambda>(k, v). wf_key k \<and> wf_val v) aws_defaults"
  by code_simp

lemma wf_add_defaults: "wf_ini c \<Longrightarrow> proper_section c x \<Longrightarrow> wf_ini (add_defaults x c)"
proof -
  have one: "wf_ini (add_default x (k, v) c)"
    if "wf_ini c" "proper_section c x" "wf_key k" "wf_val v" for c k v
    using that by (simp add: add_default_def proper_wf_set)
  have "list_all (\<lambda>(k, v). wf_key k \<and> wf_val v) kvs \<Longrightarrow> wf_ini c \<Longrightarrow> proper_section c x \<Longrightarrow>
      wf_ini (fold (add_default x) kvs c)" for kvs
    by (induction kvs arbitrary: c) (auto simp: proper_add_default one)
  then show "wf_ini c \<Longrightarrow> proper_section c x \<Longrightarrow> wf_ini (add_defaults x c)"
    using wf_aws_defaults by (simp add: add_defaults_def)
qed

lemma wf_step_profile: "wf_ini c \<Longrightarrow> proper_section c x \<Longrightarrow> wf_ini (step_profile n x c)"
  by (simp add: step_profile_def wf_add_defaults wf_number)

lemma last_saved_simps [simp]:
  "last_saved n (x # xs) c =
     (if x = ''api'' then last_saved n xs c
      else case last_saved (Suc n) xs (step_profile n x c) of
             None \<Rightarrow> Some (number_profile n x c)
           | Some d \<Rightarrow> Some d)"
  by (simp add: step_profile_def)

declare last_saved.simps(2) [simp del]

lemma last_saved_None: "last_saved n xs c = None \<longleftrightarrow> set xs \<subseteq> {''api''}"
  by (induction xs arbitrary: n c) (auto split: option.splits)

lemma number_profile_other:
  "proper_section c x \<Longrightarrow> y \<noteq> x \<Longrightarrow> section_dict (number_profile n x c) y = section_dict c y"
  by (simp add: number_profile_def section_dict_set_raw proper_section_def)

lemma last_saved_frame:
  assumes "last_saved n xs c = Some d" and "\<forall>x \<in> set xs. proper_section c x"
  shows "(y \<notin> set xs \<or> y = ''api'' \<longrightarrow> section_dict d y = section_dict c y \<and> (\<forall>k. visible d y k = visible c y k)) \<and>
    dict_keys (sections d) = dict_keys (sections c) \<and> (\<forall>z. proper_section d z \<longleftrightarrow> proper_section c z) \<and>
    (wf_ini c \<longrightarrow> wf_ini d)"
  using assms
proof (induction xs arbitrary: n c)
  case (Cons x xs)
  show ?case
  proof (cases "x = ''api''")
    case True
    with Cons.IH [of n c] Cons.prems show ?thesis by auto
  next
    case False
    have px: "proper_section c x" using Cons.prems by simp
    show ?thesis
    proof (cases "last_saved (Suc n) xs (step_profile n x c)")
      case None
      with False Cons.prems have "d = number_profile n x c" by simp
      then show ?thesis
        using px False
        by (auto simp: number_profile_other visible_number wf_number)
          (simp add: number_profile_def section_names_set_raw proper_section_def)
    next
      case (Some d')
      with False Cons.prems have "last_saved (Suc n) xs (step_profile n x c) = Some d" by simp
      from Cons.IH [OF this] Cons.prems px False show ?thesis
        by (auto simp: step_profile_other step_profile_names wf_step_profile)
    qed
  qed
qed simp

lemma last_saved_fixpoint:
  assumes "last_saved n xs c = Some d" and "\<forall>x \<in> set xs. proper_section c x" and "distinct xs"
  shows "last_saved n xs d = Some d"
  using assms
proof (induction xs arbitrary: n c)
  case (Cons x xs)
  show ?case
  proof (cases "x = ''api''")
    case True
    with Cons.IH [of n c] Cons.prems show ?thesis by simp
  next
    case False
    have px: "proper_section c x" using Cons.prems by simp
    have pd: "proper_section d x" using last_saved_frame [OF Cons.prems(1,2)] px by blast
    have same: "number_profile n x d = d" if "dict_get (section_dict d x) ''order'' = Some (str_nat n)"
      unfolding number_profile_def using pd that by (simp add: set_raw_same proper_section_def)
    show ?thesis
    proof (cases "last_saved (Suc n) xs (step_profile n x c)")
      case None
      with False Cons.prems have d: "d = number_profile n x c" by simp
      have "number_profile n x d = d"
        unfolding d using px by (simp add: number_profile_def set_raw_set_raw proper_section_def)
      moreover have "last_saved (Suc n) xs (step_profile n x d) = None"
        using None by (simp add: last_saved_None)
      ultimately show ?thesis using False by simp
    next
      case (Some d')
      with False Cons.prems have sd: "last_saved (Suc n) xs (step_profile n x c) = Some d" by simp
      have pr: "\<forall>y \<in> set xs. proper_section (step_profile n x c) y" using Cons.prems px by simp
      have x: "section_dict d x = section_dict (step_profile n x c) x" "visible d x k = visible (step_profile n x c) x k" for k
        using last_saved_frame [OF sd pr, of x] Cons.prems by auto
      have "dict_get (section_dict (number_profile n x c) x) ''order'' = Some (str_nat n)"
        using px by (simp add: number_profile_def section_dict_set_raw proper_section_def dict_get_set)
      moreover have "dict_get (section_dict (add_defaults x c') x) ''order'' = dict_get (section_dict c' x) ''order''"
        if "proper_section c' x" for c'
      proof -
        have "\<forall>(k, v) \<in> set kvs. k \<noteq> ''order'' \<Longrightarrow> proper_section c' x \<Longrightarrow>
          dict_get (section_dict (fold (add_default x) kvs c') x) ''order'' = dict_get (section_dict c' x) ''order''" for kvs
          by (induction kvs arbitrary: c') (auto simp: proper_add_default,
              auto simp: add_default_def section_dict_set_raw proper_section_def dict_get_set)
        from this [of aws_defaults] that show ?thesis by (simp add: add_defaults_def aws_defaults_def)
      qed
      ultimately have "number_profile n x d = d"
        using px by (intro same) (simp add: x step_profile_def)
      moreover have "add_defaults x d = d"
        using px by (intro add_defaults_none) (auto simp: x visible_step_profile aws_defaults_def)
      ultimately have "step_profile n x d = d" by (simp add: step_profile_def)
      then show ?thesis using Cons.IH [OF sd pr] Cons.prems False by simp
    qed
  qed
qed simp

subsection \<open>The constructor\<close>

lemma load_api_state: "load_api_config c = (r, c') \<Longrightarrow> c' = c"
  by (cases r) (auto simp: load_api_config_def bindP_eq_Inl bindP_eq_Inr)

lemma read_conf_Inr: "read_conf c0 s = (Inr c, s1) \<Longrightarrow> s1 = s \<and> (c = c0 \<or> (\<exists>t. ini_read c0 t = Inr c))"
  by (auto simp: read_conf_def split: option.splits)

lemma read_conf_names:
  "read_conf empty_ini s = (Inr c, s1) \<Longrightarrow> names_ok (dict_keys (sections c))"
  by (auto dest!: read_conf_Inr simp: ini_read_names)

lemma proper_of_names: "names_ok (dict_keys (sections c)) \<Longrightarrow> \<forall>x \<in> set (dict_keys (sections c)). proper_section c x"
  using names_okD [of "dict_keys (sections c)"]
  by (simp add: proper_section_def has_section_def dict_has_iff del: list.set_map)

text \<open>The sections that are profiles, in the file's order.\<close>

definition profiles :: "ini \<Rightarrow> string list" where
  "profiles c = filter (\<lambda>x. x \<noteq> ''api'') (dict_keys (sections c))"

lemma ConfigLoader_Inr:
  assumes "ConfigLoader os s = (Inr ld, s')"
  obtains c where "read_conf empty_ini s = (Inr c, s)" and "names_ok (dict_keys (sections c))"
    and "config ld = renumber 1 (dict_keys (sections c)) c"
    and "map ac_order (all_aws ld) = map str_nat [1..<1 + length (all_aws ld)]"
    and "map ac_configName (all_aws ld) = profiles c"
    and "files s' = (case last_saved 1 (dict_keys (sections c)) c of None \<Rightarrow> files s
                     | Some d \<Rightarrow> (files s)(conf_path := Some (ini_write d)))"
proof -
  from assms obtain c s1 api c1 as c2 where r: "read_conf empty_ini s = (Inr c, s1)"
    and a: "load_api_config c = (Inr api, c1)"
    and l: "load_all_loop os 1 (dict_keys (sections c1)) c1 s1 = (Inr (as, c2), s')"
    and ld: "ld = \<lparr>config = c2, api_cfg = api, all_aws = as\<rparr>"
    by (auto simp: ConfigLoader_def load_into_def bindP_eq_Inr run_ini_eq_Inr load_all_aws_config_def)
  have s1: "s1 = s" and c1: "c1 = c" using read_conf_Inr [OF r] load_api_state [OF a] by auto
  have names: "names_ok (dict_keys (sections c))" using r by (rule read_conf_names)
  have l': "load_all_loop os 1 (dict_keys (sections c)) c s = (Inr (as, c2), s')"
    using l unfolding s1 c1 .
  have "read_conf empty_ini s = (Inr c, s)" using r s1 by simp
  moreover note loop_Inr [OF l' proper_of_names [OF names]]
  ultimately show ?thesis using names by (intro that) (simp_all add: ld profiles_def del: upt_Suc)
qed

lemma renumber_profiles:
  "names_ok (dict_keys (sections c)) \<Longrightarrow> profiles (renumber n (dict_keys (sections c)) c) = profiles c"
  by (simp add: profiles_def renumber_names proper_of_names)

text \<open>C21: the constructor numbers the profiles of the file 1, 2, 3, ... in the order of
  their sections: whenever \<open>ConfigLoader()\<close> returns, the profiles it holds are exactly the
  sections other than \<open>api\<close>, without repetition, and their \<open>order\<close> values are the decimal
  numbers from 1 to their count.\<close>

theorem loader_orders:
  assumes "ConfigLoader os s = (Inr ld, s')"
  shows "map ac_order (all_aws ld) = map str_nat [1..<1 + length (all_aws ld)] \<and>
    map ac_configName (all_aws ld) = profiles (config ld) \<and>
    distinct (map ac_configName (all_aws ld)) \<and> distinct (map ac_order (all_aws ld))"
proof -
  from assms obtain c where n: "names_ok (dict_keys (sections c))"
    and c: "config ld = renumber 1 (dict_keys (sections c)) c"
    and o: "map ac_order (all_aws ld) = map str_nat [1..<1 + length (all_aws ld)]"
    and p: "map ac_configName (all_aws ld) = profiles c" by (rule ConfigLoader_Inr)
  have "distinct (map ac_order (all_aws ld))"
    unfolding o by (simp add: distinct_map inj_on_def del: upt_Suc)
  moreover have "distinct (profiles c)" using n by (simp add: profiles_def names_ok_def)
  ultimately show ?thesis using o p n by (simp add: c renumber_profiles)
qed

text \<open>A file from which the constructor can load everything.\<close>

definition plain_dict :: "(string, string) dict \<Rightarrow> bool" where
  "plain_dict d \<longleftrightarrow> list_all (\<lambda>(k, v). CHR ''%'' \<notin> set v) d"

definition plain_ini :: "ini \<Rightarrow> bool" where
  "plain_ini c \<longleftrightarrow> plain_dict (defaults c) \<and> list_all (\<lambda>(s, d). plain_dict d) (sections c)"

definition conf_ready :: "ini \<Rightarrow> bool" where
  "conf_ready c \<longleftrightarrow> names_ok (dict_keys (sections c)) \<and> plain_ini c \<and> proper_section c ''api'' \<and>
     has_keys c ''api'' [''apikey'', ''port'', ''interfacewgprivatekey'', ''interfacewgpublickey'',
       ''peerwgpublickey'', ''peerwgprivatekey'', ''publicip'', ''sshkeypath''] \<and>
     list_all (\<lambda>x. has_keys c x [''accesskey'', ''secretkey'']) (profiles c)"

lemma plain_dict_set: "plain_dict d \<Longrightarrow> CHR ''%'' \<notin> set v \<Longrightarrow> plain_dict (dict_set k v d)"
  by (auto simp: plain_dict_def list_all_iff dest!: dict_set_cases)

lemma plain_section_dict: "plain_ini c \<Longrightarrow> plain_dict (section_dict c s)"
proof (cases "dict_get (sections c) s")
  case None
  then show ?thesis by (simp add: section_dict_def plain_dict_def)
next
  case (Some d)
  then have "(s, d) \<in> set (sections c)" by (rule map_of_SomeD)
  then show "plain_ini c \<Longrightarrow> ?thesis"
    using Some by (auto simp: plain_ini_def section_dict_def list_all_iff)
qed

lemma plain_ini_section: "plain_ini c \<Longrightarrow> plain_section c s"
  using plain_section_dict [of c s]
  by (auto simp: plain_section_def plain_dict_def plain_ini_def list_all_iff)

lemma plain_set_raw:
  assumes "plain_ini c" and "CHR ''%'' \<notin> set v" and "proper_section c s"
  shows "plain_ini (set_raw s k v c)"
proof -
  have "plain_dict (dict_set k v (section_dict c s))"
    using assms by (simp add: plain_dict_set plain_section_dict)
  then show ?thesis
    using assms by (auto simp: plain_ini_def set_raw_def proper_section_def list_all_iff dest!: dict_set_cases)
qed

lemma has_keys_mono:
  "has_keys c x ks \<Longrightarrow> (\<And>k. visible c x k \<noteq> None \<Longrightarrow> visible d x k \<noteq> None) \<Longrightarrow> has_keys d x ks"
  by (simp add: has_keys_def list_all_iff)

lemma conf_ready_set_raw:
  assumes "conf_ready c" and "proper_section c s" and "CHR ''%'' \<notin> set v"
  shows "conf_ready (set_raw s k v c)"
proof -
  have n: "dict_keys (sections (set_raw s k v c)) = dict_keys (sections c)"
    using assms by (simp add: section_names_set_raw proper_section_def)
  have v: "visible c x i \<noteq> None \<Longrightarrow> visible (set_raw s k v c) x i \<noteq> None" for x i
    using assms by (simp add: ini_store.lookup_store)
  show ?thesis
    using assms v unfolding conf_ready_def
    by (auto simp: n plain_set_raw ini_store.present_store profiles_def list_all_iff
        simp del: list.set_map elim!: has_keys_mono)
qed

lemma conf_ready_add_default:
  "conf_ready c \<Longrightarrow> proper_section c s \<Longrightarrow> CHR ''%'' \<notin> set (snd kv) \<Longrightarrow> conf_ready (add_default s kv c)"
  by (simp add: add_default_def conf_ready_set_raw)

lemma conf_ready_add_defaults: "conf_ready c \<Longrightarrow> proper_section c s \<Longrightarrow> conf_ready (add_defaults s c)"
proof -
  have "\<forall>kv \<in> set kvs. CHR ''%'' \<notin> set (snd kv) \<Longrightarrow> conf_ready c \<Longrightarrow> proper_section c s \<Longrightarrow>
      conf_ready (fold (add_default s) kvs c)" for kvs
    by (induction kvs arbitrary: c) (auto simp: proper_add_default conf_ready_add_default)
  from this [of aws_defaults] show "conf_ready c \<Longrightarrow> proper_section c s \<Longrightarrow> conf_ready (add_defaults s c)"
    by (simp add: add_defaults_def aws_defaults_def)
qed

lemma conf_ready_number: "conf_ready c \<Longrightarrow> proper_section c s \<Longrightarrow> conf_ready (number_profile n s c)"
  by (simp add: number_profile_def conf_ready_set_raw)

lemma conf_ready_step: "conf_ready c \<Longrightarrow> proper_section c s \<Longrightarrow> conf_ready (step_profile n s c)"
  by (simp add: step_profile_def conf_ready_number conf_ready_add_defaults)

lemma conf_ready_renumber:
  "conf_ready c \<Longrightarrow> \<forall>x \<in> set xs. proper_section c x \<Longrightarrow> conf_ready (renumber n xs c)"
  by (induction xs arbitrary: n c) (auto simp: conf_ready_step)

lemma conf_ready_last_saved:
  "last_saved n xs c = Some d \<Longrightarrow> conf_ready c \<Longrightarrow> \<forall>x \<in> set xs. proper_section c x \<Longrightarrow> conf_ready d"
  by (induction xs arbitrary: n c)
    (auto simp: conf_ready_step conf_ready_number split: option.splits if_splits)

lemma load_api_ok:
  assumes "conf_ready c"
  shows "\<exists>api. load_api_config c = (Inr api, c) \<and> api_apikey api = option_or c ''api'' ''apikey'' []
    \<and> api_publicip api = option_or c ''api'' ''publicip'' []"
proof -
  have g: "ini_get c ''api'' k = Inr (option_or c ''api'' (py_lower k) [])"
    if visible: "visible c ''api'' (py_lower k) \<noteq> None" for k
  proof -
    from visible obtain v where v: "visible c ''api'' (py_lower k) = Some v" by blast
    then have "CHR ''%'' \<notin> set v"
      using assms plain_ini_section plain_visible unfolding conf_ready_def by blast
    with assms v show ?thesis
      by (simp add: conf_ready_def proper_section_def option_or_def ini_get_visible)
  qed
  have keys: "\<forall>k \<in> {''apikey'', ''port'', ''interfacewgprivatekey'', ''interfacewgpublickey'',
       ''peerwgpublickey'', ''peerwgprivatekey'', ''publicip'', ''sshkeypath''}. visible c ''api'' k \<noteq> None"
    using assms by (simp add: conf_ready_def has_keys_def)
  show ?thesis
    using g [of "''apikey''"] g [of "''port''"] g [of "''interfacewgPrivateKey''"]
      g [of "''interfacewgPublicKey''"] g [of "''peerwgPublicKey''"] g [of "''peerwgPrivateKey''"]
      g [of "''publicip''"] g [of "''sshKeyPath''"] keys
    by (simp add: load_api_config_def bindP_def)
qed

lemma conf_ready_profiles:
  assumes "conf_ready c"
  shows "\<forall>x \<in> set (dict_keys (sections c)). proper_section c x \<and> (x \<noteq> ''api'' \<longrightarrow> profile_ready c x)"
  using assms proper_of_names [of c]
  by (auto simp: conf_ready_def profile_ready_def list_all_iff profiles_def plain_ini_section)

text \<open>What a profile's option amounts to: what the file says, else the code's default.\<close>

definition effective :: "ini \<Rightarrow> string \<Rightarrow> string \<Rightarrow> string option" where
  "effective c x k = (case visible c x k of None \<Rightarrow> dict_get aws_defaults k | Some v \<Rightarrow> Some v)"

lemma effective_step:
  "proper_section c y \<Longrightarrow> k \<noteq> ''order'' \<Longrightarrow> effective (step_profile n y c) x k = effective c x k"
  by (auto simp: effective_def visible_step_profile split: option.splits)

lemma effective_number:
  "proper_section c y \<Longrightarrow> k \<noteq> ''order'' \<Longrightarrow> effective (number_profile n y c) x k = effective c x k"
  by (simp add: effective_def visible_number)

lemma visible_renumber:
  assumes "x \<in> set ns" "x \<noteq> ''api''" "k \<noteq> ''order''" "distinct ns" "\<forall>y \<in> set ns. proper_section c y"
  shows "visible (renumber n ns c) x k = effective c x k"
  using assms
proof (induction ns arbitrary: n c)
  case (Cons y ys)
  show ?case
  proof (cases "x = y")
    case True
    with Cons.prems renumber_other [of ys "step_profile n x c" x "Suc n" k] show ?thesis
      by (auto simp: effective_def visible_step_profile split: option.splits)
  next
    case False
    then show ?thesis
      using Cons.prems Cons.IH [of c n] Cons.IH [of "step_profile n y c" "Suc n"]
      by (auto simp: effective_step)
  qed
qed simp

lemma order_renumber:
  assumes "x \<in> set ns" "x \<noteq> ''api''" "distinct ns"
    and "\<forall>y \<in> set ns. proper_section c y" "\<forall>y \<in> set ns. proper_section d y"
  shows "visible (renumber n ns c) x ''order'' = visible (renumber n ns d) x ''order''"
  using assms
proof (induction ns arbitrary: n c d)
  case (Cons y ys)
  show ?case
  proof (cases "x = y")
    case True
    with Cons.prems renumber_other [of ys "step_profile n x c" x "Suc n"]
      renumber_other [of ys "step_profile n x d" x "Suc n"] show ?thesis
      by (auto simp: visible_step_profile)
  next
    case False
    then show ?thesis
      using Cons.prems Cons.IH [of c d n] Cons.IH [of "step_profile n y c" "step_profile n y d" "Suc n"]
      by auto
  qed
qed simp

text \<open>The number of a profile is its place among the profiles.\<close>

lemma order_renumber_nth:
  assumes "i < length (filter (\<lambda>x. x \<noteq> ''api'') ns)" "distinct ns" "\<forall>y \<in> set ns. proper_section c y"
  shows "visible (renumber n ns c) (filter (\<lambda>x. x \<noteq> ''api'') ns ! i) ''order'' = Some (str_nat (n + i))"
  using assms
proof (induction ns arbitrary: n c i)
  case (Cons y ys)
  show ?case
  proof (cases "y = ''api''")
    case True
    with Cons show ?thesis by simp
  next
    case False
    have py: "proper_section c y" and pr: "\<forall>z \<in> set ys. proper_section (step_profile n y c) z"
      using Cons.prems by auto
    show ?thesis
    proof (cases i)
      case 0
      with False Cons.prems py renumber_other [OF pr, of y "Suc n" "''order''"] show ?thesis
        by (simp add: visible_step_profile)
    next
      case (Suc j)
      with False Cons.prems Cons.IH [OF _ _ pr, of j "Suc n"] show ?thesis by simp
    qed
  qed
qed simp

lemma effective_last_saved:
  "last_saved n ns c = Some d \<Longrightarrow> \<forall>y \<in> set ns. proper_section c y \<Longrightarrow> k \<noteq> ''order'' \<Longrightarrow>
     effective d x k = effective c x k"
  by (induction ns arbitrary: n c)
    (auto simp: effective_step effective_number split: option.splits if_splits)

lemma ConfigLoader_ok:
  assumes "read_conf empty_ini s = (Inr c, s)" and "conf_ready c" and "can_write os conf_path"
  shows "\<exists>ld s'. ConfigLoader os s = (Inr ld, s') \<and>
    config ld = renumber 1 (dict_keys (sections c)) c \<and>
    all_aws ld = map (profile_of (config ld)) (profiles c) \<and>
    (\<forall>x \<in> set (profiles c). \<forall>k. k \<noteq> ''order'' \<longrightarrow> visible (config ld) x k = effective c x k) \<and>
    files s' = (case last_saved 1 (dict_keys (sections c)) c of None \<Rightarrow> files s
                | Some d \<Rightarrow> (files s)(conf_path := Some (ini_write d)))"
proof -
  let ?ns = "dict_keys (sections c)"
  obtain api where api: "load_api_config c = (Inr api, c)" using load_api_ok [OF assms(2)] by blast
  have "distinct ?ns" using assms(2) by (simp add: conf_ready_def names_ok_def)
  then obtain s' where l: "load_all_loop os 1 ?ns c s =
      (Inr (map (profile_of (renumber 1 ?ns c)) (profiles c), renumber 1 ?ns c), s')"
    using loop_ok [OF conf_ready_profiles [OF assms(2)] _ assms(3), of 1 s] by (auto simp: profiles_def)
  have "\<forall>x \<in> set (profiles c). \<forall>k. k \<noteq> ''order'' \<longrightarrow> visible (renumber 1 ?ns c) x k = effective c x k"
    using visible_renumber [of _ ?ns] conf_ready_profiles [OF assms(2)] \<open>distinct ?ns\<close>
    by (auto simp: profiles_def)
  then show ?thesis
    using assms(1) api l loop_Inr [OF l] conf_ready_profiles [OF assms(2)]
    by (auto simp: ConfigLoader_def load_into_def bindP_def run_ini_def load_all_aws_config_def)
qed

text \<open>The file that a successful construction leaves can be loaded again.\<close>

lemma ConfigLoader_file:
  assumes "read_conf empty_ini s = (Inr c, s)" and "conf_ready c" and "wf_ini c" and "can_write os conf_path"
  obtains ld s' d where "ConfigLoader os s = (Inr ld, s')"
    and "config ld = renumber 1 (dict_keys (sections c)) c"
    and "read_conf empty_ini s' = (Inr d, s')" and "conf_ready d" and "wf_ini d"
    and "dict_keys (sections d) = dict_keys (sections c)"
    and "\<forall>x k. k \<noteq> ''order'' \<longrightarrow> effective d x k = effective c x k"
    and "\<forall>p. p \<noteq> conf_path \<longrightarrow> files s' p = files s p"
proof -
  let ?ns = "dict_keys (sections c)"
  obtain ld s' where ld: "ConfigLoader os s = (Inr ld, s')" "config ld = renumber 1 ?ns c"
    and f: "files s' = (case last_saved 1 ?ns c of None \<Rightarrow> files s
                | Some d \<Rightarrow> (files s)(conf_path := Some (ini_write d)))"
    using ConfigLoader_ok [OF assms(1,2,4)] by blast
  have p: "\<forall>x \<in> set ?ns. proper_section c x" using conf_ready_profiles [OF assms(2)] by blast
  show ?thesis
  proof (cases "last_saved 1 ?ns c")
    case None
    with f have f': "files s' = files s" by simp
    then have "read_conf empty_ini s' = (Inr c, s')"
      using assms(1) by (simp add: read_conf_def split: option.splits)
    with ld f' assms show ?thesis by (intro that [of ld s' c]) simp_all
  next
    case (Some d)
    have w: "wf_ini d" "dict_keys (sections d) = ?ns"
      using last_saved_frame [OF Some p] assms(3) by auto
    with f Some have "read_conf empty_ini s' = (Inr d, s')" by (simp add: read_conf_def ini_read_write)
    with ld f Some w conf_ready_last_saved [OF Some assms(2) p] effective_last_saved [OF Some p]
    show ?thesis by (intro that [of ld s' d]) simp_all
  qed
qed

lemma conf_ready_demo [simp]: "conf_ready demo_ini"
  by code_simp

lemma ConfigLoader_demo: "\<exists>ld s'. ConfigLoader demo_os demo_sys = (Inr ld, s')"
  using ConfigLoader_ok [OF read_demo conf_ready_demo can_write_demo] by blast

theorem loader_orders_witness:
  "\<exists>ld s'. ConfigLoader demo_os demo_sys = (Inr ld, s') \<and>
    map ac_order (all_aws ld) = map str_nat [1..<1 + length (all_aws ld)]"
proof -
  obtain ld s' where ld: "ConfigLoader demo_os demo_sys = (Inr ld, s')"
    using ConfigLoader_demo by blast
  then show ?thesis using loader_orders [OF ld] by (intro exI conjI) auto
qed

text \<open>C22: on a file that has its \<open>api\<close> section, the two keys of every profile and no percent
  sign, the constructor returns; every profile it holds is what its section says, with
  the code's defaults for \<open>user\<close>, \<open>pass\<close>, \<open>apikey\<close>, \<open>whitelist\<close>, \<open>instanceid\<close> (empty) and
  \<open>region\<close> (us-east-1), numbered by its place among the profiles.\<close>

theorem loader_total:
  assumes "read_conf empty_ini s = (Inr c, s)" and "conf_ready c" and "can_write os conf_path"
  shows "\<exists>ld s'. ConfigLoader os s = (Inr ld, s') \<and>
    all_aws ld = map (profile_of (config ld)) (profiles c) \<and>
    (\<forall>x \<in> set (profiles c). \<forall>k. k \<noteq> ''order'' \<longrightarrow>
       visible (config ld) x k = (case visible c x k of None \<Rightarrow> dict_get aws_defaults k | Some v \<Rightarrow> Some v))"
  unfolding effective_def [symmetric] using ConfigLoader_ok [OF assms] by blast

theorem loader_total_witness:
  "\<exists>ld s'. ConfigLoader demo_os demo_sys = (Inr ld, s') \<and>
    all_aws ld = map (profile_of (config ld)) [''acc1'', ''acc2'']"
  using loader_total [OF read_demo conf_ready_demo can_write_demo]
  by (auto simp: profiles_def demo_ini_def)

text \<open>C20: constructing the loader again changes nothing: the file that a first construction
  leaves behind is left as it is, byte for byte, by a second one.\<close>

theorem loader_idempotent:
  assumes "read_conf empty_ini s = (Inr c, s)" and "wf_ini c"
    and "ConfigLoader os s = (Inr ld1, s1)" and "ConfigLoader os s1 = (Inr ld2, s2)"
  shows "files s2 = files s1"
proof -
  let ?ns = "dict_keys (sections c)"
  from assms(3) obtain c' where c': "read_conf empty_ini s = (Inr c', s)"
    and f1: "files s1 = (case last_saved 1 (dict_keys (sections c')) c' of None \<Rightarrow> files s
                     | Some d \<Rightarrow> (files s)(conf_path := Some (ini_write d)))"
    by (rule ConfigLoader_Inr)
  have cc: "c' = c" using c' assms(1) by simp
  from assms(4) obtain c2 where r2: "read_conf empty_ini s1 = (Inr c2, s1)"
    and f2: "files s2 = (case last_saved 1 (dict_keys (sections c2)) c2 of None \<Rightarrow> files s1
                     | Some d \<Rightarrow> (files s1)(conf_path := Some (ini_write d)))"
    by (rule ConfigLoader_Inr)
  have ok: "names_ok ?ns" by (rule read_conf_names [OF assms(1)])
  show ?thesis
  proof (cases "last_saved 1 ?ns c")
    case None
    with f1 cc have f: "files s1 = files s" by simp
    then have "c2 = c" using r2 assms(1) by (simp add: read_conf_def split: option.splits)
    then show ?thesis using f2 None by simp
  next
    case (Some d)
    note frame = last_saved_frame [OF Some proper_of_names [OF ok]]
    have "ini_read empty_ini (ini_write d) = Inr d" using frame assms(2) by (simp add: ini_read_write)
    with f1 cc Some r2 have "c2 = d" by (simp add: read_conf_def)
    moreover have "last_saved 1 ?ns d = Some d"
      using last_saved_fixpoint [OF Some proper_of_names [OF ok]] ok by (simp add: names_ok_def)
    ultimately show ?thesis using f1 f2 frame cc Some by auto
  qed
qed

theorem loader_idempotent_witness:
  "\<exists>ld1 s1 ld2 s2. ConfigLoader demo_os demo_sys = (Inr ld1, s1) \<and>
    ConfigLoader demo_os s1 = (Inr ld2, s2) \<and> files s2 = files s1"
proof -
  obtain ld1 s1 d where 1: "ConfigLoader demo_os demo_sys = (Inr ld1, s1)"
    "read_conf empty_ini s1 = (Inr d, s1)" "conf_ready d"
    by (rule ConfigLoader_file [OF read_demo conf_ready_demo wf_demo_ini can_write_demo])
  obtain ld2 s2 where 2: "ConfigLoader demo_os s1 = (Inr ld2, s2)"
    using ConfigLoader_ok [OF 1(2,3) can_write_demo] by blast
  show ?thesis
    using loader_idempotent [OF read_demo wf_demo_ini 1(1) 2] 1(1) 2 by blast
qed

end
