(* ===== verification/LoaderWrite.thy ===== *)
theory LoaderWrite
  imports LoaderProps
begin

section \<open>Writing one section back\<close>

text \<open>
  \<open>write_changes\<close> of \<open>functions/main.py\<close>: what it puts into \<open>config.conf\<close>, what it leaves
  alone and when it fails; how a change made through one loader is seen by the next, and
  what a loader with an old copy of the file overwrites.
\<close>

subsection \<open>The merged section\<close>

lemma ini_options_visible:
  "k \<in> set (ini_options c s) \<longleftrightarrow> visible c s k \<noteq> None"
proof -
  have "k \<in> set (dict_keys d) \<longleftrightarrow> dict_get d k \<noteq> None" for d :: "(string, string) dict"
    using dict_has_iff [of d k] by (simp add: dict_has_def del: list.set_map)
  then show ?thesis
    by (auto simp: ini_options_def visible_def dict_has_def simp del: list.set_map split: option.splits)
qed

lemma wf_visible:
  assumes "wf_ini c" and "visible c s k = Some v"
  shows "wf_key k \<and> wf_val v"
proof -
  have w: "wf_dict (section_dict c s)"
  proof (cases "has_section c s")
    case True
    with assms(1) show ?thesis by (simp add: wf_ini_section)
  next
    case False
    then show ?thesis by (simp add: has_section_def dict_has_def section_dict_def)
  qed
  have "wf_dict (defaults c)" using assms(1) by (simp add: wf_ini_def)
  with w assms(2) show ?thesis
    by (auto simp: visible_def wf_dict_def list_all_iff split: option.splits dest!: map_of_SomeD)
qed

definition seen :: "ini \<Rightarrow> string \<Rightarrow> string \<Rightarrow> string" where
  "seen c name k = option_or c name k []"

lemma merge_keys_plain:
  assumes "proper_section c name" and "plain_section c name" and "proper_section t name"
    and "\<forall>k \<in> set ks. py_lower k = k \<and> visible c name k \<noteq> None"
  shows "merge_keys c name ks t = Inr (fold (\<lambda>k. set_raw name k (seen c name k)) ks t)"
  using assms(3,4)
proof (induction ks arbitrary: t)
  case (Cons k ks)
  then have k: "py_lower k = k" "visible c name k = Some (seen c name k)"
    by (auto simp: seen_def option_or_def)
  then have p: "CHR ''%'' \<notin> set (seen c name k)" using assms(2) plain_visible by blast
  have "ini_get c name k = Inr (seen c name k)"
    using assms(1) k p by (simp add: proper_section_def ini_get_visible)
  moreover have "ini_set t name k (Some (seen c name k)) = Inr (set_raw name k (seen c name k) t)"
    using Cons.prems(1) k p by (simp add: proper_section_def ini_set_ok)
  moreover have "proper_section (set_raw name k (seen c name k) t) name"
    using Cons.prems(1) by (simp add: ini_store.present_store)
  ultimately show ?case using Cons by simp
qed simp

text \<open>The parser with the section opened if it was missing, and the merged parser.\<close>

definition open_section :: "string \<Rightarrow> ini \<Rightarrow> ini" where
  "open_section name t = (if has_section t name then t else t\<lparr>sections := sections t @ [(name, [])]\<rparr>)"

definition merged :: "ini \<Rightarrow> string \<Rightarrow> ini \<Rightarrow> ini" where
  "merged c name t = fold (\<lambda>k. set_raw name k (seen c name k)) (ini_options c name) (open_section name t)"

lemma dict_get_snoc: "dict_get (d @ [(k, v)]) k' = (case dict_get d k' of Some x \<Rightarrow> Some x | None \<Rightarrow> if k' = k then Some v else None)"
  by (simp add: map_add_def split: option.splits)

lemma open_section_facts:
  assumes "\<not> is_default name"
  shows "proper_section (open_section name t) name"
    and "section_dict (open_section name t) x = section_dict t x"
    and "visible (open_section name t) x k = visible t x k"
    and "defaults (open_section name t) = defaults t"
proof -
  show "proper_section (open_section name t) name"
    using assms by (simp add: proper_section_def open_section_def has_section_def dict_has_iff)
  show s: "section_dict (open_section name t) x = section_dict t x" for x
    by (auto simp: open_section_def section_dict_def dict_get_snoc has_section_def dict_has_def
        simp del: map_of_append split: option.splits)
  show "defaults (open_section name t) = defaults t"
    by (simp add: open_section_def)
  then show "visible (open_section name t) x k = visible t x k"
    by (simp add: visible_def s split: option.splits)
qed

lemma merge_section_keys:
  assumes "proper_section c name" and "plain_section c name" and "\<forall>k \<in> set (ini_options c name). py_lower k = k"
  shows "merge_section c name t = Inr (merged c name t)"
proof -
  have nd: "\<not> is_default name" "name \<noteq> default_section" "has_section c name"
    using assms(1) by (auto simp: proper_section_def is_default_def)
  have "merge_keys c name (ini_options c name) (open_section name t) = Inr (merged c name t)"
    unfolding merged_def
    using assms open_section_facts(1) [OF nd(1)] by (intro merge_keys_plain) (auto simp: ini_options_visible)
  then show ?thesis
    using nd by (cases "has_section t name")
      (simp_all add: merge_section_def target_keys_def open_section_def ini_add_section_def)
qed

lemma merge_section_plain:
  assumes "proper_section c name" and "plain_section c name" and "wf_ini c"
  shows "merge_section c name t = Inr (merged c name t)"
  by (rule merge_section_keys [OF assms(1,2)])
    (use wf_visible [OF assms(3)] in \<open>fastforce simp: ini_options_visible wf_key_def\<close>)

lemma merged_visible:
  assumes "proper_section c name"
  shows "visible (merged c name t) x k =
    (if x = name then (case visible c name k of Some v \<Rightarrow> Some v | None \<Rightarrow> visible t name k) else visible t x k)"
proof -
  have nd: "\<not> is_default name" using assms by (simp add: proper_section_def)
  note o = open_section_facts [OF nd, of t]
  show ?thesis
    unfolding merged_def ini_store.lookup_copy [OF o(1)] o(3)
    by (auto simp: ini_options_visible seen_def option_or_def split: option.splits)
qed

lemma section_dict_copy:
  "proper_section t name \<Longrightarrow> x \<noteq> name \<Longrightarrow>
     section_dict (fold (\<lambda>k. set_raw name k (f k)) ks t) x = section_dict t x \<and>
     defaults (fold (\<lambda>k. set_raw name k (f k)) ks t) = defaults t \<and>
     dict_keys (sections (fold (\<lambda>k. set_raw name k (f k)) ks t)) = dict_keys (sections t)"
  by (induction ks arbitrary: t)
    (simp_all add: ini_store.present_store section_dict_set_raw section_names_set_raw proper_section_def has_section_set_raw)

lemma merged_other:
  assumes "proper_section c name" and "x \<noteq> name"
  shows "section_dict (merged c name t) x = section_dict t x \<and> defaults (merged c name t) = defaults t"
proof -
  have nd: "\<not> is_default name" using assms by (simp add: proper_section_def)
  note o = open_section_facts [OF nd, of t]
  show ?thesis
    unfolding merged_def using section_dict_copy [OF o(1) assms(2)] o by simp
qed

lemma merged_names:
  assumes "proper_section c name" and "has_section t name"
  shows "dict_keys (sections (merged c name t)) = dict_keys (sections t)"
proof -
  have nd: "\<not> is_default name" using assms by (simp add: proper_section_def)
  have "proper_section t name" using nd assms(2) by (simp add: proper_section_def)
  note copy = section_dict_copy [OF this, of "CHR ''x'' # name"]
  show ?thesis
    unfolding merged_def open_section_def if_P [OF assms(2)] by (rule copy [THEN conjunct2, THEN conjunct2]) simp
qed

lemma wf_merged:
  assumes "proper_section c name" and "wf_ini c" and "wf_ini t"
  shows "wf_ini (merged c name t)"
proof -
  have nd: "\<not> is_default name" using assms by (simp add: proper_section_def)
  have wn: "wf_name name" using assms wf_ini_section by (auto simp: proper_section_def)
  have o: "wf_ini (open_section name t)"
    using assms(3) wn
    by (auto simp: open_section_def wf_ini_def has_section_def dict_has_iff)
  have "\<forall>k \<in> set ks. wf_key k \<and> wf_val (f k) \<Longrightarrow> wf_ini t \<Longrightarrow> proper_section t name \<Longrightarrow>
      wf_ini (fold (\<lambda>k. set_raw name k (f k)) ks t)" for ks f t
    by (induction ks arbitrary: t) (simp_all add: ini_store.present_store proper_wf_set)
  moreover have "\<forall>k \<in> set (ini_options c name). wf_key k \<and> wf_val (seen c name k)"
    using wf_visible [OF assms(2)] by (auto simp: ini_options_visible seen_def option_or_def)
  ultimately show ?thesis
    unfolding merged_def using o open_section_facts(1) [OF nd] by blast
qed

subsection \<open>Write-back\<close>

lemma write_changes_eq:
  assumes "read_conf empty_ini s = (Inr t, s)" and "wf_ini t" and "proper_section (config ld) name"
    and "plain_section (config ld) name" and "wf_ini (config ld)" and "can_write os conf_path"
  obtains s' where "write_changes os ld name s = (Inr (), s')"
    and "files s' = (files s)(conf_path := Some (ini_write (merged (config ld) name t)))"
    and "read_conf empty_ini s' = (Inr (merged (config ld) name t), s')"
proof -
  let ?m = "merged (config ld) name t"
  have m: "merge_section (config ld) name t = Inr ?m"
    using assms by (intro merge_section_plain)
  have w: "wf_ini ?m" using assms by (intro wf_merged)
  obtain s' where s': "write_file os conf_path (ini_write ?m) s = (Inr (), s')"
    and f: "files s' = (files s)(conf_path := Some (ini_write ?m))"
    using assms(6) by (simp add: write_file_ok)
  have "write_changes os ld name s = (Inr (), s')"
    using assms(1) m s' by (simp add: write_changes_def bindP_def)
  moreover have "read_conf empty_ini s' = (Inr ?m, s')"
    using w by (simp add: read_conf_def f ini_read_write)
  ultimately show ?thesis using f that by blast
qed

text \<open>C10: \<open>write_changes\<close> merges one section into the file: afterwards the file reads back
  as a configuration whose section \<open>name\<close> has every option of the loader's section with the
  loader's value (and keeps the options that only the file had), while every other section
  and the defaults are exactly as another process may have left them, and no other file is
  touched.\<close>

theorem write_changes_merges:
  assumes "read_conf empty_ini s = (Inr t, s)" and "wf_ini t" and "proper_section (config ld) name"
    and "plain_section (config ld) name" and "wf_ini (config ld)" and "can_write os conf_path"
  shows "\<exists>s' t'. write_changes os ld name s = (Inr (), s') \<and> read_conf empty_ini s' = (Inr t', s') \<and>
    (\<forall>k. visible t' name k = (case visible (config ld) name k of Some v \<Rightarrow> Some v | None \<Rightarrow> visible t name k)) \<and>
    (\<forall>x. x \<noteq> name \<longrightarrow> section_dict t' x = section_dict t x) \<and> defaults t' = defaults t \<and>
    (\<forall>p. p \<noteq> conf_path \<longrightarrow> files s' p = files s p)"
proof -
  obtain s' where s': "write_changes os ld name s = (Inr (), s')"
    "files s' = (files s)(conf_path := Some (ini_write (merged (config ld) name t)))"
    "read_conf empty_ini s' = (Inr (merged (config ld) name t), s')"
    by (rule write_changes_eq [OF assms])
  have "defaults (merged (config ld) name t) = defaults t"
    using merged_other [OF assms(3), of "CHR ''x'' # name"] by simp
  then show ?thesis
    using merged_visible [OF assms(3), of t name] merged_other [OF assms(3)] s'
    by (intro exI [of _ s'] exI [of _ "merged (config ld) name t"]) simp
qed

definition demo_loader :: loader where
  "demo_loader = \<lparr>config = set_raw ''acc1'' ''user'' ''ann'' demo_ini,
     api_cfg = \<lparr>api_apikey = ''s3cret'', api_port = ''8080'', api_interfaceWgPrivateKey = ''ipriv'',
       api_interfaceWgPublicKey = ''ipub'', api_peerWgPublicKey = ''ppub'', api_peerWgPrivateKey = ''ppriv'',
       api_publicip = ''1.2.3.4'', api_sshKeyPath = ''/root/key''\<rparr>, all_aws = []\<rparr>"

lemma demo_loader_facts:
  "wf_ini (config demo_loader)" "proper_section (config demo_loader) ''acc1''"
  "plain_section (config demo_loader) ''acc1''"
  by code_simp+

theorem write_changes_merges_witness:
  "\<exists>s' t'. write_changes demo_os demo_loader ''acc1'' demo_sys = (Inr (), s') \<and>
    read_conf empty_ini s' = (Inr t', s') \<and> visible t' ''acc1'' ''user'' = Some ''ann'' \<and>
    section_dict t' ''acc2'' = section_dict demo_ini ''acc2''"
proof -
  have "visible (config demo_loader) ''acc1'' ''user'' = Some ''ann''" by code_simp
  then show ?thesis
    using write_changes_merges [OF read_demo wf_demo_ini demo_loader_facts(2,3,1) can_write_demo]
    by fastforce
qed

subsection \<open>When it fails\<close>

lemma merge_keys_Inl:
  "k \<in> set ks \<Longrightarrow> ini_get c name k = Inr v \<Longrightarrow> v \<noteq> [] \<Longrightarrow> bad_percent v \<Longrightarrow>
     \<exists>e. merge_keys c name ks t = Inl e"
proof (induction ks arbitrary: t)
  case (Cons j ks)
  then show ?case
    by (cases "j = k") (auto simp: ini_set_def split: sum.splits)
qed simp

lemma write_changes_Inl:
  "write_changes os ld name s = (Inl e, s') \<Longrightarrow> files s' = files s"
  by (auto simp: write_changes_def bindP_eq_Inl read_conf_def split: option.splits dest: write_file_Inl)

text \<open>C33: a value with an escaped percent sign cannot be written back: if an option of the
  section reads (with its references expanded) as a text with a bare percent sign, as the
  stored \<open>50%%\<close> reads as \<open>50%\<close>, then \<open>write_changes\<close> of that section raises, whatever
  was to be changed, and the file stays as it was.\<close>

theorem write_changes_percent:
  assumes "proper_section (config ld) name" and "visible (config ld) name k \<noteq> None" and "py_lower k = k"
    and "ini_get (config ld) name k = Inr v" and "bad_percent v"
  shows "(\<exists>e. fst (write_changes os ld name s) = Inl e) \<and> files (snd (write_changes os ld name s)) = files s"
proof -
  have v: "v \<noteq> []" using assms(5) by auto
  have k: "k \<in> set (target_keys (config ld) name)"
    using assms(1,2) by (simp add: target_keys_def ini_options_visible proper_section_def is_default_def)
  have "\<exists>e. merge_section (config ld) name t = Inl e" for t
    using merge_keys_Inl [OF k assms(4) v assms(5)]
    by (auto simp: merge_section_def Let_def split: sum.splits)
  moreover obtain r s1 where "read_conf empty_ini s = (r, s1)" by (cases "read_conf empty_ini s")
  moreover obtain e where "merge_section (config ld) name (projr r) = Inl e"
    using \<open>\<And>t. \<exists>e. merge_section (config ld) name t = Inl e\<close> by blast
  ultimately have "\<exists>e s'. write_changes os ld name s = (Inl e, s')"
    by (cases r) (simp_all add: write_changes_def bindP_def)
  then obtain e s' where "write_changes os ld name s = (Inl e, s')" by blast
  with write_changes_Inl [OF this] show ?thesis by simp
qed

definition percent_loader :: loader where
  "percent_loader = demo_loader\<lparr>config := set_raw ''acc1'' ''pass'' ''50%%'' demo_ini\<rparr>"

theorem write_changes_percent_witness:
  "(\<exists>e. fst (write_changes demo_os percent_loader ''acc1'' demo_sys) = Inl e) \<and>
    files (snd (write_changes demo_os percent_loader ''acc1'' demo_sys)) = files demo_sys"
  by (rule write_changes_percent [of _ _ "''pass''" "''50%''"]) code_simp+

subsection \<open>A change is seen by the next loader\<close>

lemma conf_ready_merged:
  assumes "conf_ready t" and "wf_ini t" and "plain_section c name" and "proper_section c name"
    and "has_section t name"
  shows "conf_ready (merged c name t)"
proof -
  have nd: "\<not> is_default name" using assms by (simp add: proper_section_def)
  have one: "conf_ready u \<Longrightarrow> proper_section u name \<Longrightarrow> \<forall>k \<in> set ks. visible c name k \<noteq> None \<Longrightarrow>
      conf_ready (fold (\<lambda>k. set_raw name k (seen c name k)) ks u)" for ks u
  proof (induction ks arbitrary: u)
    case (Cons k ks)
    have "CHR ''%'' \<notin> set (seen c name k)"
      using plain_visible [OF assms(3)] Cons.prems(3) by (auto simp: seen_def option_or_def)
    then have "conf_ready (set_raw name k (seen c name k) u)"
      using Cons.prems by (simp add: conf_ready_set_raw)
    then show ?case using Cons by (simp add: ini_store.present_store)
  qed simp
  have "open_section name t = t" using assms(5) by (simp add: open_section_def)
  then show ?thesis
    unfolding merged_def using assms nd
    by (intro one) (auto simp: proper_section_def ini_options_visible)
qed

lemma set_value_eq:
  "proper_section (config ld) name \<Longrightarrow> CHR ''%'' \<notin> set v \<Longrightarrow>
     set_value name k (Some v) ld s = (Inr (ld\<lparr>config := set_raw name (py_lower k) v (config ld)\<rparr>), s)"
  by (simp add: set_value_def run_ini_def cset_def ini_set_ok proper_section_def bindP_def)

lemma effective_visible: "visible c x k = visible d x k \<Longrightarrow> effective c x k = effective d x k"
  by (simp add: effective_def)

lemma wf_renumber:
  "wf_ini c \<Longrightarrow> \<forall>x \<in> set xs. proper_section c x \<Longrightarrow> wf_ini (renumber n xs c)"
  by (induction xs arbitrary: n c) (auto simp: wf_step_profile)

lemma proper_renumber:
  "\<forall>x \<in> set xs. proper_section c x \<Longrightarrow> proper_section (renumber n xs c) y \<longleftrightarrow> proper_section c y"
  by (induction xs arbitrary: n c) auto

text \<open>Several options set one after the other, and what they amount to.\<close>

definition put_all :: "string \<Rightarrow> (string \<times> string) list \<Rightarrow> ini \<Rightarrow> ini" where
  "put_all name kvs c = fold (\<lambda>(k, v). set_raw name (py_lower k) v) kvs c"

fun last_set :: "(string \<times> string) list \<Rightarrow> string \<Rightarrow> string option" where
  "last_set [] j = None"
| "last_set ((k, v) # kvs) j =
     (case last_set kvs j of Some w \<Rightarrow> Some w | None \<Rightarrow> if j = py_lower k then Some v else None)"

definition settable :: "string \<times> string \<Rightarrow> bool" where
  "settable kv \<longleftrightarrow> wf_key (py_lower (fst kv)) \<and> py_lower (fst kv) \<noteq> ''order'' \<and> wf_val (snd kv) \<and> CHR ''%'' \<notin> set (snd kv)"

lemma put_all_simps [simp]:
  "put_all name [] c = c" "put_all name ((k, v) # kvs) c = put_all name kvs (set_raw name (py_lower k) v c)"
  by (simp_all add: put_all_def)

lemma put_all_facts:
  "list_all settable kvs \<Longrightarrow> conf_ready c \<Longrightarrow> wf_ini c \<Longrightarrow> proper_section c name \<Longrightarrow>
     conf_ready (put_all name kvs c) \<and> wf_ini (put_all name kvs c) \<and> proper_section (put_all name kvs c) name"
proof (induction kvs arbitrary: c)
  case (Cons kv kvs)
  then show ?case
    by (cases kv) (simp add: settable_def conf_ready_set_raw proper_wf_set ini_store.present_store)
qed simp

lemma visible_put_all:
  "proper_section c name \<Longrightarrow> visible (put_all name kvs c) x j =
     (case (if x = name then last_set kvs j else None) of Some v \<Rightarrow> Some v | None \<Rightarrow> visible c x j)"
proof (induction kvs arbitrary: c)
  case (Cons kv kvs)
  then show ?case
    by (cases kv) (auto simp: ini_store.present_store ini_store.lookup_store split: option.splits)
qed simp

lemma set_values_eq:
  "proper_section (config ld) name \<Longrightarrow> list_all settable kvs \<Longrightarrow>
     foldP (\<lambda>(k, v) ld. set_value name k (Some v) ld) kvs ld s = (Inr (ld\<lparr>config := put_all name kvs (config ld)\<rparr>), s)"
proof (induction kvs arbitrary: ld)
  case (Cons kv kvs)
  obtain k v where kv: "kv = (k, v)" by (cases kv)
  have "proper_section (set_raw name (py_lower k) v (config ld)) name"
    using Cons.prems by (simp add: ini_store.present_store)
  then show ?case using Cons by (simp add: kv set_value_eq settable_def)
qed simp

text \<open>Settings changed in the loader of \<open>c\<close> and merged into a file \<open>d\<close>, which may say something else
  where the section that is written has its say.\<close>

lemma effective_rewritten:
  assumes "conf_ready c" and "name \<in> set (profiles c)"
    and "\<forall>x \<in> set (profiles c). \<forall>k. k \<noteq> ''order'' \<longrightarrow>
      effective d x k = effective c x k \<or> x = name \<and> effective c x k \<noteq> None"
    and "j \<noteq> ''order''" and "x \<in> set (profiles c)"
  shows "effective (merged (put_all name kvs (renumber n (dict_keys (sections c)) c)) name d) x j =
    (case (if x = name then last_set kvs j else None) of Some v \<Rightarrow> Some v | None \<Rightarrow> effective c x j)"
proof -
  let ?ns = "dict_keys (sections c)"
  have p: "\<forall>y \<in> set ?ns. proper_section c y" and ds: "distinct ?ns"
    using conf_ready_profiles [OF assms(1)] assms(1) by (auto simp: conf_ready_def names_ok_def)
  have nm: "name \<in> set ?ns" "name \<noteq> ''api''" using assms(2) by (simp_all add: profiles_def)
  have pr: "proper_section (renumber n ?ns c) name"
    unfolding proper_renumber [OF p] using p nm(1) by (rule bspec)
  have ps: "proper_section (put_all name kvs (renumber n ?ns c)) name"
    using pr by (induction kvs arbitrary: c rule: rev_induct) (auto simp: put_all_def ini_store.present_store)
  show ?thesis
  proof (cases "x = name")
    case True
    define m where "m = merged (put_all name kvs (renumber n ?ns c)) name d"
    have m: "visible m name j = (case last_set kvs j of Some v \<Rightarrow> Some v | None \<Rightarrow>
        case effective c name j of Some w \<Rightarrow> Some w | None \<Rightarrow> visible d name j)"
      unfolding m_def merged_visible [OF ps] visible_put_all [OF pr]
        visible_renumber [OF nm assms(4) ds p] by (simp split: option.splits)
    have "effective m name j = (case last_set kvs j of Some v \<Rightarrow> Some v | None \<Rightarrow> effective c name j)"
    proof (cases "last_set kvs j \<noteq> None \<or> effective c name j \<noteq> None")
      case True
      with m show ?thesis by (auto simp: effective_def [of m] split: option.splits)
    next
      case False
      with m have "visible m name j = visible d name j" by simp
      from effective_visible [OF this] show ?thesis
        using False assms(3) [THEN bspec, OF assms(2), THEN spec [of _ j]] assms(4) by simp
    qed
    then show ?thesis unfolding True m_def by simp
  next
    case False
    then have "visible (merged (put_all name kvs (renumber n ?ns c)) name d) x j = visible d x j"
      by (simp add: merged_visible [OF ps])
    from effective_visible [OF this] show ?thesis using False assms(3-5) by auto
  qed
qed

text \<open>Loading a profile from a loaded parser: it is there, complete and numbered.\<close>

lemma loaded_profile:
  assumes "conf_ready c" and "i < length (profiles c)" and "cfg = renumber 1 (dict_keys (sections c)) c"
    and "x = profiles c ! i"
  shows "proper_section cfg x" and "load_aws_config x cfg = (Inr (profile_of cfg x), cfg)"
    and "ac_order (profile_of cfg x) = str_nat (Suc i)" and "conf_ready cfg"
proof -
  let ?ns = "dict_keys (sections c)"
  have p: "\<forall>y \<in> set ?ns. proper_section c y" and ds: "distinct ?ns"
    using conf_ready_profiles [OF assms(1)] assms(1) by (auto simp: conf_ready_def names_ok_def)
  have xp: "x \<in> set (profiles c)" using assms(2,4) by simp
  then have x: "x \<in> set ?ns" "x \<noteq> ''api''" unfolding profiles_def by auto
  show px: "proper_section cfg x" unfolding assms(3) proper_renumber [OF p] using p x(1) by (rule bspec)
  show cr: "conf_ready cfg" unfolding assms(3) by (rule conf_ready_renumber [OF assms(1) p])
  have ord: "visible cfg x ''order'' = Some (str_nat (Suc i))"
    using order_renumber_nth [OF _ ds p, of i 1] assms(2-4) by (simp add: profiles_def)
  have "has_keys c x [''accesskey'', ''secretkey'']"
    using assms(1) xp by (simp add: conf_ready_def list_all_iff)
  then have keys: "visible cfg x k \<noteq> None" if "k \<in> {''accesskey'', ''secretkey''}" for k
    using that visible_renumber [OF x _ ds p] unfolding assms(3)
    by (auto simp: has_keys_def effective_def)
  have def: "add_defaults x cfg = cfg"
    using visible_renumber [OF x _ ds p] unfolding assms(3)
    by (intro add_defaults_none) (auto simp: effective_def aws_defaults_def split: option.splits)
  have "load_aws_config x cfg = (Inr (profile_of cfg x), add_defaults x cfg)"
    using keys ord cr by (intro load_aws_config_ok px) (simp_all add: has_keys_def conf_ready_def plain_ini_section)
  with def show "load_aws_config x cfg = (Inr (profile_of cfg x), cfg)" by simp
  show "ac_order (profile_of cfg x) = str_nat (Suc i)" by (simp add: profile_of_def option_or_def ord)
qed

text \<open>
  Settings written through a loader of the file \<open>c\<close>, when the file has meanwhile become one that
  differs from \<open>c\<close> in numbers, defaults and options of the written section only.
\<close>

lemma settings_rewritten:
  assumes "conf_ready c" and "wf_ini c" and "can_write os conf_path" and "name \<in> set (profiles c)"
    and "list_all settable kvs" and "config ld = renumber 1 (dict_keys (sections c)) c"
    and "read_conf empty_ini s = (Inr d, s)" and "conf_ready d" and "wf_ini d"
    and "dict_keys (sections d) = dict_keys (sections c)"
    and "\<forall>x \<in> set (profiles c). \<forall>k. k \<noteq> ''order'' \<longrightarrow>
      effective d x k = effective c x k \<or> x = name \<and> effective c x k \<noteq> None"
  obtains s2 t where
    "foldP (\<lambda>(k, v) ld. set_value name k (Some v) ld) kvs ld s = (Inr (ld\<lparr>config := put_all name kvs (config ld)\<rparr>), s)"
    and "write_changes os (ld\<lparr>config := put_all name kvs (config ld)\<rparr>) name s = (Inr (), s2)"
    and "read_conf empty_ini s2 = (Inr t, s2)" and "conf_ready t" and "wf_ini t"
    and "dict_keys (sections t) = dict_keys (sections c)"
    and "\<forall>x \<in> set (profiles c). \<forall>j. j \<noteq> ''order'' \<longrightarrow> effective t x j =
      (case (if x = name then last_set kvs j else None) of Some v \<Rightarrow> Some v | None \<Rightarrow> effective c x j)"
    and "\<forall>p. p \<noteq> conf_path \<longrightarrow> files s2 p = files s p"
proof -
  let ?ns = "dict_keys (sections c)"
  have ready: "\<forall>y \<in> set ?ns. proper_section c y"
    using conf_ready_profiles [OF assms(1)] by blast
  have nm: "name \<in> set ?ns" "name \<noteq> ''api''" using assms(4) unfolding profiles_def by auto
  have pl: "proper_section (config ld) name"
    unfolding assms(6) proper_renumber [OF ready] using ready nm(1) by (rule bspec)
  have r: "conf_ready (config ld)" "wf_ini (config ld)"
    unfolding assms(6) using conf_ready_renumber [OF assms(1) ready] wf_renumber [OF assms(2) ready] by auto
  let ?ld = "ld\<lparr>config := put_all name kvs (config ld)\<rparr>"
  have rl: "conf_ready (config ?ld)" "wf_ini (config ?ld)" "proper_section (config ?ld) name"
    using put_all_facts [OF assms(5) r pl] by simp_all
  have plain: "plain_section (config ?ld) name" using rl(1) by (simp add: conf_ready_def plain_ini_section)
  let ?t = "merged (config ?ld) name d"
  obtain s2 where 2: "write_changes os ?ld name s = (Inr (), s2)"
    "files s2 = (files s)(conf_path := Some (ini_write ?t))" "read_conf empty_ini s2 = (Inr ?t, s2)"
    by (rule write_changes_eq [OF assms(7,9) rl(3) plain rl(2) assms(3)])
  have hs: "has_section d name" using nm(1) assms(10) by (simp add: has_section_def dict_has_iff del: list.set_map)
  have t: "conf_ready ?t" "dict_keys (sections ?t) = ?ns"
    using conf_ready_merged [OF assms(8,9) plain rl(3) hs] merged_names [OF rl(3) hs] assms(10) by simp_all
  have wt: "wf_ini ?t" by (rule wf_merged [OF rl(3,2) assms(9)])
  have ef: "\<forall>x \<in> set (profiles c). \<forall>j. j \<noteq> ''order'' \<longrightarrow> effective ?t x j =
      (case (if x = name then last_set kvs j else None) of Some v \<Rightarrow> Some v | None \<Rightarrow> effective c x j)"
    using effective_rewritten [OF assms(1,4,11)] by (simp add: assms(6))
  show ?thesis
    using 2(2) by (intro that [OF set_values_eq [OF pl assms(5)] 2(1,3) t(1) wt t(2) ef]) simp
qed

lemma settings_written:
  assumes "conf_ready c" and "wf_ini c" and "can_write os conf_path" and "name \<in> set (profiles c)"
    and "list_all settable kvs" and "config ld = renumber 1 (dict_keys (sections c)) c"
    and "read_conf empty_ini s = (Inr d, s)" and "conf_ready d" and "wf_ini d"
    and "dict_keys (sections d) = dict_keys (sections c)" and "\<forall>x k. k \<noteq> ''order'' \<longrightarrow> effective d x k = effective c x k"
  obtains s2 t where
    "foldP (\<lambda>(k, v) ld. set_value name k (Some v) ld) kvs ld s = (Inr (ld\<lparr>config := put_all name kvs (config ld)\<rparr>), s)"
    and "write_changes os (ld\<lparr>config := put_all name kvs (config ld)\<rparr>) name s = (Inr (), s2)"
    and "read_conf empty_ini s2 = (Inr t, s2)" and "conf_ready t" and "wf_ini t"
    and "dict_keys (sections t) = dict_keys (sections c)"
    and "\<forall>x \<in> set (profiles c). \<forall>j. j \<noteq> ''order'' \<longrightarrow> effective t x j =
      (case (if x = name then last_set kvs j else None) of Some v \<Rightarrow> Some v | None \<Rightarrow> effective c x j)"
    and "\<forall>p. p \<noteq> conf_path \<longrightarrow> files s2 p = files s p"
proof -
  have "\<forall>x \<in> set (profiles c). \<forall>k. k \<noteq> ''order'' \<longrightarrow>
      effective d x k = effective c x k \<or> x = name \<and> effective c x k \<noteq> None"
    using assms(11) by simp
  from settings_rewritten [OF assms(1-10) this] that show ?thesis by blast
qed

lemma changed_file:
  assumes "read_conf empty_ini s = (Inr c, s)" and "conf_ready c" and "wf_ini c" and "can_write os conf_path"
    and "name \<in> set (profiles c)" and "wf_key (py_lower k)" and "py_lower k \<noteq> ''order''"
    and "wf_val v" and "CHR ''%'' \<notin> set v"
  obtains ld s1 ld' s2 t where "ConfigLoader os s = (Inr ld, s1)" and "config ld = renumber 1 (dict_keys (sections c)) c"
    and "ld' = ld\<lparr>config := set_raw name (py_lower k) v (config ld)\<rparr>"
    and "set_value name k (Some v) ld s1 = (Inr ld', s1)" and "write_changes os ld' name s1 = (Inr (), s2)"
    and "read_conf empty_ini s2 = (Inr t, s2)" and "conf_ready t" and "wf_ini t"
    and "dict_keys (sections t) = dict_keys (sections c)"
    and "\<forall>x \<in> set (profiles c). \<forall>j. j \<noteq> ''order'' \<longrightarrow>
      effective t x j = (if x = name \<and> j = py_lower k then Some v else effective c x j)"
    and "\<forall>p. p \<noteq> conf_path \<longrightarrow> files s2 p = files s p"
proof -
  let ?ns = "dict_keys (sections c)" and ?k = "py_lower k"
  obtain ld s1 d where 1: "ConfigLoader os s = (Inr ld, s1)" "config ld = renumber 1 ?ns c"
    "read_conf empty_ini s1 = (Inr d, s1)" "conf_ready d" "wf_ini d" "dict_keys (sections d) = ?ns"
    "\<forall>x k. k \<noteq> ''order'' \<longrightarrow> effective d x k = effective c x k"
    "\<forall>p. p \<noteq> conf_path \<longrightarrow> files s1 p = files s p"
    by (rule ConfigLoader_file [OF assms(1-4)])
  have kv: "list_all settable [(k, v)]" using assms(6-9) by (simp add: settable_def)
  obtain s2 t where 2: "foldP (\<lambda>(k, v) ld. set_value name k (Some v) ld) [(k, v)] ld s1 =
      (Inr (ld\<lparr>config := put_all name [(k, v)] (config ld)\<rparr>), s1)"
    "write_changes os (ld\<lparr>config := put_all name [(k, v)] (config ld)\<rparr>) name s1 = (Inr (), s2)"
    "read_conf empty_ini s2 = (Inr t, s2)" "conf_ready t" "wf_ini t" "dict_keys (sections t) = ?ns"
    "\<forall>x \<in> set (profiles c). \<forall>j. j \<noteq> ''order'' \<longrightarrow> effective t x j =
      (case (if x = name then last_set [(k, v)] j else None) of Some v \<Rightarrow> Some v | None \<Rightarrow> effective c x j)"
    "\<forall>p. p \<noteq> conf_path \<longrightarrow> files s2 p = files s1 p"
    by (rule settings_written [OF assms(2,3,4,5) kv 1(2-7)])
  let ?ld = "ld\<lparr>config := set_raw name ?k v (config ld)\<rparr>"
  have sv: "set_value name k (Some v) ld s1 = (Inr ?ld, s1)"
    using 2(1) by (auto simp: bindP_eq_Inr)
  have wc: "write_changes os ?ld name s1 = (Inr (), s2)" using 2(2) by simp
  have ef: "\<forall>x \<in> set (profiles c). \<forall>j. j \<noteq> ''order'' \<longrightarrow>
      effective t x j = (if x = name \<and> j = ?k then Some v else effective c x j)"
    using 2(7) by simp
  show ?thesis using 1(8) 2(8) by (intro that [OF 1(1,2) refl sv wc 2(3-6) ef]) simp
qed

text \<open>C11: a changed setting survives: starting from a loadable file, construct the loader,
  set an option of a profile (any but \<open>order\<close>) to a text without percent signs that fits on
  one line, write the section back and construct the loader again: the new loader reads the
  new value, and every other option of every profile is as in the first loader.\<close>

theorem setting_persists:
  assumes "read_conf empty_ini s = (Inr c, s)" and "conf_ready c" and "wf_ini c" and "can_write os conf_path"
    and "name \<in> set (profiles c)" and "wf_key (py_lower k)" and "py_lower k \<noteq> ''order''"
    and "wf_val v" and "CHR ''%'' \<notin> set v"
  shows "\<exists>ld s1 ld' s2 ld2 s3.
    ConfigLoader os s = (Inr ld, s1) \<and> set_value name k (Some v) ld s1 = (Inr ld', s1) \<and>
    write_changes os ld' name s1 = (Inr (), s2) \<and> ConfigLoader os s2 = (Inr ld2, s3) \<and>
    ini_get (config ld2) name k = Inr v \<and>
    (\<forall>x \<in> set (profiles c). \<forall>j. (x, j) \<noteq> (name, py_lower k) \<longrightarrow>
       visible (config ld2) x j = visible (config ld) x j)"
proof -
  let ?ns = "dict_keys (sections c)" and ?k = "py_lower k"
  obtain ld s1 ld' s2 t where 1: "ConfigLoader os s = (Inr ld, s1)" "config ld = renumber 1 ?ns c"
    and 2: "set_value name k (Some v) ld s1 = (Inr ld', s1)" "write_changes os ld' name s1 = (Inr (), s2)"
    and t: "read_conf empty_ini s2 = (Inr t, s2)" "conf_ready t" "dict_keys (sections t) = ?ns"
      "\<forall>x \<in> set (profiles c). \<forall>j. j \<noteq> ''order'' \<longrightarrow>
        effective t x j = (if x = name \<and> j = ?k then Some v else effective c x j)"
    by (rule changed_file [OF assms])
  obtain ld2 s3 where 3: "ConfigLoader os s2 = (Inr ld2, s3)" "config ld2 = renumber 1 ?ns t"
    using ConfigLoader_ok [OF t(1,2) assms(4)] t(3) by auto
  have ready: "\<forall>y \<in> set ?ns. proper_section c y" and ds: "distinct ?ns"
    using conf_ready_profiles [OF assms(2)] assms(2) by (auto simp: conf_ready_def names_ok_def)
  have pt: "\<forall>y \<in> set ?ns. proper_section t y" using conf_ready_profiles [OF t(2)] unfolding t(3) by blast
  have vis: "visible (config ld2) x j = (if x = name \<and> j = ?k then Some v else visible (config ld) x j)"
    if x: "x \<in> set (profiles c)" for x j
  proof -
    have x': "x \<in> set ?ns" "x \<noteq> ''api''" using x unfolding profiles_def by auto
    show ?thesis
    proof (cases "j = ''order''")
      case True
      then show ?thesis using order_renumber [OF x' ds pt ready] assms(7) 3(2) 1(2) by auto
    next
      case False
      then show ?thesis
        using visible_renumber [OF x' False ds pt] visible_renumber [OF x' False ds ready] t(4) x by (simp add: 3 1)
    qed
  qed
  have "name \<in> set ?ns" using assms(5) unfolding profiles_def by auto
  then have "has_section (config ld2) name"
    using proper_renumber [OF pt, of 1 name] pt by (auto simp: 3 proper_section_def)
  then have "ini_get (config ld2) name k = Inr v"
    using vis [OF assms(5), of ?k] assms(9) by (simp add: ini_get_visible)
  then show ?thesis
    using 1(1) 2 3(1) vis
    by (intro exI [of _ ld] exI [of _ s1] exI [of _ ld'] exI [of _ s2] exI [of _ ld2] exI [of _ s3]) auto
qed

theorem setting_persists_witness:
  "\<exists>ld s1 ld' s2 ld2 s3.
    ConfigLoader demo_os demo_sys = (Inr ld, s1) \<and> set_value ''acc2'' ''pass'' (Some ''n3w'') ld s1 = (Inr ld', s1) \<and>
    write_changes demo_os ld' ''acc2'' s1 = (Inr (), s2) \<and> ConfigLoader demo_os s2 = (Inr ld2, s3) \<and>
    ini_get (config ld2) ''acc2'' ''pass'' = Inr ''n3w''"
proof -
  have "''acc2'' \<in> set (profiles demo_ini)" "wf_key (py_lower ''pass'')" "py_lower ''pass'' \<noteq> ''order''"
    "wf_val ''n3w''" "CHR ''%'' \<notin> set ''n3w''"
    by code_simp+
  note p = setting_persists [OF read_demo conf_ready_demo wf_demo_ini can_write_demo this]
  show ?thesis by (rule ex_forward [OF p]; (elim conjE exE, intro exI conjI, assumption+))
qed

subsection \<open>Numbering from an old copy\<close>

text \<open>the constructor's numbering does not merge: it writes the parser as it was read,
  whatever the file holds by then. If \<open>c\<close> was read, and other processes have changed the
  file in the meantime (any state \<open>s\<close>), then after the numbering the file reads as \<open>c\<close> again
  for every option but the numbers, up to the code's defaults; what the others had written
  into the file is gone. The lock of \<open>write_changes\<close> is not taken here.\<close>

theorem numbering_overwrites:
  assumes "read_conf empty_ini s0 = (Inr c, s0)" and "wf_ini c" and "profiles c \<noteq> []"
    and "load_all_aws_config os c s = (Inr r, s')"
  shows "\<exists>d. read_conf empty_ini s' = (Inr d, s') \<and> dict_keys (sections d) = dict_keys (sections c) \<and>
    (\<forall>x k. k \<noteq> ''order'' \<longrightarrow> effective d x k = effective c x k)"
proof -
  let ?ns = "dict_keys (sections c)"
  have p: "\<forall>x \<in> set ?ns. proper_section c x" by (rule proper_of_names [OF read_conf_names [OF assms(1)]])
  obtain d where d: "last_saved 1 ?ns c = Some d"
    using assms(3) last_saved_None [of 1 ?ns c] by (cases "last_saved 1 ?ns c") (auto simp: profiles_def filter_empty_conv)
  obtain as c' where r: "r = (as, c')" by (cases r)
  have "files s' = (files s)(conf_path := Some (ini_write d))"
    using loop_Inr [OF assms(4) [unfolded load_all_aws_config_def r] p] d by simp
  moreover have "wf_ini d" "dict_keys (sections d) = ?ns"
    using last_saved_frame [OF d p] assms(2) by auto
  ultimately show ?thesis
    using effective_last_saved [OF d p] by (intro exI [of _ d]) (simp add: read_conf_def ini_read_write)
qed

text \<open>In the instance below the other process had set the user of \<open>acc1\<close> in between.\<close>

theorem numbering_overwrites_witness:
  "\<exists>s1 r s2 d. write_changes demo_os demo_loader ''acc1'' demo_sys = (Inr (), s1) \<and>
    load_all_aws_config demo_os demo_ini s1 = (Inr r, s2) \<and>
    read_conf empty_ini s2 = (Inr d, s2) \<and> effective d ''acc1'' ''user'' = Some []"
proof -
  obtain s1 where 1: "write_changes demo_os demo_loader ''acc1'' demo_sys = (Inr (), s1)"
    by (rule write_changes_eq [OF read_demo wf_demo_ini demo_loader_facts(2,3,1) can_write_demo])
  have "distinct (dict_keys (sections demo_ini))" by code_simp
  then obtain r s2 where 2: "load_all_aws_config demo_os demo_ini s1 = (Inr r, s2)"
    using loop_ok [OF conf_ready_profiles [OF conf_ready_demo] _ can_write_demo, of 1 s1]
    unfolding load_all_aws_config_def by blast
  have "profiles demo_ini \<noteq> []" "effective demo_ini ''acc1'' ''user'' = Some []" by code_simp+
  then show ?thesis
    using numbering_overwrites [OF read_demo wf_demo_ini _ 2] 1 2 by fastforce
qed

subsection \<open>Profiles that are not there\<close>

text \<open>asking for a profile that has no section raises \<open>NoSectionError\<close>; the loader never
  answers \<open>None\<close>, which the callers of \<open>load_aws_config\<close> test for.\<close>

theorem load_aws_missing:
  assumes "\<not> has_section (config ld) name" and "name \<noteq> default_section"
  shows "load_aws name ld s = (Inl (NoSectionError name), s)"
proof (cases "is_default name")
  case False
  with assms load_aws_config_missing [of "config ld" name] show ?thesis
    by (simp add: load_aws_def run_ini_def)
next
  case True
  with assms(2) have name: "name = []" by (simp add: is_default_def)
  have keep: "\<exists>c'. for_each kvs (\<lambda>(k, v). ensure_option [] k v) c = (Inr (), c') \<and> \<not> has_section c' []"
    if "\<forall>(k, v) \<in> set kvs. CHR ''%'' \<notin> set v" "\<not> has_section c []" for kvs c
    using that
  proof (induction kvs arbitrary: c)
    case (Cons kv kvs)
    obtain k v where kv: "kv = (k, v)" by (cases kv)
    have "\<exists>c1. ensure_option [] k v c = (Inr (), c1) \<and> \<not> has_section c1 []"
      using Cons.prems kv
      by (simp add: ensure_option_def cset_def ini_set_def is_default_def set_raw_def has_section_def)
    then obtain c1 where "ensure_option [] k v c = (Inr (), c1)" "\<not> has_section c1 []" by blast
    with Cons kv show ?case by (simp add: thenP_def bindP_def)
  qed simp
  have "\<forall>(k, v) \<in> set aws_defaults. CHR ''%'' \<notin> set v" by (auto simp: aws_defaults_def)
  from keep [OF this] obtain c' where
    "for_each aws_defaults (\<lambda>(k, v). ensure_option [] k v) (config ld) = (Inr (), c')" "\<not> has_section c' []"
    using assms(1) name by blast
  then show ?thesis
    using assms(2) by (simp add: load_aws_def run_ini_def load_aws_config_def name ini_get_no_section)
qed

theorem load_aws_missing_witness:
  "load_aws ''nope'' demo_loader () = (Inl (NoSectionError ''nope''), ())"
  by (rule load_aws_missing) code_simp+

subsection \<open>Which file the loader touches\<close>

lemma keeps_run_ini [keeps_intros]: "keeps I (run_ini m c)"
  by (simp add: keeps_def run_ini_def split: prod.splits sum.splits)

lemma keeps_read_conf [keeps_intros]: "keeps I (read_conf c)"
  by (simp add: keeps_def read_conf_def split: option.splits)

lemma keeps_load_aws [keeps_intros]: "keeps I (load_aws name ld)"
  unfolding load_aws_def by (intro keeps_intros)

lemma keeps_set_value [keeps_intros]: "keeps I (set_value s k v ld)"
  unfolding set_value_def by (intro keeps_intros)

lemma frame_load_all: "p \<noteq> conf_path \<Longrightarrow> keeps (frame p x) (load_all_loop os n names c)"
  by (induction names arbitrary: n c)
    (auto simp: reset_aws_config_order_def reorder_aws_config_def intro!: keeps_intros)

lemma frame_ConfigLoader [keeps_intros]: "p \<noteq> conf_path \<Longrightarrow> keeps (frame p x) (ConfigLoader os)"
  unfolding ConfigLoader_def load_into_def load_all_aws_config_def
  by (intro keeps_intros frame_load_all)

lemma frame_write_changes [keeps_intros]: "p \<noteq> conf_path \<Longrightarrow> keeps (frame p x) (write_changes os ld name)"
  unfolding write_changes_def by (intro keeps_intros)

end
