(* ===== verification/Cloud.thy ===== *)
theory Cloud
  imports LoaderWrite "HOL-Library.Word"
begin

section \<open>The cloud account of a profile\<close>

text \<open>
  The class \<open>Aws\<close> of \<open>functions/aws.py\<close>: logging in, finding and creating the security
  group, the key pair and the instance, terminating instances, and the change of the
  public address through an elastic address. The service itself (the package \<open>boto3\<close>) is
  the parameter record \<open>cloud_api\<close>, one field per call, with the credentials the client
  was made with; dictionaries that the service returns are records here, a key that may
  be missing being an option.
\<close>

subsection \<open>What the service answers\<close>

record creds =
  cr_region :: string
  cr_access :: string
  cr_secret :: string

record ec2_instance =
  in_id :: string
  in_state :: string
  in_tags :: "(string \<times> string) list option"
  in_public_ip :: "string option"

record ec2_address =
  ad_allocation :: string
  ad_association :: "string option"
  ad_tags :: "(string \<times> string) list option"

record ip_permission =
  pm_protocol :: string
  pm_ranges :: "(string \<times> string option) list"

record sec_group =
  sg_id :: string
  sg_name :: string
  sg_permissions :: "ip_permission list"

record instance_type =
  it_name :: "string option"
  it_cores :: "int option"

record type_page =
  tp_types :: "instance_type list"
  tp_next :: "string option"

type_synonym bytes = "8 word list"

record 'w cloud_api =
  c_client :: "creds \<Rightarrow> 'w \<Rightarrow> (exn + unit) \<times> 'w"
  c_resource :: "creds \<Rightarrow> 'w \<Rightarrow> (exn + bool) \<times> 'w"
  c_regions :: "creds \<Rightarrow> string option \<Rightarrow> 'w \<Rightarrow> (exn + (string \<times> string option) list) \<times> 'w"
  c_instances :: "creds \<Rightarrow> string option \<Rightarrow> 'w \<Rightarrow> (exn + ec2_instance list list option) \<times> 'w"
  c_terminate :: "creds \<Rightarrow> string \<Rightarrow> 'w \<Rightarrow> (exn + unit) \<times> 'w"
  c_addresses :: "creds \<Rightarrow> 'w \<Rightarrow> (exn + ec2_address list) \<times> 'w"
  c_disassociate :: "creds \<Rightarrow> string \<Rightarrow> 'w \<Rightarrow> (exn + unit) \<times> 'w"
  c_release :: "creds \<Rightarrow> string \<Rightarrow> 'w \<Rightarrow> (exn + unit) \<times> 'w"
  c_allocate :: "creds \<Rightarrow> string \<Rightarrow> 'w \<Rightarrow> (exn + string) \<times> 'w"
  c_associate :: "creds \<Rightarrow> string \<Rightarrow> string \<Rightarrow> 'w \<Rightarrow> (exn + unit) \<times> 'w"
  c_associate_ip :: "creds \<Rightarrow> string \<Rightarrow> string \<Rightarrow> 'w \<Rightarrow> (exn + unit) \<times> 'w"
  c_key_pairs :: "creds \<Rightarrow> 'w \<Rightarrow> (exn + (string \<times> string) list) \<times> 'w"
  c_import_key :: "creds \<Rightarrow> string \<Rightarrow> string \<Rightarrow> 'w \<Rightarrow> (exn + string) \<times> 'w"
  c_role_groups :: "creds \<Rightarrow> 'w \<Rightarrow> (exn + sec_group list) \<times> 'w"
  c_group :: "creds \<Rightarrow> string \<Rightarrow> 'w \<Rightarrow> (exn + sec_group list) \<times> 'w"
  c_create_group :: "creds \<Rightarrow> 'w \<Rightarrow> (exn + sec_group) \<times> 'w"
  c_authorize :: "creds \<Rightarrow> string \<Rightarrow> 'w \<Rightarrow> (exn + unit) \<times> 'w"
  c_types :: "creds \<Rightarrow> string option \<Rightarrow> 'w \<Rightarrow> (exn + type_page) \<times> 'w"
  c_images :: "creds \<Rightarrow> 'w \<Rightarrow> (exn + string option list) \<times> 'w"
  c_create :: "creds \<Rightarrow> string option \<Rightarrow> string option \<Rightarrow> string \<Rightarrow> 'w \<Rightarrow> (exn + string list) \<times> 'w"
  c_wait_running :: "creds \<Rightarrow> string \<Rightarrow> 'w \<Rightarrow> (exn + unit) \<times> 'w"
  c_read_key :: "string \<Rightarrow> 'w \<Rightarrow> (exn + string) \<times> 'w"
  c_key_digest :: "string \<Rightarrow> 'w \<Rightarrow> (exn + bytes) \<times> 'w"

subsection \<open>The object\<close>

text \<open>Attributes that a method sets are options: reading one before it is set raises.\<close>

record aws =
  aw_loader :: loader
  aw_name :: string
  aw_config :: aws_config
  aw_ec2 :: "creds option"
  aw_resource :: "creds option"
  aw_key_pair :: "string option"
  aw_group :: "sec_group option"

definition mk_aws :: "'w os_api \<Rightarrow> string \<Rightarrow> ('w sys, aws) prog" where
  "mk_aws os name =
     bindP (ConfigLoader os) (\<lambda>ld.
     bindP (load_aws name ld) (\<lambda>(a, ld1).
     ret \<lparr>aw_loader = ld1, aw_name = name, aw_config = a, aw_ec2 = None, aw_resource = None,
          aw_key_pair = None, aw_group = None\<rparr>))"

definition creds_of :: "aws_config \<Rightarrow> creds" where
  "creds_of a = \<lparr>cr_region = ac_region a, cr_access = ac_accessKey a, cr_secret = ac_secretKey a\<rparr>"

definition attr :: "string \<Rightarrow> 'a option \<Rightarrow> ('s, 'a) prog" where
  "attr name x = (case x of None \<Rightarrow> raise (AttributeError name) | Some v \<Rightarrow> ret v)"

definition index_list :: "nat \<Rightarrow> 'a list \<Rightarrow> ('s, 'a) prog" where
  "index_list n xs = (if n < length xs then ret (xs ! n) else raise IndexError)"

definition key_of :: "string \<Rightarrow> 'a option \<Rightarrow> ('s, 'a) prog" where
  "key_of k x = (case x of None \<Rightarrow> raise (KeyError k) | Some v \<Rightarrow> ret v)"

definition connect_ec2 :: "'w cloud_api \<Rightarrow> aws \<Rightarrow> ('w sys, aws) prog" where
  "connect_ec2 api aw =
     thenP (tryP (ext_op (c_client api (creds_of (aw_config aw))))
             (\<lambda>e. raise (Wrapped ''Error connecting to AWS: '' e)))
       (ret (aw\<lparr>aw_ec2 := Some (creds_of (aw_config aw))\<rparr>))"

definition login :: "'w cloud_api \<Rightarrow> aws \<Rightarrow> ('w sys, aws) prog" where
  "login api aw =
     bindP (connect_ec2 api aw) (\<lambda>aw1.
     let cr = creds_of (aw_config aw) in
     bindP (ext_op (c_regions api cr (Some (ac_region (aw_config aw))))) (\<lambda>regions.
     bindP (index_list 0 regions) (\<lambda>(_, status).
     if status = Some ''not-opted-in'' then raise (PlainException ''Error connecting to AWS: not-opted-in'')
     else
       bindP (ext_op (c_resource api cr)) (\<lambda>usable.
       if usable then ret (aw1\<lparr>aw_resource := Some cr\<rparr>)
       else raise (PlainException ''Error connecting to AWS'')))))"

subsection \<open>Instances\<close>

text \<open>
  \<open>hasattr(d, name)\<close> of a dictionary: whether dictionaries have a method of that name. Keys
  of the dictionary are no attributes.
\<close>

definition dict_attributes :: "string list" where
  "dict_attributes = [''clear'', ''copy'', ''fromkeys'', ''get'', ''items'', ''keys'', ''pop'', ''popitem'',
     ''setdefault'', ''update'', ''values'']"

definition dict_hasattr :: "'d \<Rightarrow> string \<Rightarrow> bool" where
  "dict_hasattr d name \<longleftrightarrow> name \<in> set dict_attributes"

definition reusable :: "ec2_instance \<Rightarrow> string \<times> string \<Rightarrow> bool" where
  "reusable i tag \<longleftrightarrow> tag = (''role'', ''iprotate'') \<and>
     in_state i \<notin> {''terminated'', ''shutting-down'', ''terminating''}"

text \<open>The first loop of \<open>launch_instance\<close>: the instance to use again, if any.\<close>

fun find_reusable :: "ec2_instance list list \<Rightarrow> ('s, ec2_instance option) prog" where
  "find_reusable [] = ret None"
| "find_reusable (r # rs) =
     bindP (index_list 0 r) (\<lambda>i.
     if dict_hasattr i ''Tags''
     then bindP (key_of ''Tags'' (in_tags i)) (\<lambda>tags.
       if list_ex (reusable i) tags then ret (Some i) else find_reusable rs)
     else find_reusable rs)"

definition store_instance :: "'w os_api \<Rightarrow> string \<Rightarrow> aws \<Rightarrow> ('w sys, aws) prog" where
  "store_instance os i aw =
     bindP (set_value (aw_name aw) ''instanceId'' (Some i) (aw_loader aw)) (\<lambda>ld.
     thenP (write_changes os ld (aw_name aw)) (ret (aw\<lparr>aw_loader := ld\<rparr>)))"

definition reload_aws_config :: "aws \<Rightarrow> ('w sys, aws) prog" where
  "reload_aws_config aw =
     bindP (load_aws (aw_name aw) (aw_loader aw)) (\<lambda>(a, ld). ret (aw\<lparr>aw_loader := ld, aw_config := a\<rparr>))"

subsection \<open>The security group\<close>

definition pick_group :: "'w cloud_api \<Rightarrow> creds \<Rightarrow> sec_group \<Rightarrow> sec_group option \<Rightarrow> ('w sys, sec_group option) prog" where
  "pick_group api cr g found =
     (if sg_name g = ''iprotate'' then ret (Some g)
      else bindP (ext_op (c_create_group api cr)) (\<lambda>g'. ret (Some g')))"

text \<open>Does the group let all traffic in? The first range of a rule for all protocols is looked at.\<close>

fun has_allow_all :: "ip_permission list \<Rightarrow> ('s, bool) prog" where
  "has_allow_all [] = ret False"
| "has_allow_all (p # ps) =
     (if pm_protocol p \<noteq> ''-1'' then has_allow_all ps
      else bindP (index_list 0 (pm_ranges p)) (\<lambda>(cidr, descr).
        if cidr \<noteq> ''0.0.0.0/0'' then has_allow_all ps
        else bindP (key_of ''Description'' descr) (\<lambda>d.
          if d = ''Allow all traffic'' then ret True else has_allow_all ps)))"

definition create_security_group :: "'w cloud_api \<Rightarrow> aws \<Rightarrow> ('w sys, aws) prog" where
  "create_security_group api aw =
     bindP (attr ''ec2'' (aw_ec2 aw)) (\<lambda>cr.
     bindP (ext_op (c_role_groups api cr)) (\<lambda>groups.
     bindP (foldP (pick_group api cr) groups (aw_group aw)) (\<lambda>found.
     bindP (case found of Some g \<Rightarrow> ret g | None \<Rightarrow> ext_op (c_create_group api cr)) (\<lambda>g.
     bindP (ext_op (c_group api cr (sg_id g))) (\<lambda>described.
     bindP (index_list 0 described) (\<lambda>d.
     bindP (has_allow_all (sg_permissions d)) (\<lambda>open.
     thenP (if open then ret () else ext_op (c_authorize api cr (sg_id g)))
       (ret (aw\<lparr>aw_group := Some g\<rparr>)))))))))"

subsection \<open>The instance type\<close>

text \<open>
  The rest of the list of types: as long as a page names a next one that is not empty.
  The first argument bounds the number of further pages.
\<close>

fun more_types :: "nat \<Rightarrow> 'w cloud_api \<Rightarrow> creds \<Rightarrow> type_page \<Rightarrow> ('w sys, instance_type list) prog" where
  "more_types n api cr page =
     (case tp_next page of
        None \<Rightarrow> ret []
      | Some token \<Rightarrow>
          if token = [] then ret []
          else case n of
                 0 \<Rightarrow> raise OutOfFuel
               | Suc m \<Rightarrow>
                   bindP (ext_op (c_types api cr (Some token))) (\<lambda>page'.
                   bindP (more_types m api cr page') (\<lambda>ts. ret (tp_types page' @ ts))))"

declare more_types.simps [simp del]

fun first_one_core :: "instance_type list \<Rightarrow> ('s, instance_type option) prog" where
  "first_one_core [] = ret None"
| "first_one_core (t # ts) =
     bindP (key_of ''DefaultCores'' (it_cores t)) (\<lambda>n. if n = 1 then ret (Some t) else first_one_core ts)"

definition get_instance_type_free_tier ::
    "nat \<Rightarrow> 'w cloud_api \<Rightarrow> aws \<Rightarrow> ('w sys, instance_type option) prog" where
  "get_instance_type_free_tier n api aw =
     bindP (attr ''ec2'' (aw_ec2 aw)) (\<lambda>cr.
     bindP (ext_op (c_types api cr None)) (\<lambda>page.
     bindP (more_types n api cr page) (\<lambda>ts. first_one_core (tp_types page @ ts))))"

subsection \<open>The key pair\<close>

definition hex_byte :: "8 word \<Rightarrow> string" where
  "hex_byte b = (let d = (\<lambda>n. if n < 10 then char_of (48 + n) else char_of (87 + n :: nat))
     in [d (unat b div 16), d (unat b mod 16)])"

definition hexlify :: "bytes \<Rightarrow> string" where
  "hexlify bs = concat (map hex_byte bs)"

text \<open>\<open>[h[i:i+2] for i in range(0, len(h), 2)]\<close>.\<close>

fun pairs :: "string \<Rightarrow> string list" where
  "pairs [] = []"
| "pairs [c] = [[c]]"
| "pairs (c # d # s) = [c, d] # pairs s"

definition format_fingerprint :: "bytes \<Rightarrow> string" where
  "format_fingerprint bs = join '':'' (pairs (hexlify bs))"

fun find_key :: "string \<Rightarrow> (string \<times> string) list \<Rightarrow> string option" where
  "find_key f [] = None"
| "find_key f ((fingerprint, name) # ks) = (if fingerprint = f then Some name else find_key f ks)"

definition set_keypair :: "'w os_api \<Rightarrow> 'w cloud_api \<Rightarrow> aws \<Rightarrow> ('w sys, aws) prog" where
  "set_keypair os api aw =
     bindP (tryP (ext_op (c_read_key api (api_sshKeyPath (api_cfg (aw_loader aw)))))
             (\<lambda>e. raise (Wrapped ''Error reading keypair file: '' e))) (\<lambda>public.
     bindP (ext_op (c_key_digest api public)) (\<lambda>digest.
     bindP (attr ''ec2'' (aw_ec2 aw)) (\<lambda>cr.
     bindP (ext_op (c_key_pairs api cr)) (\<lambda>ks.
     case find_key (format_fingerprint digest) ks of
       Some name \<Rightarrow> ret (aw\<lparr>aw_key_pair := Some name\<rparr>)
     | None \<Rightarrow>
         bindP (tryP (bindP (now os) (\<lambda>date.
                 ext_op (c_import_key api cr (''iprotate-'' @ date) (''ssh-rsa '' @ public))))
                 (\<lambda>e. raise (Wrapped ''Error importing keypair: '' e))) (\<lambda>name.
         ret (aw\<lparr>aw_key_pair := Some name\<rparr>))))))"

subsection \<open>Launching and terminating\<close>

definition describe_images :: "'w cloud_api \<Rightarrow> aws \<Rightarrow> ('w sys, string option list \<times> aws) prog" where
  "describe_images api aw =
     bindP (connect_ec2 api aw) (\<lambda>aw1.
     bindP (ext_op (c_images api (creds_of (aw_config aw)))) (\<lambda>images. ret (images, aw1)))"

definition launch_new :: "nat \<Rightarrow> 'w os_api \<Rightarrow> 'w cloud_api \<Rightarrow> aws \<Rightarrow> ('w sys, aws) prog" where
  "launch_new n os api aw =
     bindP (create_security_group api aw) (\<lambda>aw1.
     bindP (get_instance_type_free_tier n api aw1) (\<lambda>found.
     bindP (attr ''get'' found) (\<lambda>ty.
     bindP (connect_ec2 api aw1) (\<lambda>aw2.
     bindP (set_keypair os api aw2) (\<lambda>aw3.
     bindP (attr ''resource'' (aw_resource aw3)) (\<lambda>rs.
     bindP (describe_images api aw3) (\<lambda>(images, aw4).
     bindP (index_list 0 images) (\<lambda>image.
     bindP (attr ''key_pair_name'' (aw_key_pair aw4)) (\<lambda>key.
     bindP (ext_op (c_create api rs image (it_name ty) key)) (\<lambda>created.
     bindP (index_list 0 created) (\<lambda>i.
     bindP (attr ''ec2'' (aw_ec2 aw4)) (\<lambda>cr.
     thenP (ext_op (c_wait_running api cr i)) (
     bindP (store_instance os i aw4) (\<lambda>aw5.
     bindP (reload_aws_config aw5) (\<lambda>aw6.
     bindP (store_instance os i (aw6\<lparr>aw_config := (aw_config aw6)\<lparr>ac_instanceId := i\<rparr>\<rparr>)) (\<lambda>aw7.
     thenP (ext_op (c_instances api cr (Some i))) (ret aw7)))))))))))))))))"

definition launch_instance :: "nat \<Rightarrow> 'w os_api \<Rightarrow> 'w cloud_api \<Rightarrow> aws \<Rightarrow> ('w sys, aws) prog" where
  "launch_instance n os api aw =
     bindP (attr ''ec2'' (aw_ec2 aw)) (\<lambda>cr.
     bindP (ext_op (c_instances api cr None)) (\<lambda>reservations.
     case reservations of
       None \<Rightarrow> raise (TypeError ''NoneType is not iterable'')
     | Some rs \<Rightarrow>
         bindP (find_reusable rs) (\<lambda>reuse.
         case reuse of
           Some i \<Rightarrow> bindP (store_instance os (in_id i) aw) reload_aws_config
         | None \<Rightarrow> launch_new n os api aw)))"

definition terminate_instance :: "'w os_api \<Rightarrow> 'w cloud_api \<Rightarrow> aws \<Rightarrow> ('w sys, aws) prog" where
  "terminate_instance os api aw =
     bindP (attr ''ec2'' (aw_ec2 aw)) (\<lambda>cr.
     bindP (ext_op (c_instances api cr None)) (\<lambda>reservations.
     case reservations of
       None \<Rightarrow> ret aw
     | Some rs \<Rightarrow>
         thenP (for_each rs (\<lambda>r. bindP (index_list 0 r) (\<lambda>i. ext_op (c_terminate api cr (in_id i)))))
           (store_instance os [] aw)))"

subsection \<open>Addresses\<close>

definition get_instance_info :: "'w cloud_api \<Rightarrow> aws \<Rightarrow> ('w sys, ec2_instance list list option) prog" where
  "get_instance_info api aw =
     bindP (attr ''ec2'' (aw_ec2 aw)) (\<lambda>cr. ext_op (c_instances api cr (Some (ac_instanceId (aw_config aw)))))"

definition get_instance_address :: "'w cloud_api \<Rightarrow> aws \<Rightarrow> ('w sys, string) prog" where
  "get_instance_address api aw =
     tryP (bindP (get_instance_info api aw) (\<lambda>reservations.
       case reservations of
         None \<Rightarrow> raise (TypeError ''NoneType is not subscriptable'')
       | Some rs \<Rightarrow>
           bindP (index_list 0 rs) (\<lambda>r.
           bindP (index_list 0 r) (\<lambda>i. key_of ''PublicIpAddress'' (in_public_ip i)))))
       (\<lambda>e. raise (Wrapped ''Error getting instance address: '' e))"

definition get_all_regions :: "'w cloud_api \<Rightarrow> aws \<Rightarrow> ('w sys, (string \<times> string option) list) prog" where
  "get_all_regions api aw =
     (let a = aw_config aw;
          cr = (creds_of a)\<lparr>cr_region := (if ac_region a = [] then ''us-east-1'' else ac_region a)\<rparr>
      in thenP (ext_op (c_client api cr)) (ext_op (c_regions api cr None)))"

definition associate_ip :: "'w cloud_api \<Rightarrow> string \<Rightarrow> aws \<Rightarrow> ('w sys, unit) prog" where
  "associate_ip api ip aw =
     (let cr = creds_of (aw_config aw)
      in thenP (ext_op (c_client api cr)) (ext_op (c_associate_ip api cr (ac_instanceId (aw_config aw)) ip)))"

text \<open>\<open>address["AssociationId"]\<close> is read inside the \<open>try\<close>.\<close>

definition drop_address :: "'w cloud_api \<Rightarrow> creds \<Rightarrow> ec2_address \<Rightarrow> ('w sys, unit) prog" where
  "drop_address api cr ad =
     thenP (attempt (bindP (key_of ''AssociationId'' (ad_association ad)) (\<lambda>x. ext_op (c_disassociate api cr x))))
       (attempt (ext_op (c_release api cr (ad_allocation ad))))"

definition disassociate_and_release_ip :: "'w cloud_api \<Rightarrow> aws \<Rightarrow> ('w sys, unit) prog" where
  "disassociate_and_release_ip api aw =
     bindP (attr ''ec2'' (aw_ec2 aw)) (\<lambda>cr.
     bindP (ext_op (c_addresses api cr)) (\<lambda>addresses.
     for_each addresses (\<lambda>ad.
       case ad_tags ad of
         None \<Rightarrow> ret ()
       | Some tags \<Rightarrow>
           for_each tags (\<lambda>tag.
             if tag = (''instance'', ac_instanceId (aw_config aw)) then drop_address api cr ad else ret ()))))"

definition allocate_and_associate_ip :: "'w cloud_api \<Rightarrow> aws \<Rightarrow> ('w sys, unit) prog" where
  "allocate_and_associate_ip api aw =
     bindP (attr ''ec2'' (aw_ec2 aw)) (\<lambda>cr.
     bindP (ext_op (c_allocate api cr (ac_instanceId (aw_config aw)))) (\<lambda>allocation.
     thenP (ext_op (c_associate api cr (ac_instanceId (aw_config aw)) allocation))
       (disassociate_and_release_ip api aw)))"

definition get_new_ip ::
    "nat \<Rightarrow> 'w os_api \<Rightarrow> 'w cloud_api \<Rightarrow> aws \<Rightarrow> ('w sys, (string option \<times> string) \<times> aws) prog" where
  "get_new_ip n os api aw =
     tryP
       (if ac_instanceId (aw_config aw) \<noteq> []
        then
          bindP (get_instance_address api aw) (\<lambda>old_ip.
          thenP (disassociate_and_release_ip api aw) (
          thenP (allocate_and_associate_ip api aw) (
          bindP (get_instance_address api aw) (\<lambda>new_ip. ret ((Some old_ip, new_ip), aw)))))
        else
          bindP (terminate_instance os api aw) (\<lambda>aw1.
          bindP (launch_instance n os api aw1) (\<lambda>aw2.
          bindP (get_instance_address api aw2) (\<lambda>new_ip. ret ((None, new_ip), aw2)))))
       (\<lambda>e. raise (Wrapped ''Error getting new IP: '' e))"

end
