(* ===== verification/IpNet.thy ===== *)
theory IpNet
  imports PyText
begin

section \<open>Network texts\<close>

text \<open>
  Which texts the standard library's \<open>ipaddress.ip_network(s, strict=False)\<close> accepts: an
  IPv4 or IPv6 address, perhaps followed by a prefix length (for IPv4 also a net mask or
  host mask), and for IPv6 a scope after a percent sign. The firewall of
  \<open>functions/connection.py\<close> lets these texts, and no others, into its shell commands.
\<close>

subsection \<open>IPv4\<close>

definition all_digits :: "string \<Rightarrow> bool" where
  "all_digits s \<longleftrightarrow> s \<noteq> [] \<and> list_all is_digit s"

definition octet_ok :: "string \<Rightarrow> bool" where
  "octet_ok s \<longleftrightarrow> all_digits s \<and> length s \<le> 3 \<and> (s = ''0'' \<or> hd s \<noteq> CHR ''0'') \<and> digits_val s \<le> 255"

definition ip4_value :: "string \<Rightarrow> int option" where
  "ip4_value s = (let ps = split_on CHR ''.'' s in
     if length ps = 4 \<and> list_all octet_ok ps
     then Some (foldl (\<lambda>n p. 256 * n + int (digits_val p)) 0 ps) else None)"

definition ip4_ok :: "string \<Rightarrow> bool" where
  "ip4_ok s \<longleftrightarrow> ip4_value s \<noteq> None"

definition prefix_len_ok :: "nat \<Rightarrow> string \<Rightarrow> bool" where
  "prefix_len_ok m s \<longleftrightarrow> all_digits s \<and> digits_val s \<le> m"

text \<open>Ones, then zeroes: \<open>_prefix_from_ip_int\<close>; or the complement of that.\<close>

definition net_mask :: "int \<Rightarrow> bool" where
  "net_mask n \<longleftrightarrow> list_ex (\<lambda>k. n = 2 ^ 32 - 2 ^ k) [0..<33]"

definition mask_ok :: "string \<Rightarrow> bool" where
  "mask_ok s \<longleftrightarrow> prefix_len_ok 32 s \<or>
     (case ip4_value s of None \<Rightarrow> False | Some n \<Rightarrow> net_mask n \<or> net_mask (2 ^ 32 - 1 - n))"

definition ip4_network_ok :: "string \<Rightarrow> bool" where
  "ip4_network_ok s \<longleftrightarrow>
     (case split_on CHR ''/'' s of
        [a] \<Rightarrow> ip4_ok a
      | [a, m] \<Rightarrow> ip4_ok a \<and> mask_ok m
      | _ \<Rightarrow> False)"

subsection \<open>IPv6\<close>

definition is_hex :: "char \<Rightarrow> bool" where
  "is_hex c \<longleftrightarrow> is_digit c \<or> 97 \<le> ord_of c \<and> ord_of c \<le> 102 \<or> 65 \<le> ord_of c \<and> ord_of c \<le> 70"

definition hextet_ok :: "string \<Rightarrow> bool" where
  "hextet_ok s \<longleftrightarrow> s \<noteq> [] \<and> list_all is_hex s \<and> length s \<le> 4"

text \<open>The parts after an IPv4 suffix has become two groups of four hexadecimal digits.\<close>

definition ip6_parts :: "string \<Rightarrow> string list option" where
  "ip6_parts s = (let ps = split_on CHR '':'' s in
     if length ps < 3 then None
     else if CHR ''.'' \<in> set (last ps)
     then (if ip4_ok (last ps) then Some (butlast ps @ [''0'', ''0'']) else None)
     else Some ps)"

text \<open>The positions, ends apart, of the empty parts.\<close>

definition inner_gaps :: "string list \<Rightarrow> nat list" where
  "inner_gaps ps = filter (\<lambda>i. ps ! i = []) [1..<length ps - 1]"

definition ip6_groups_ok :: "string list \<Rightarrow> bool" where
  "ip6_groups_ok ps \<longleftrightarrow> length ps \<le> 9 \<and>
     (case inner_gaps ps of
        [] \<Rightarrow> length ps = 8 \<and> list_all hextet_ok ps
      | [i] \<Rightarrow>
          (let hi = (if hd ps = [] then i - 1 else i);
               lo = (if last ps = [] then length ps - i - 2 else length ps - i - 1)
           in (hd ps = [] \<longrightarrow> hi = 0) \<and> (last ps = [] \<longrightarrow> lo = 0) \<and> hi + lo < 8 \<and>
              list_all hextet_ok (take hi ps) \<and> list_all hextet_ok (drop (length ps - lo) ps))
      | _ \<Rightarrow> False)"

text \<open>\<open>addr.partition("%")\<close>: a scope may be any text without a second percent sign.\<close>

definition ip6_ok :: "string \<Rightarrow> bool" where
  "ip6_ok s \<longleftrightarrow>
     (case split_on CHR ''%'' s of
        [a] \<Rightarrow> (case ip6_parts a of None \<Rightarrow> False | Some ps \<Rightarrow> ip6_groups_ok ps)
      | [a, scope] \<Rightarrow> scope \<noteq> [] \<and> (case ip6_parts a of None \<Rightarrow> False | Some ps \<Rightarrow> ip6_groups_ok ps)
      | _ \<Rightarrow> False)"

definition ip6_network_ok :: "string \<Rightarrow> bool" where
  "ip6_network_ok s \<longleftrightarrow>
     (case split_on CHR ''/'' s of
        [a] \<Rightarrow> ip6_ok a
      | [a, m] \<Rightarrow> ip6_ok a \<and> prefix_len_ok 128 m
      | _ \<Rightarrow> False)"

definition ip_network :: "string \<Rightarrow> bool" where
  "ip_network s \<longleftrightarrow> ip4_network_ok s \<or> ip6_network_ok s"

subsection \<open>The characters of accepted texts\<close>

definition net_char :: "char \<Rightarrow> bool" where
  "net_char c \<longleftrightarrow> is_hex c \<or> c \<in> {CHR ''.'', CHR '':'', CHR ''/''}"

lemma list_all_join: "list_all P (join [c] ps) \<longleftrightarrow> list_all (list_all P) ps \<and> (length ps \<ge> 2 \<longrightarrow> P c)"
  by (induction "[c]" ps rule: join.induct) (auto simp: Suc_le_eq)

lemma list_all_split:
  "list_all (list_all P) (split_on c s) \<Longrightarrow> P c \<Longrightarrow> list_all P s"
  using list_all_join [of P c "split_on c s"] by (simp add: join_split_on)

lemma net_char_digit: "is_digit c \<Longrightarrow> net_char c"
  by (simp add: net_char_def is_hex_def)

lemma net_char_digits: "list_all is_digit s \<Longrightarrow> list_all net_char s"
  by (auto simp: list_all_iff net_char_digit)

lemma net_char_dot [simp]: "net_char CHR ''.''" "net_char CHR ''/''" "net_char CHR '':''"
  by (simp_all add: net_char_def)

lemma ip4_ok_chars: "ip4_ok s \<Longrightarrow> list_all net_char s"
  by (intro list_all_split [of net_char "CHR ''.''"])
    (auto simp: ip4_ok_def ip4_value_def Let_def octet_ok_def all_digits_def list_all_iff
      net_char_digit split: if_splits)

lemma prefix_len_chars: "prefix_len_ok m s \<Longrightarrow> list_all net_char s"
  by (simp add: prefix_len_ok_def all_digits_def net_char_digits)

lemma mask_ok_chars: "mask_ok s \<Longrightarrow> list_all net_char s"
  using ip4_ok_chars [of s] prefix_len_chars [of 32 s] by (auto simp: mask_ok_def ip4_ok_def split: option.splits)

lemma split_two:
  "split_on c s = [a, m] \<Longrightarrow> s = a @ c # m"
  using join_split_on [of c s] by simp

lemma split_one: "split_on c s = [a] \<Longrightarrow> s = a"
  using join_split_on [of c s] by simp

lemma ip4_network_chars: "ip4_network_ok s \<Longrightarrow> list_all net_char s"
  by (auto simp: ip4_network_ok_def ip4_ok_chars mask_ok_chars dest!: split_one split_two split: list.splits)

lemma hextet_chars: "hextet_ok s \<Longrightarrow> list_all net_char s"
  by (auto simp: hextet_ok_def net_char_def list_all_iff)

lemma inner_gaps_set:
  "0 < i \<Longrightarrow> i < length ps - 1 \<Longrightarrow> ps ! i = [] \<Longrightarrow> i \<in> set (inner_gaps ps)"
  by (simp add: inner_gaps_def)

text \<open>Every part of a well-formed list of groups is empty or one of hexadecimal digits.\<close>

lemma ip6_groups_chars:
  assumes "ip6_groups_ok ps"
  shows "list_all (list_all net_char) ps"
proof (cases "inner_gaps ps")
  case Nil
  then show ?thesis
    using assms by (auto simp: ip6_groups_ok_def list_all_iff dest!: bspec [where P = hextet_ok] hextet_chars)
next
  case (Cons i rest)
  then have rest: "rest = []"
    using assms by (auto simp: ip6_groups_ok_def split: list.splits)
  define hi lo where "hi = (if hd ps = [] then i - 1 else i)"
    and "lo = (if last ps = [] then length ps - i - 2 else length ps - i - 1)"
  have i: "0 < i" "i < length ps - 1" "ps ! i = []"
    using Cons filter_set [of "\<lambda>i. ps ! i = []" "[1..<length ps - 1]"]
    by (auto simp: inner_gaps_def dest!: filter_eq_ConsD)
  have ok: "hd ps = [] \<longrightarrow> hi = 0" "last ps = [] \<longrightarrow> lo = 0"
    "list_all hextet_ok (take hi ps)" "list_all hextet_ok (drop (length ps - lo) ps)"
    using assms Cons rest by (auto simp: ip6_groups_ok_def Let_def hi_def lo_def)
  have "list_all net_char (ps ! j)" if j: "j < length ps" for j
  proof -
    consider "j < hi" | "j \<ge> length ps - lo" | "hi \<le> j" "j < length ps - lo" by linarith
    then show ?thesis
    proof cases
      case 1
      then have "ps ! j \<in> set (take hi ps)" using j by (auto simp: in_set_conv_nth intro!: exI [of _ j])
      then show ?thesis using ok(3) by (intro hextet_chars) (simp add: list_all_iff)
    next
      case 2
      then have "ps ! j \<in> set (drop (length ps - lo) ps)"
        using j by (auto simp: in_set_conv_nth intro!: exI [of _ "j - (length ps - lo)"])
      then show ?thesis using ok(4) by (intro hextet_chars) (simp add: list_all_iff)
    next
      case 3
      have ne: "ps \<noteq> []" using j by auto
      have "j = i \<or> j = 0 \<and> hd ps = [] \<or> j = length ps - 1 \<and> last ps = []"
        using 3 i j ok(1,2) by (auto simp: hi_def lo_def split: if_splits)
      then have "ps ! j = []"
        using i ne by (auto simp: hd_conv_nth last_conv_nth)
      then show ?thesis by simp
    qed
  qed
  then show ?thesis by (auto simp: list_all_length)
qed

lemma ip6_parts_chars:
  assumes "ip6_parts s = Some ps" and "ip6_groups_ok ps"
  shows "list_all net_char s"
proof (rule list_all_split [of net_char "CHR '':''"])
  have all: "list_all (list_all net_char) ps" by (rule ip6_groups_chars [OF assms(2)])
  define qs where "qs = split_on CHR '':'' s"
  have "list_all (list_all net_char) qs"
  proof (cases "qs = ps")
    case False
    with assms(1) have "ps = butlast qs @ [''0'', ''0'']" "ip4_ok (last qs)"
      by (auto simp: ip6_parts_def Let_def qs_def split: if_splits)
    then have "list_all (list_all net_char) (butlast qs @ [last qs])"
      using all ip4_ok_chars [of "last qs"] by simp
    then show ?thesis by (simp add: qs_def)
  qed (simp add: all)
  then show "list_all (list_all net_char) (split_on CHR '':'' s)" by (simp add: qs_def)
qed simp

lemma ip6_ok_chars: "ip6_ok s \<Longrightarrow> CHR ''%'' \<notin> set s \<Longrightarrow> list_all net_char s"
  by (auto simp: ip6_ok_def split_on_none split: option.splits intro: ip6_parts_chars)

lemma ip6_network_chars:
  assumes "ip6_network_ok s" and "CHR ''%'' \<notin> set s"
  shows "list_all net_char s"
proof -
  have "\<forall>p \<in> set (split_on CHR ''/'' s). CHR ''%'' \<notin> set p"
    using split_on_set [of _ "CHR ''/''" s] assms(2) by blast
  then show ?thesis
    using assms(1)
    by (auto simp: ip6_network_ok_def ip6_ok_chars prefix_len_chars
        dest!: split_one split_two split: list.splits)
qed

lemma ip_network_chars:
  "ip_network s \<Longrightarrow> CHR ''%'' \<notin> set s \<Longrightarrow> list_all net_char s"
  by (auto simp: ip_network_def ip4_network_chars ip6_network_chars)

end
