(* ===== verification/Firewall.thy ===== *)
theory Firewall
  imports LoaderWrite IpNet
begin

section \<open>The firewall and the proxy probe\<close>

text \<open>
  \<open>functions/connection.py\<close>: the class \<open>Firewall\<close>, which publishes the ports of a profile
  as a ufw application, deletes the rules of that application and installs the whitelist,
  and the class \<open>Socks5\<close>, which asks for the external address through the proxy. The
  package \<open>pyufw\<close> and the network are parameters; log messages are left out.
\<close>

record 'w ufw_api =
  ufw_status :: "'w \<Rightarrow> (exn + (int \<times> string) list option) \<times> 'w"
  ufw_delete :: "int \<Rightarrow> 'w \<Rightarrow> (exn + unit) \<times> 'w"

record firewall =
  fw_config :: loader
  fw_order :: int
  fw_app_name :: string
  fw_wgport :: int
  fw_socks5port :: int
  fw_httpport :: int
  fw_ssport :: int
  fw_whitelist :: "string list option"

definition run_cmd :: "'w os_api \<Rightarrow> string \<Rightarrow> ('w sys, unit) prog" where
  "run_cmd os c = bindP (ext_op (os_system os c)) (\<lambda>_. ret ())"

definition app_name :: "int \<Rightarrow> string" where
  "app_name n = ''iprotate_'' @ str_int n"

text \<open>The parser that the constructor fills with the ufw application profile.\<close>

definition app_profile :: "int \<Rightarrow> (ini, unit) prog" where
  "app_profile n =
     thenP (\<lambda>c. case ini_add_section c (app_name n) of Inl e \<Rightarrow> (Inl e, c) | Inr c' \<Rightarrow> (Inr (), c')) (
     thenP (cset (app_name n) ''title'' (Some (app_name n))) (
     thenP (cset (app_name n) ''description'' (Some (''ufw application config for '' @ app_name n)))
       (cset (app_name n) ''ports''
         (Some (str_int (socks5PortBase + n) @ '','' @ str_int (httpPortBase + n) @ ''/tcp|'' @
                str_int (socks5PortBase + n) @ ''/udp'')))))"

definition app_path :: "int \<Rightarrow> string" where
  "app_path n = ''/etc/ufw/applications.d/'' @ app_name n"

text \<open>The second command has no \<open>f\<close> prefix in the code: its braces reach the shell.\<close>

definition app_update_cmds :: "string list" where
  "app_update_cmds =
     [''ufw app list > /dev/null 2>&1'', ''ufw app update iprotate_{self.order} > /dev/null 2>&1'']"

definition split_whitelist :: "string \<Rightarrow> string list option" where
  "split_whitelist w = (if w = [] then None else Some (split_on CHR '','' w))"

definition mk_firewall :: "'w os_api \<Rightarrow> string \<Rightarrow> ('w sys, firewall) prog" where
  "mk_firewall os name =
     bindP (ConfigLoader os) (\<lambda>ld.
     bindP (run_ini load_api_config (config ld)) (\<lambda>(_, c1).
     bindP (run_ini (load_aws_config name) c1) (\<lambda>(a, c2).
     bindP (of_sum (py_int (ac_order a))) (\<lambda>n.
     bindP (run_ini (app_profile n) empty_ini) (\<lambda>(_, app).
     thenP (write_file os (app_path n) (ini_write app)) (
     thenP (attempt (for_each app_update_cmds (run_cmd os))) (
     ret \<lparr>fw_config = ld\<lparr>config := c2\<rparr>, fw_order = n, fw_app_name = app_name n,
          fw_wgport = wgPortBase + n, fw_socks5port = socks5PortBase + n,
          fw_httpport = httpPortBase + n, fw_ssport = ssBasePort + n,
          fw_whitelist = split_whitelist (ac_whitelist a)\<rparr>)))))))"

subsection \<open>Deleting the rules of a profile\<close>

definition endswith :: "string \<Rightarrow> string \<Rightarrow> bool" where
  "endswith s p \<longleftrightarrow> startswith (rev s) (rev p)"

text \<open>\<open>re.search(rf" {app_name}$", rule)\<close>: \<open>$\<close> also matches before a final line break.\<close>

definition rule_matches :: "string \<Rightarrow> string \<Rightarrow> bool" where
  "rule_matches app rule \<longleftrightarrow> endswith rule ('' '' @ app) \<or> endswith rule ('' '' @ app @ [LF])"

definition delete_rules :: "'w ufw_api \<Rightarrow> firewall \<Rightarrow> ('w sys, unit) prog" where
  "delete_rules ufw fw =
     bindP (ext_op (ufw_status ufw)) (\<lambda>r.
       case r of
         None \<Rightarrow> raise (AttributeError ''items'')
       | Some rule_list \<Rightarrow>
           for_each (rev rule_list) (\<lambda>(index, rule).
             if rule_matches (fw_app_name fw) rule then ext_op (ufw_delete ufw index) else ret ()))"

subsection \<open>Installing the whitelist\<close>

definition allow_cmd :: "string \<Rightarrow> string \<Rightarrow> string" where
  "allow_cmd app ip = ''ufw allow from '' @ ip @ '' to any app '' @ app @ '' > /dev/null 2>&1''"

definition reject_cmd :: "string \<Rightarrow> string" where
  "reject_cmd app = ''ufw reject from any to any app '' @ app @ '' > /dev/null 2>&1''"

definition apply_whitelist :: "'w os_api \<Rightarrow> firewall \<Rightarrow> ('w sys, unit) prog" where
  "apply_whitelist os fw =
     (case fw_whitelist fw of
        Some ips \<Rightarrow>
          thenP (for_each ips (\<lambda>entry.
            attempt (let ip = py_strip entry
              in if ip_network ip then run_cmd os (allow_cmd (fw_app_name fw) ip) else raise (ValueError ip))))
            (attempt (run_cmd os (reject_cmd (fw_app_name fw))))
      | None \<Rightarrow> attempt (run_cmd os (allow_cmd (fw_app_name fw) ''any'')))"

subsection \<open>The probe through the proxy\<close>

record 'w net_api =
  net_socks_get :: "string \<Rightarrow> int \<Rightarrow> string option \<Rightarrow> string option \<Rightarrow> 'w \<Rightarrow> (exn + string) \<times> 'w"

record socks5 =
  s5_host :: string
  s5_port :: int
  s5_user :: "string option"
  s5_pass :: "string option"

definition or_none :: "string \<Rightarrow> string option" where
  "or_none s = (if s = [] then None else Some s)"

definition mk_socks5 :: "string \<Rightarrow> int \<Rightarrow> string \<Rightarrow> string \<Rightarrow> socks5" where
  "mk_socks5 host port user pass =
     \<lparr>s5_host = host, s5_port = port, s5_user = or_none user, s5_pass = or_none pass\<rparr>"

definition get_external_ip :: "'w net_api \<Rightarrow> socks5 \<Rightarrow> ('w sys, string) prog" where
  "get_external_ip net p =
     tryP (ext_op (net_socks_get net (s5_host p) (s5_port p) (s5_user p) (s5_pass p)))
       (\<lambda>e. raise (Wrapped ''Failed to get external IP, error: '' e))"

end
