(* ===== verification/Remote.thy ===== *)
theory Remote
  imports Firewall
begin

section \<open>The remote host and the local services\<close>

text \<open>
  \<open>functions/ssh_setup.py\<close>: \<open>SSHSetup\<close>, one SSH connection with its retries and the
  commands it runs, and \<open>SetupHost\<close>, which prepares a new instance; and
  \<open>functions/service.py\<close>: \<open>ServiceManager\<close>. A command is started, read and asked for its
  exit status in separate steps, as the code does; the packages \<open>paramiko\<close>,
  \<open>systemd_service\<close> and \<open>dbus\<close> are parameters. Pauses (\<open>time.sleep\<close>) are left out.
\<close>

subsection \<open>One connection\<close>

record ssh =
  ssh_host :: string
  ssh_user :: string
  ssh_key :: string

record 'w ssh_api =
  sh_connect :: "ssh \<Rightarrow> 'w \<Rightarrow> (exn + unit) \<times> 'w"
  sh_transport :: "ssh \<Rightarrow> 'w \<Rightarrow> (exn + bool) \<times> 'w"
  sh_exec :: "ssh \<Rightarrow> string \<Rightarrow> 'w \<Rightarrow> (exn + nat) \<times> 'w"
  sh_read :: "nat \<Rightarrow> 'w \<Rightarrow> (exn + string) \<times> 'w"
  sh_status :: "nat \<Rightarrow> 'w \<Rightarrow> (exn + int) \<times> 'w"
  sh_put :: "ssh \<Rightarrow> string \<Rightarrow> string \<Rightarrow> 'w \<Rightarrow> (exn + unit) \<times> 'w"
  sh_close :: "ssh \<Rightarrow> 'w \<Rightarrow> (exn + unit) \<times> 'w"

definition connect :: "'w ssh_api \<Rightarrow> nat \<Rightarrow> ssh \<Rightarrow> ('w sys, bool) prog" where
  "connect api tries c =
     bindP (attempts tries (ext_op (sh_connect api c))) (\<lambda>left.
       if tries \<noteq> 0 \<and> \<not> left then ret False else ext_op (sh_transport api c))"

text \<open>\<open>stdout.read().decode().strip()\<close> after \<open>exec_command\<close>.\<close>

definition run_read :: "'w ssh_api \<Rightarrow> ssh \<Rightarrow> string \<Rightarrow> ('w sys, string) prog" where
  "run_read api c cmd =
     bindP (ext_op (sh_exec api c cmd)) (\<lambda>h.
     bindP (ext_op (sh_read api h)) (\<lambda>out. ret (py_strip out)))"

definition test_cmd :: "string \<Rightarrow> string" where
  "test_cmd p = ''sudo test -f '' @ p @ '' && echo '' @ [CHR 0x22] @ ''File exists'' @ [CHR 0x22] @
     '' || echo '' @ [CHR 0x22] @ ''File does not exist'' @ [CHR 0x22]"

definition is_file_exists :: "'w ssh_api \<Rightarrow> ssh \<Rightarrow> string \<Rightarrow> ('w sys, bool) prog" where
  "is_file_exists api c p = bindP (run_read api c (test_cmd p)) (\<lambda>out. ret (out = ''File exists''))"

definition dpkg_cmd :: "string \<Rightarrow> string" where
  "dpkg_cmd pkg = ''sudo dpkg -l | grep '' @ pkg"

definition is_package_installed :: "'w ssh_api \<Rightarrow> ssh \<Rightarrow> string \<Rightarrow> ('w sys, bool) prog" where
  "is_package_installed api c pkg = bindP (run_read api c (dpkg_cmd pkg)) (\<lambda>out. ret (out \<noteq> []))"

definition install_cmd :: "string \<Rightarrow> string" where
  "install_cmd pkg = ''sudo apt update -y && sudo apt install '' @ pkg @ '' -y''"

definition install_package :: "'w ssh_api \<Rightarrow> ssh \<Rightarrow> string \<Rightarrow> ('w sys, bool) prog" where
  "install_package api c pkg =
     bindP (is_package_installed api c pkg) (\<lambda>there.
     if there then ret True
     else
       bindP (ext_op (sh_exec api c (install_cmd pkg))) (\<lambda>h.
       thenP (bindP (ext_op (sh_read api h)) (\<lambda>_. ret ())) (
       bindP (ext_op (sh_status api h)) (\<lambda>code. ret (code = 0)))))"

definition remove_cmd :: "string \<Rightarrow> string" where
  "remove_cmd pkg = ''sudo apt remove '' @ pkg @ '' -y && sudo apt autoremove -y && sudo apt purge '' @ pkg @ '' -y''"

text \<open>The check is made before the output of the removal has been read.\<close>

definition remove_package :: "'w ssh_api \<Rightarrow> ssh \<Rightarrow> string \<Rightarrow> ('w sys, bool) prog" where
  "remove_package api c pkg =
     bindP (ext_op (sh_exec api c (remove_cmd pkg))) (\<lambda>h.
     bindP (is_package_installed api c pkg) (\<lambda>there.
     bindP (ext_op (sh_read api h)) (\<lambda>_. ret (\<not> there))))"

definition disable_service :: "'w ssh_api \<Rightarrow> ssh \<Rightarrow> string \<Rightarrow> ('w sys, string) prog" where
  "disable_service api c n = run_read api c (''sudo systemctl stop '' @ n @ '' && sudo systemctl disable '' @ n)"

definition enable_service :: "'w ssh_api \<Rightarrow> ssh \<Rightarrow> string \<Rightarrow> ('w sys, string) prog" where
  "enable_service api c n = run_read api c (''sudo systemctl enable '' @ n @ '' && sudo systemctl start '' @ n)"

definition stop_service :: "'w ssh_api \<Rightarrow> ssh \<Rightarrow> string \<Rightarrow> ('w sys, string) prog" where
  "stop_service api c n = run_read api c (''sudo systemctl stop '' @ n)"

text \<open>\<open>exec_command\<close> returns a triple, which has no \<open>read\<close>.\<close>

definition ufw_allow_all :: "'w ssh_api \<Rightarrow> ssh \<Rightarrow> ('w sys, unit) prog" where
  "ufw_allow_all api c =
     bindP (ext_op (sh_exec api c ''sudo ufw default allow incoming'')) (\<lambda>_. raise (AttributeError ''read''))"

definition forward_cmd :: string where
  "forward_cmd = ''echo '' @ [CHR 0x22] @ ''net.ipv4.ip_forward = 1'' @ [CHR 0x22] @
     '' | sudo tee /etc/sysctl.d/99-sysctl.conf && sudo sysctl -p''"

definition allow_ipv4_forwarding :: "'w ssh_api \<Rightarrow> ssh \<Rightarrow> ('w sys, unit) prog" where
  "allow_ipv4_forwarding api c = bindP (ext_op (sh_exec api c forward_cmd)) (\<lambda>_. ret ())"

definition start_service :: "'w ssh_api \<Rightarrow> ssh \<Rightarrow> string \<Rightarrow> ('w sys, string) prog" where
  "start_service api c n = run_read api c (''sudo systemctl start '' @ n)"

definition restart_service :: "'w ssh_api \<Rightarrow> ssh \<Rightarrow> string \<Rightarrow> ('w sys, string) prog" where
  "restart_service api c n = run_read api c (''sudo systemctl restart '' @ n)"

definition read_remote_file :: "'w ssh_api \<Rightarrow> ssh \<Rightarrow> string \<Rightarrow> ('w sys, string) prog" where
  "read_remote_file api c p = run_read api c (''sudo cat '' @ p)"

definition copy_to_host :: "'w ssh_api \<Rightarrow> ssh \<Rightarrow> string \<Rightarrow> string \<Rightarrow> ('w sys, bool) prog" where
  "copy_to_host api c local remote =
     (let temp = ''/tmp/'' @ last (split_on CHR ''/'' local) in
      thenP (ext_op (sh_put api c local temp)) (
      bindP (run_read api c (''sudo mv '' @ temp @ '' '' @ remote)) (\<lambda>_.
      is_file_exists api c remote)))"

definition execute_script :: "'w ssh_api \<Rightarrow> ssh \<Rightarrow> string \<Rightarrow> ('w sys, string) prog" where
  "execute_script api c p = run_read api c (''sudo bash '' @ p)"

subsection \<open>Preparing a host\<close>

record host =
  h_host :: string
  h_user :: string
  h_key :: string
  h_local :: string
  h_remote :: string
  h_ssh :: "ssh option"

definition change_eth_script_path :: string where
  "change_eth_script_path = ''/opt/cloud-iprotate/change_eth.sh''"

definition host_login :: "'w ssh_api \<Rightarrow> host \<Rightarrow> ('w sys, host) prog" where
  "host_login api h =
     (let c = \<lparr>ssh_host = h_host h, ssh_user = h_user h, ssh_key = h_key h\<rparr>
      in bindP (connect api 10 c) (\<lambda>_. ret (h\<lparr>h_ssh := Some c\<rparr>)))"

text \<open>A connection object counts as true; before \<open>login\<close> there is no attribute \<open>ssh\<close>.\<close>

definition host_setup :: "'w ssh_api \<Rightarrow> host \<Rightarrow> ('w sys, unit) prog" where
  "host_setup api h =
     (case h_ssh h of
        None \<Rightarrow> raise (AttributeError ''ssh'')
      | Some c \<Rightarrow>
          bindP (is_package_installed api c ''unattended-upgrades'') (\<lambda>there.
          thenP (if there then bindP (remove_package api c ''unattended-upgrades'') (\<lambda>_. ret ()) else ret ()) (
          bindP (is_package_installed api c ''wireguard'') (\<lambda>wg.
          thenP (if \<not> wg then bindP (install_package api c ''wireguard'') (\<lambda>_. ret ()) else ret ()) (
          thenP (allow_ipv4_forwarding api c) (
          bindP (copy_to_host api c (h_local h) (h_remote h)) (\<lambda>_.
          bindP (copy_to_host api c change_eth_script_path ''/tmp/change_eth.sh'') (\<lambda>_.
          bindP (execute_script api c ''/tmp/change_eth.sh'') (\<lambda>_.
          bindP (enable_service api c ''wg-quick@wg0'') (\<lambda>_.
          bindP (restart_service api c ''wg-quick@wg0'') (\<lambda>_.
          ext_op (sh_close api c))))))))))))"

definition host_close :: "'w ssh_api \<Rightarrow> host \<Rightarrow> ('w sys, host) prog" where
  "host_close api h =
     (case h_ssh h of
        None \<Rightarrow> raise (AttributeError ''ssh'')
      | Some _ \<Rightarrow>
          (let c = \<lparr>ssh_host = h_host h, ssh_user = h_user h, ssh_key = h_key h\<rparr>
           in thenP (ext_op (sh_close api c)) (ret (h\<lparr>h_ssh := Some c\<rparr>))))"

subsection \<open>Local services\<close>

record 'w svc_api =
  sv_restart :: "string \<Rightarrow> 'w \<Rightarrow> (exn + unit) \<times> 'w"
  sv_stop :: "string \<Rightarrow> 'w \<Rightarrow> (exn + unit) \<times> 'w"
  sv_start :: "string \<Rightarrow> 'w \<Rightarrow> (exn + unit) \<times> 'w"
  sv_units :: "'w \<Rightarrow> (exn + (string \<times> string) list) \<times> 'w"

definition unit_name :: "string \<Rightarrow> string" where
  "unit_name n = ''iprotate@'' @ n"

definition restart_iprotate_service :: "'w svc_api \<Rightarrow> string \<Rightarrow> ('w sys, unit) prog" where
  "restart_iprotate_service api n = ext_op (sv_restart api (unit_name n))"

definition service_stop :: "'w svc_api \<Rightarrow> string \<Rightarrow> ('w sys, unit) prog" where
  "service_stop api n = ext_op (sv_stop api (unit_name n))"

definition service_start :: "'w svc_api \<Rightarrow> string \<Rightarrow> ('w sys, unit) prog" where
  "service_start api n = ext_op (sv_start api (unit_name n))"

text \<open>\<open>os.WEXITSTATUS\<close>: the second byte of the wait status.\<close>

definition wexitstatus :: "int \<Rightarrow> int" where
  "wexitstatus st = (st div 256) mod 256"

definition reload_cmd :: "string \<Rightarrow> string" where
  "reload_cmd n = ''wg syncconf '' @ n @ '' <(wg-quick strip /opt/cloud-iprotate/profile_config/'' @ n @ ''/'' @ n @ ''.conf)''"

definition wg_reload :: "'w os_api \<Rightarrow> string \<Rightarrow> ('w sys, bool) prog" where
  "wg_reload os n = bindP (ext_op (os_system os (reload_cmd n))) (\<lambda>st. ret (wexitstatus st = 0))"

text \<open>\<open>service.split("@")[1].split(".")[0]\<close>.\<close>

definition instance_of_unit :: "string \<Rightarrow> string" where
  "instance_of_unit u = hd (split_on CHR ''.'' (split_on CHR ''@'' u ! 1))"

definition reset_all :: "'w svc_api \<Rightarrow> ('w sys, unit) prog" where
  "reset_all api =
     bindP (ext_op (sv_units api)) (\<lambda>units.
     for_each (map fst (filter (\<lambda>(u, state). state = ''running'') units)) (\<lambda>u.
       if startswith u ''iprotate@'' then service_stop api (instance_of_unit u) else ret ()))"

end
