(* ===== verification/FirewallProps.thy ===== *)
theory FirewallProps
  imports Firewall
begin

section \<open>What the firewall guarantees\<close>

text \<open>
  Which shell commands the whitelist runs and which characters they can contain; that
  deleting the rules of a profile deletes exactly those; the ports a profile gets.
\<close>

subsection \<open>The commands of the whitelist\<close>

text \<open>Running commands for their effect: the results, exceptions included, are dropped.\<close>

definition run_cmds :: "'w os_api \<Rightarrow> string list \<Rightarrow> 'w \<Rightarrow> 'w" where
  "run_cmds os cs w = fold (\<lambda>c w. snd (os_system os c w)) cs w"

definition whitelist_cmds :: "string \<Rightarrow> string list option \<Rightarrow> string list" where
  "whitelist_cmds app wl =
     (case wl of
        None \<Rightarrow> [allow_cmd app ''any'']
      | Some ips \<Rightarrow> map (allow_cmd app) (filter ip_network (map py_strip ips)) @ [reject_cmd app])"

lemma run_cmds_Nil [simp]: "run_cmds os [] w = w"
  by (simp add: run_cmds_def)

lemma run_cmds_Cons [simp]: "run_cmds os (c # cs) w = run_cmds os cs (snd (os_system os c w))"
  by (simp add: run_cmds_def)

lemma run_cmds_append: "run_cmds os (cs @ ds) w = run_cmds os ds (run_cmds os cs w)"
  by (simp add: run_cmds_def)

lemma run_cmd_state: "snd (run_cmd os c s) = s\<lparr>ext := snd (os_system os c (ext s))\<rparr>"
  by (simp add: run_cmd_def bindP_def ext_op_def split: prod.splits sum.splits)

lemma run_cmd_caught: "attempt (run_cmd os c) s = (Inr (), s\<lparr>ext := snd (os_system os c (ext s))\<rparr>)"
  by (simp add: attempt_apply run_cmd_state)

lemma allow_each:
  "for_each ips (\<lambda>entry.
      attempt (let ip = py_strip entry
            in if ip_network ip then run_cmd os (allow_cmd app ip) else raise (ValueError ip))) s =
   (Inr (), s\<lparr>ext := run_cmds os (map (allow_cmd app) (filter ip_network (map py_strip ips))) (ext s)\<rparr>)"
proof (induction ips arbitrary: s)
  case (Cons e es)
  show ?case
  proof (cases "ip_network (py_strip e)")
    case True
    then show ?thesis by (simp add: Cons thenP_Inr [OF run_cmd_caught])
  next
    case False
    then have "attempt (raise (ValueError (py_strip e))) s = (Inr (), s)" by simp
    with False show ?thesis by (simp add: Cons thenP_Inr)
  qed
qed simp

lemma apply_whitelist_run:
  "apply_whitelist os fw s =
     (Inr (), s\<lparr>ext := run_cmds os (whitelist_cmds (fw_app_name fw) (fw_whitelist fw)) (ext s)\<rparr>)"
proof (cases "fw_whitelist fw")
  case None
  then show ?thesis by (simp add: apply_whitelist_def whitelist_cmds_def run_cmd_caught)
next
  case (Some ips)
  then show ?thesis
    by (simp add: apply_whitelist_def whitelist_cmds_def thenP_Inr [OF allow_each] run_cmd_caught run_cmds_append)
qed

text \<open>\<open>apply_whitelist\<close> always returns and runs exactly these commands, in this order: one
  allow rule per entry that \<open>ip_network\<close> accepts after stripping, then the reject rule; or
  the single rule for anywhere when there is no whitelist. A command that raises does not
  keep the later ones, the reject rule above all, from being run.\<close>

theorem apply_whitelist_commands:
  "apply_whitelist os fw s =
     (Inr (), s\<lparr>ext := run_cmds os (whitelist_cmds (fw_app_name fw) (fw_whitelist fw)) (ext s)\<rparr>)"
  by (rule apply_whitelist_run)



text \<open>with a percent sign any text can: whatever follows \<open>fe80::1%\<close> in an entry, as long
  as it has no comma, slash, percent sign or outer white space, is taken as the scope of
  an address and becomes part of the command line that \<open>os.system\<close> gives to the shell.\<close>

theorem whitelist_scope_injection:
  assumes "x \<noteq> []" and "\<not> py_space (last x)" and "set x \<inter> {CHR '','', CHR ''/'', CHR ''%''} = {}"
  shows "allow_cmd app (''fe80::1%'' @ x) \<in> set (whitelist_cmds app (split_whitelist (''fe80::1%'' @ x)))"
proof -
  let ?w = "''fe80::1%'' @ x"
  have s: "stripped ?w" using assms(1,2) by (simp add: stripped_def py_space_def)
  have "split_on CHR '','' ?w = [?w]" using assms(3) by (intro split_on_none) auto
  moreover have "split_on CHR ''/'' ?w = [?w]" using assms(3) by (intro split_on_none) auto
  moreover have "split_on CHR ''%'' (''fe80::1'' @ CHR ''%'' # x) = [''fe80::1'', x]"
    using assms(3) by (subst split_on_append) (auto simp: split_on_none)
  moreover have "(case ip6_parts ''fe80::1'' of None \<Rightarrow> False | Some ps \<Rightarrow> ip6_groups_ok ps)"
    by code_simp
  ultimately have "ip_network ?w"
    using assms(1) by (simp add: ip_network_def ip6_network_ok_def ip6_ok_def)
  then show ?thesis
    using \<open>split_on CHR '','' ?w = [?w]\<close> s
    by (simp add: whitelist_cmds_def split_whitelist_def py_strip_stripped)
qed

theorem whitelist_scope_injection_witness:
  "allow_cmd ''iprotate_1'' ''fe80::1%;reboot;'' \<in>
    set (whitelist_cmds ''iprotate_1'' (split_whitelist ''fe80::1%;reboot;''))"
  using whitelist_scope_injection [of "'';reboot;''" "''iprotate_1''"] by (simp add: py_space_def)

subsection \<open>Deleting rules\<close>

lemma endswith_iff: "endswith s p \<longleftrightarrow> (\<exists>x. s = x @ p)"
proof
  assume "endswith s p"
  then have "rev s = rev p @ drop (length p) (rev s)"
    by (metis append_take_drop_id endswith_def length_rev startswith_def)
  then have "s = rev (drop (length p) (rev s)) @ p" by (metis rev_append rev_rev_ident)
  then show "\<exists>x. s = x @ p" ..
qed (auto simp: endswith_def startswith_def)

lemma app_name_chars: "CHR '' '' \<notin> set (app_name n)" "LF \<notin> set (app_name n)" "app_name n \<noteq> []"
  by (auto simp: app_name_def str_int_def)

lemma str_int_inject [simp]: "str_int m = str_int n \<longleftrightarrow> m = n"
proof -
  have "str_nat k \<noteq> CHR ''-'' # s" for k s
    using str_nat_digits [of "CHR ''-''" k] by (auto simp: is_digit_def)
  then have "str_nat k \<noteq> CHR ''-'' # s \<and> CHR ''-'' # s \<noteq> str_nat k" for k s by metis
  then show ?thesis by (auto simp: str_int_def)
qed

lemma app_name_inject [simp]: "app_name m = app_name n \<longleftrightarrow> m = n"
  by (simp add: app_name_def)

lemma last_word:
  "x @ '' '' @ a = y @ '' '' @ b \<Longrightarrow> CHR '' '' \<notin> set a \<Longrightarrow> CHR '' '' \<notin> set b \<Longrightarrow> a = b"
  by (auto simp: append_eq_append_conv2 Cons_eq_append_conv append_eq_Cons_conv)

text \<open>a rule that ends in the name of profile \<open>n\<close> is taken for one of profile \<open>m\<close> only if
  the numbers are the same; profile 1 does not match the rules of profile 12 or 21.\<close>

theorem rule_matches_own:
  "rule_matches (app_name m) (x @ '' '' @ app_name n) \<longleftrightarrow> m = n"
proof
  assume "rule_matches (app_name m) (x @ '' '' @ app_name n)"
  then obtain y where y: "x @ '' '' @ app_name n = y @ '' '' @ app_name m \<or>
      x @ '' '' @ app_name n = y @ '' '' @ app_name m @ [LF]"
    unfolding rule_matches_def endswith_iff by blast
  have "last (app_name n) \<noteq> LF" using app_name_chars [of n] last_in_set by metis
  then have "last (x @ '' '' @ app_name n) \<noteq> last (y @ '' '' @ app_name m @ [LF])"
    using app_name_chars [of n] by simp
  with y have "x @ '' '' @ app_name n = y @ '' '' @ app_name m" by metis
  from last_word [OF this app_name_chars(1) app_name_chars(1)] show "m = n" by simp
next
  assume "m = n"
  then have "endswith (x @ '' '' @ app_name n) ('' '' @ app_name m)" unfolding endswith_iff by blast
  then show "rule_matches (app_name m) (x @ '' '' @ app_name n)" by (simp add: rule_matches_def)
qed

text \<open>
  What the code relies on of ufw: \<open>status\<close> lists the rules with their positions from 1 and
  changes nothing, \<open>delete\<close> of a position removes the rule at that position. \<open>rules\<close> is the
  rule list in the outside world.
\<close>

fun number :: "int \<Rightarrow> string list \<Rightarrow> (int \<times> string) list" where
  "number k [] = []"
| "number k (x # xs) = (k, x) # number (k + 1) xs"

definition ufw_numbers :: "'w ufw_api \<Rightarrow> ('w \<Rightarrow> string list) \<Rightarrow> bool" where
  "ufw_numbers ufw rules \<longleftrightarrow>
     (\<forall>w. fst (ufw_status ufw w) = Inr (Some (number 1 (rules w))) \<and> rules (snd (ufw_status ufw w)) = rules w) \<and>
     (\<forall>w i. i < length (rules w) \<longrightarrow>
        fst (ufw_delete ufw (int i + 1) w) = Inr () \<and>
        rules (snd (ufw_delete ufw (int i + 1) w)) = take i (rules w) @ drop (Suc i) (rules w))"

lemma number_append: "number k (xs @ ys) = number k xs @ number (k + int (length xs)) ys"
  by (induction xs arbitrary: k) (simp_all add: algebra_simps)

lemma delete_loop:
  assumes "ufw_numbers ufw rules" and "rules (ext s) = xs @ zs"
  shows "\<exists>s'. for_each (rev (number 1 xs)) (\<lambda>(index, rule).
      if rule_matches app rule then ext_op (ufw_delete ufw index) else ret ()) s = (Inr (), s') \<and>
    files s' = files s \<and> rules (ext s') = filter (\<lambda>r. \<not> rule_matches app r) xs @ zs"
  using assms(2)
proof (induction xs arbitrary: s zs rule: rev_induct)
  case (snoc x xs)
  have rev: "rev (number 1 (xs @ [x])) = (int (length xs) + 1, x) # rev (number 1 xs)"
    by (simp add: number_append)
  show ?case
  proof (cases "rule_matches app x")
    case False
    with snoc.IH [of s "x # zs"] snoc.prems show ?thesis by (simp add: rev thenP_def bindP_def)
  next
    case True
    have len: "length xs < length (rules (ext s))" using snoc.prems by simp
    obtain r w where d: "ufw_delete ufw (int (length xs) + 1) (ext s) = (r, w)" by fastforce
    have "\<forall>i. i < length (rules (ext s)) \<longrightarrow>
        fst (ufw_delete ufw (int i + 1) (ext s)) = Inr () \<and>
        rules (snd (ufw_delete ufw (int i + 1) (ext s))) = take i (rules (ext s)) @ drop (Suc i) (rules (ext s))"
      using assms(1) by (simp add: ufw_numbers_def)
    with len d have "r = Inr ()" "rules w = take (length xs) (rules (ext s)) @ drop (Suc (length xs)) (rules (ext s))"
      by force+
    with snoc.prems have r: "r = Inr ()" and w: "rules w = xs @ zs" by simp_all
    then have "ext_op (ufw_delete ufw (int (length xs) + 1)) s = (Inr (), s\<lparr>ext := w\<rparr>)"
      by (simp add: ext_op_def d)
    with True w snoc.IH [of "s\<lparr>ext := w\<rparr>" zs] show ?thesis by (simp add: rev)
  qed
qed simp

lemma delete_rules_run:
  assumes "ufw_numbers ufw rules"
  shows "\<exists>s'. delete_rules ufw fw s = (Inr (), s') \<and> files s' = files s \<and>
    rules (ext s') = filter (\<lambda>r. \<not> rule_matches (fw_app_name fw) r) (rules (ext s))"
proof -
  obtain w where st: "ufw_status ufw (ext s) = (Inr (Some (number 1 (rules (ext s)))), w)" "rules w = rules (ext s)"
    using assms unfolding ufw_numbers_def by (metis prod.collapse)
  then have "ext_op (ufw_status ufw) s = (Inr (Some (number 1 (rules (ext s)))), s\<lparr>ext := w\<rparr>)"
    by (simp add: ext_op_def)
  with delete_loop [OF assms, of "s\<lparr>ext := w\<rparr>" "rules (ext s)" "[]" "fw_app_name fw"] st(2) show ?thesis
    by (simp add: delete_rules_def)
qed

text \<open>C18: \<open>delete_rules\<close> removes exactly the rules of its own profile and leaves all others,
  in their order: the positions it deletes stay right because it goes through the list
  from the end.\<close>

theorem delete_rules_exact:
  assumes "ufw_numbers ufw rules"
  shows "\<exists>s'. delete_rules ufw fw s = (Inr (), s') \<and> files s' = files s \<and>
    rules (ext s') = filter (\<lambda>r. \<not> rule_matches (fw_app_name fw) r) (rules (ext s))"
  using assms by (rule delete_rules_run)

definition list_ufw :: "string list ufw_api" where
  "list_ufw = \<lparr>ufw_status = (\<lambda>w. (Inr (Some (number 1 w)), w)),
     ufw_delete = (\<lambda>i w. (Inr (), take (nat i - 1) w @ drop (nat i) w))\<rparr>"

lemma list_ufw_numbers: "ufw_numbers list_ufw (\<lambda>w. w)"
  by (auto simp: ufw_numbers_def list_ufw_def nat_add_distrib)

definition demo_fw :: firewall where
  "demo_fw = \<lparr>fw_config = demo_loader, fw_order = 1, fw_app_name = ''iprotate_1'', fw_wgport = 40001,
     fw_socks5port = 50001, fw_httpport = 60001, fw_ssport = 30001, fw_whitelist = None\<rparr>"

theorem delete_rules_exact_witness:
  "\<exists>s'. delete_rules list_ufw demo_fw
      \<lparr>files = Map.empty, ext = [''allow any iprotate_1'', ''allow any iprotate_12'', ''reject any iprotate_1'']\<rparr>
      = (Inr (), s') \<and> ext s' = [''allow any iprotate_12'']"
proof -
  have "filter (\<lambda>r. \<not> rule_matches (fw_app_name demo_fw) r)
      [''allow any iprotate_1'', ''allow any iprotate_12'', ''reject any iprotate_1''] = [''allow any iprotate_12'']"
    by code_simp
  with delete_rules_exact [OF list_ufw_numbers, of demo_fw "\<lparr>files = Map.empty,
      ext = [''allow any iprotate_1'', ''allow any iprotate_12'', ''reject any iprotate_1'']\<rparr>"]
  show ?thesis by auto
qed

subsection \<open>The ports of a profile\<close>

text \<open>The ufw application profile as a parser.\<close>

definition app_ini :: "int \<Rightarrow> ini" where
  "app_ini n = \<lparr>defaults = [], sections = [(app_name n,
     [(''title'', app_name n), (''description'', ''ufw application config for '' @ app_name n),
      (''ports'', str_int (50000 + n) @ '','' @ str_int (60000 + n) @ ''/tcp|'' @ str_int (50000 + n) @ ''/udp'')])]\<rparr>"

lemma str_int_notin: "\<not> is_digit c \<Longrightarrow> c \<noteq> CHR ''-'' \<Longrightarrow> c \<notin> set (str_int n)"
  by (simp add: str_int_def str_nat_notin)

lemma str_int_plain [simp]: "CHR ''%'' \<notin> set (str_int n)"
  by (rule str_int_notin) (simp_all add: is_digit_def)

lemma app_name_not_default: "app_name n \<noteq> default_section" "\<not> is_default (app_name n)"
  by (simp_all add: app_name_def default_section_def is_default_def)

lemma lower_app_names [simp]:
  "py_lower ''title'' = ''title''" "py_lower ''description'' = ''description''" "py_lower ''ports'' = ''ports''"
  by code_simp+

lemma app_profile_eq: "app_profile n empty_ini = (Inr (), app_ini n)"
proof -
  have p: "\<not> bad_percent (app_name n)" "\<not> bad_percent (''ufw application config for '' @ app_name n)"
    "\<not> bad_percent (str_int (50000 + n) @ '','' @ str_int (60000 + n) @ ''/tcp|'' @ str_int (50000 + n) @ ''/udp'')"
    by (rule bad_percent_plain, simp add: app_name_def)+
  show ?thesis
    using p app_name_not_default [of n]
    by (simp add: app_profile_def app_ini_def thenP_def bindP_def ini_add_section_def has_section_def
        cset_def ini_set_def set_raw_def section_dict_def empty_ini_def dict_has_def
        socks5PortBase_def httpPortBase_def split: if_splits)
qed

lemma mk_firewall_eqs:
  assumes "mk_firewall os name s = (Inr fw, s')"
  obtains ld s1 a c1 n where "ConfigLoader os s = (Inr ld, s1)"
    and "load_aws_config name (config ld) = (Inr a, c1)" and "py_int (ac_order a) = Inr n"
    and "fw_order fw = n" and "fw_app_name fw = app_name n"
    and "fw_ssport fw = 30000 + n" and "fw_wgport fw = 40000 + n"
    and "fw_socks5port fw = 50000 + n" and "fw_httpport fw = 60000 + n"
    and "fw_whitelist fw = split_whitelist (ac_whitelist a)"
    and "files s' (app_path n) = Some (ini_write (app_ini n))"
proof -
  from assms obtain ld s1 api ca a c2 n app ca' s2 s3 u v where
    r: "ConfigLoader os s = (Inr ld, s1)" "load_api_config (config ld) = (Inr api, ca)"
    "load_aws_config name ca = (Inr a, c2)" "py_int (ac_order a) = Inr n"
    and f: "app_profile n empty_ini = (Inr app, ca')"
      "write_file os (app_path n) (ini_write ca') s1 = (Inr u, s2)"
      "attempt (for_each app_update_cmds (run_cmd os)) s2 = (Inr v, s')"
    and fw: "fw = \<lparr>fw_config = ld\<lparr>config := c2\<rparr>, fw_order = n, fw_app_name = app_name n,
          fw_wgport = wgPortBase + n, fw_socks5port = socks5PortBase + n,
          fw_httpport = httpPortBase + n, fw_ssport = ssBasePort + n,
          fw_whitelist = split_whitelist (ac_whitelist a)\<rparr>"
    by (auto simp: mk_firewall_def bindP_eq_Inr thenP_eq_Inr run_ini_eq_Inr)
  have "keeps (\<lambda>t. files t = files s2) (attempt (for_each app_update_cmds (run_cmd os)))"
    unfolding run_cmd_def by (intro keeps_intros) simp_all
  from keepsD [OF this refl f(3)] have "files s' = files s2" .
  moreover have "ca' = app_ini n" using f(1) by (simp add: app_profile_eq)
  ultimately have "files s' (app_path n) = Some (ini_write (app_ini n))"
    using write_file_Inr [OF f(2)] by simp
  moreover have "ca = config ld" by (rule load_api_state [OF r(2)])
  ultimately show ?thesis
    using r fw by (intro that) (simp_all add: wgPortBase_def socks5PortBase_def httpPortBase_def ssBasePort_def)
qed

lemma mk_firewall_conf:
  assumes "mk_firewall os name s = (Inr fw, s')"
  obtains ld s1 where "ConfigLoader os s = (Inr ld, s1)" and "files s' conf_path = files s1 conf_path"
proof -
  from assms obtain ld s1 api ca a c2 n app ca' s2 s3 u v where
    r: "ConfigLoader os s = (Inr ld, s1)"
    and f: "write_file os (app_path n) (ini_write ca') s1 = (Inr u, s2)"
      "attempt (for_each app_update_cmds (run_cmd os)) s2 = (Inr v, s')"
    by (auto simp: mk_firewall_def bindP_eq_Inr thenP_eq_Inr run_ini_eq_Inr)
  have "keeps (\<lambda>t. files t = files s2) (attempt (for_each app_update_cmds (run_cmd os)))"
    unfolding run_cmd_def by (intro keeps_intros) simp_all
  from keepsD [OF this refl f(2)] have "files s' = files s2" .
  then have "files s' conf_path = files s1 conf_path"
    using write_file_Inr [OF f(1)] by (simp add: conf_path_def app_path_def)
  with r show ?thesis by (rule that)
qed

text \<open>the firewall of the profile at place \<open>i\<close> of the file works for the application
  \<open>iprotate_(i+1)\<close>, on the SOCKS port 50000 + (i+1) and the HTTP port 60000 + (i+1), which
  it publishes to ufw in the application file (both ports for TCP, the first also for UDP);
  the number and so the ports and the file do not depend on what the file said before.\<close>

theorem firewall_ports:
  assumes "read_conf empty_ini s = (Inr c, s)" and "i < length (profiles c)"
    and "mk_firewall os (profiles c ! i) s = (Inr fw, s')"
  shows "fw_order fw = int i + 1 \<and> fw_app_name fw = app_name (int i + 1) \<and>
    fw_socks5port fw = 50001 + int i \<and> fw_httpport fw = 60001 + int i \<and>
    fw_wgport fw = 40001 + int i \<and> fw_ssport fw = 30001 + int i \<and>
    files s' (app_path (int i + 1)) = Some (ini_write (app_ini (int i + 1)))"
proof -
  let ?ns = "dict_keys (sections c)" and ?x = "profiles c ! i"
  obtain ld s1 a c1 n where 1: "ConfigLoader os s = (Inr ld, s1)"
    "load_aws_config ?x (config ld) = (Inr a, c1)" "py_int (ac_order a) = Inr n"
    and 2: "fw_order fw = n" "fw_app_name fw = app_name n" "fw_ssport fw = 30000 + n" "fw_wgport fw = 40000 + n"
    "fw_socks5port fw = 50000 + n" "fw_httpport fw = 60000 + n"
    "files s' (app_path n) = Some (ini_write (app_ini n))"
    by (rule mk_firewall_eqs [OF assms(3)])
  obtain c' where "read_conf empty_ini s = (Inr c', s)" "config ld = renumber 1 (dict_keys (sections c')) c'"
    by (rule ConfigLoader_Inr [OF 1(1)])
  with assms(1) have ld: "config ld = renumber 1 ?ns c" by simp
  have names: "names_ok ?ns" by (rule read_conf_names [OF assms(1)])
  have p: "\<forall>y \<in> set ?ns. proper_section c y" by (rule proper_of_names [OF names])
  have "?x \<in> set (profiles c)" using assms(2) by simp
  then have x: "?x \<in> set ?ns" by (simp only: profiles_def set_filter mem_Collect_eq)
  have px: "proper_section (config ld) ?x" unfolding ld proper_renumber [OF p] using p x by (rule bspec)
  have "visible (config ld) ?x ''order'' = Some (str_nat (1 + i))"
    unfolding ld using order_renumber_nth [OF _ _ p, of i 1] assms(2) names
    by (simp add: profiles_def names_ok_def)
  then have v: "visible (add_defaults ?x (config ld)) ?x ''order'' = Some (str_nat (1 + i))"
    using px by (simp add: visible_add_defaults)
  have "has_section (add_defaults ?x (config ld)) ?x"
    using proper_add_defaults [OF px, of ?x] px by (simp add: proper_section_def)
  then have "ini_get (add_defaults ?x (config ld)) ?x ''order'' = Inr (str_nat (1 + i))"
    using v by (simp add: ini_get_visible)
  then have "ac_order a = str_nat (1 + i)" using load_aws_config_eq(2) [OF px 1(2)] by simp
  then have "n = int i + 1" using 1(3) by simp
  then show ?thesis using 2 by simp
qed

lemma mk_firewall_ok:
  assumes "read_conf empty_ini s = (Inr c, s)" and "conf_ready c" and "\<And>p. can_write os p"
    and "i < length (profiles c)"
  shows "\<exists>fw s'. mk_firewall os (profiles c ! i) s = (Inr fw, s')"
proof -
  obtain ld s1 where ld: "ConfigLoader os s = (Inr ld, s1)" "config ld = renumber 1 (dict_keys (sections c)) c"
    using ConfigLoader_ok [OF assms(1,2,3)] by blast
  note l = loaded_profile [OF assms(2,4) ld(2) refl]
  obtain api where "load_api_config (config ld) = (Inr api, config ld)"
    using load_api_ok [OF l(4)] by blast
  with ld(1) l(2,3) show ?thesis
    by (simp add: mk_firewall_def run_ini_def bindP_def app_profile_eq thenP_def write_file_ok [OF assms(3)]
        attempt_apply)
qed

theorem firewall_ports_witness:
  "\<exists>fw s'. mk_firewall demo_os (profiles demo_ini ! 1) demo_sys = (Inr fw, s') \<and>
     fw_order fw = 2 \<and> fw_socks5port fw = 50002"
proof -
  obtain fw s' where fw: "mk_firewall demo_os (profiles demo_ini ! 1) demo_sys = (Inr fw, s')"
    using mk_firewall_ok [OF read_demo conf_ready_demo can_write_demo, of 1] by (auto simp: profiles_def demo_ini_def)
  have "1 < length (profiles demo_ini)" by code_simp
  from firewall_ports [OF read_demo this fw] fw show ?thesis by simp
qed

subsection \<open>Which files the firewall touches\<close>

lemma frame_run_cmd [keeps_intros]: "keeps (frame p x) (run_cmd os c)"
  unfolding run_cmd_def by (intro keeps_intros)

lemma frame_mk_firewall [keeps_intros]:
  "p \<noteq> conf_path \<Longrightarrow> (\<And>n. p \<noteq> app_path n) \<Longrightarrow> keeps (frame p x) (mk_firewall os name)"
  unfolding mk_firewall_def by (intro keeps_intros)

lemma frame_delete_rules [keeps_intros]: "keeps (frame p x) (delete_rules ufw fw)"
  unfolding delete_rules_def by (intro keeps_intros)

lemma frame_apply_whitelist [keeps_intros]: "keeps (frame p x) (apply_whitelist os fw)"
  unfolding apply_whitelist_def by (intro keeps_intros)

end
