(* ===== verification/Generators.thy ===== *)
theory Generators
  imports FirewallProps
begin

section \<open>Generated service files\<close>

text \<open>
  The methods of \<open>ConfigLoader\<close> (\<open>functions/main.py\<close>) that write the files of the
  services of a profile: the two ends of the WireGuard tunnel, the 3proxy file and the
  shadowsocks file with its user list, as the texts that are written, character for
  character.
\<close>

subsection \<open>JSON text\<close>

text \<open>The documents that \<open>json.dumps\<close> is given, and its output (ASCII only, \<open>", "\<close> and \<open>": "\<close>).\<close>

datatype doc =
    DInt int
  | DBool bool
  | DStr string
  | DList "doc list"
  | DObj "(string \<times> doc) list"

definition hex_char :: "nat \<Rightarrow> char" where
  "hex_char d = (if d < 10 then char_of (48 + d) else char_of (87 + d))"

definition escape_char :: "char \<Rightarrow> string" where
  "escape_char c =
     (if c = CHR 0x22 then [CHR 0x5C, CHR 0x22]
      else if c = CHR 0x5C then [CHR 0x5C, CHR 0x5C]
      else if c = LF then [CHR 0x5C, CHR ''n'']
      else if c = CR then [CHR 0x5C, CHR ''r'']
      else if c = TAB then [CHR 0x5C, CHR ''t'']
      else if c = CHR 0x0C then [CHR 0x5C, CHR ''f'']
      else if c = CHR 0x08 then [CHR 0x5C, CHR ''b'']
      else if 32 \<le> ord_of c \<and> ord_of c \<le> 126 then [c]
      else [CHR 0x5C, CHR ''u'', CHR ''0'', CHR ''0'', hex_char (ord_of c div 16), hex_char (ord_of c mod 16)])"

definition dumps_string :: "string \<Rightarrow> string" where
  "dumps_string s = [CHR 0x22] @ concat (map escape_char s) @ [CHR 0x22]"

fun dumps :: "doc \<Rightarrow> string" where
  "dumps (DInt i) = str_int i"
| "dumps (DBool b) = (if b then ''true'' else ''false'')"
| "dumps (DStr s) = dumps_string s"
| "dumps (DList ds) = ''['' @ join '', '' (map dumps ds) @ '']''"
| "dumps (DObj kvs) = ''{'' @ join '', '' (map (\<lambda>(k, d). dumps_string k @ '': '' @ dumps d) kvs) @ ''}''"

subsection \<open>Names and paths\<close>

definition profile_name :: "string \<Rightarrow> string \<Rightarrow> string" where
  "profile_name order name = ''iprotate_'' @ order @ ''_'' @ name"

definition interface_name :: "string \<Rightarrow> string \<Rightarrow> string" where
  "interface_name order name = ''ip_'' @ order @ ''_'' @ name"

definition opt_path :: "string \<Rightarrow> string \<Rightarrow> string" where
  "opt_path order name = ''/opt/cloud-iprotate/profile_config/'' @ profile_name order name"

definition near_ip :: "string \<Rightarrow> string" where
  "near_ip order = ''10.0.'' @ order @ ''.2''"

definition far_ip :: "string \<Rightarrow> string" where
  "far_ip order = ''10.0.'' @ order @ ''.1''"

definition peer_wg_port :: string where
  "peer_wg_port = ''51821''"

text \<open>A fresh parser with the sections \<open>Interface\<close> and \<open>Peer\<close>, then options set one by one.\<close>

definition wg_empty :: ini where
  "wg_empty = \<lparr>defaults = [], sections = [(''Interface'', []), (''Peer'', [])]\<rparr>"

definition set_all :: "string \<Rightarrow> (string \<times> string) list \<Rightarrow> (ini, unit) prog" where
  "set_all s kvs = for_each kvs (\<lambda>(k, v). cset s k (Some v))"

definition read_text :: "string \<Rightarrow> ('w sys, string) prog" where
  "read_text p = (\<lambda>s. case files s p of
     None \<Rightarrow> (Inl (OSError p), s)
   | Some t \<Rightarrow> (Inr (universal_newlines t), s))"

subsection \<open>The far end of the tunnel\<close>

definition far_interface :: "api_config \<Rightarrow> string \<Rightarrow> (string \<times> string) list" where
  "far_interface api order =
     [(''PrivateKey'', api_peerWgPrivateKey api), (''ListenPort'', peer_wg_port), (''Address'', far_ip order @ ''/32''),
      (''PostUp'', ''ufw route allow in on wg0 out on eth0; ufw default allow incoming; '' @
         ''sysctl -w net.ipv4.ip_forward=1; iptables -t nat -I POSTROUTING -o eth0 -j MASQUERADE''),
      (''PreDown'', ''ufw route delete allow in on wg0 out on eth0; '' @
         ''iptables -t nat -D POSTROUTING -o eth0 -j MASQUERADE''),
      (''MTU'', ''1500'')]"

definition far_peer :: "api_config \<Rightarrow> string \<Rightarrow> (string \<times> string) list" where
  "far_peer api order = [(''PublicKey'', api_interfaceWgPublicKey api), (''AllowedIPs'', near_ip order @ ''/32'')]"

definition install_firewall :: "'w os_api \<Rightarrow> 'w ufw_api \<Rightarrow> string \<Rightarrow> ('w sys, unit) prog" where
  "install_firewall os ufw name =
     bindP (mk_firewall os name) (\<lambda>fw. thenP (delete_rules ufw fw) (apply_whitelist os fw))"

definition generate_peer_config ::
    "'w os_api \<Rightarrow> 'w ufw_api \<Rightarrow> string \<Rightarrow> loader \<Rightarrow> ('w sys, string \<times> loader) prog" where
  "generate_peer_config os ufw name ld =
     thenP (attempt (install_firewall os ufw name)) (
     bindP (load_aws name ld) (\<lambda>(a, ld1).
     let order = ac_order a; path = opt_path order name; api = api_cfg ld1 in
     bindP (run_ini (thenP (set_all ''Interface'' (far_interface api order))
                           (set_all ''Peer'' (far_peer api order))) wg_empty) (\<lambda>(_, peer_config).
     thenP (ext_op (os_makedirs os path)) (
     thenP (write_file os (path @ ''/wg0.conf'') (ini_write peer_config)) (
     bindP (read_text (path @ ''/wg0.conf'')) (\<lambda>t. ret (t, ld1)))))))"

subsection \<open>The shadowsocks and 3proxy files\<close>

definition ss_local :: "int \<Rightarrow> string option \<Rightarrow> doc" where
  "ss_local n auth = DObj ([(''local_address'', DStr ''0.0.0.0''), (''local_port'', DInt (socks5PortBase + n)),
     (''mode'', DStr ''tcp_and_udp''), (''protocol'', DStr ''socks'')] @
     (case auth of None \<Rightarrow> [] | Some p \<Rightarrow> [(''socks5_auth_config_path'', DStr p)]))"

definition ss_doc :: "string \<Rightarrow> int \<Rightarrow> string option \<Rightarrow> doc" where
  "ss_doc password n auth = DObj [(''server'', DStr ''localhost''), (''server_port'', DInt (ssBasePort + n)),
     (''password'', DStr password), (''method'', DStr ''aes-128-gcm''), (''mode'', DStr ''tcp_and_udp''),
     (''fast_open'', DBool True), (''locals'', DList [ss_local n auth])]"

definition auth_doc :: "string \<Rightarrow> string \<Rightarrow> doc" where
  "auth_doc user passwd = DObj [(''password'', DObj [(''users'',
     DList [DObj [(''user_name'', DStr user), (''password'', DStr passwd)]])])]"

definition generate_shadowsocks_config :: "'w os_api \<Rightarrow> string \<Rightarrow> loader \<Rightarrow> ('w sys, loader) prog" where
  "generate_shadowsocks_config os name ld =
     bindP (of_sum (ini_get (config ld) name ''user'')) (\<lambda>user.
     bindP (of_sum (ini_get (config ld) name ''pass'')) (\<lambda>passwd.
     bindP (load_aws name ld) (\<lambda>(a, ld1).
     bindP (of_sum (py_int (ac_order a))) (\<lambda>n.
     let path = opt_path (ac_order a) name; auth_path = path @ ''/auth.json'';
         auth = user \<noteq> [] \<and> passwd \<noteq> []
     in thenP (if auth then write_file os auth_path (dumps (auth_doc user passwd)) else ret ()) (
        thenP (write_file os (path @ ''/shadowsocks.json'')
                (dumps (ss_doc (api_interfaceWgPrivateKey (api_cfg ld1)) n (if auth then Some auth_path else None))))
          (ret ld1))))))"

definition proxy_head :: "string \<Rightarrow> string" where
  "proxy_head pname =
     ''nserver 8.8.8.8'' @ [LF] @ ''nserver 8.8.4.4'' @ [LF] @ ''nscache 65536'' @ [LF] @ ''allow *'' @ [LF] @
     ''logformat '' @ [CHR 0x22] @ ''G%H:%M:%S.%. %d-%m-%y %z  %N.%p %E %U %C:%c %R:%r %O %I %h %T'' @ [CHR 0x22] @ [LF] @
     ''log '' @ [CHR 0x22] @ ''/opt/cloud-iprotate/profile_config/'' @ pname @ ''/log.txt'' @ [CHR 0x22] @ [LF]"

definition proxy_text :: "string \<Rightarrow> int \<Rightarrow> string \<Rightarrow> string \<Rightarrow> string \<Rightarrow> string" where
  "proxy_text pname n order user passwd =
     (let auth = user \<noteq> [] \<and> passwd \<noteq> [] in
      proxy_head pname @
      (if auth then ''auth strong'' @ [LF] else []) @
      ''proxy -n -p'' @ str_int (httpPortBase + n) @ '' -i0.0.0.0 -e'' @ near_ip order @ [LF] @
      (if auth then ''users '' @ user @ '':CL:'' @ passwd @ [LF] else []))"

definition generate_3proxy_config :: "'w os_api \<Rightarrow> string \<Rightarrow> loader \<Rightarrow> ('w sys, loader) prog" where
  "generate_3proxy_config os name ld =
     bindP (load_aws name ld) (\<lambda>(a, ld1).
     let order = ac_order a; pname = profile_name order name in
     bindP (of_sum (py_int order)) (\<lambda>n.
     thenP (ext_op (os_makedirs os (''profile_config/'' @ pname))) (
     thenP (write_file os (''profile_config/'' @ pname @ ''/proxy_'' @ pname @ ''.cfg'')
             (proxy_text pname n order (ac_user a) (ac_pass a)))
       (ret ld1))))"

subsection \<open>The near end of the tunnel\<close>

definition near_interface :: "api_config \<Rightarrow> string \<Rightarrow> string \<Rightarrow> int \<Rightarrow> (string \<times> string) list" where
  "near_interface api order name n =
     (let iname = interface_name order name in
     [(''PrivateKey'', api_interfaceWgPrivateKey api), (''ListenPort'', str_int (wgPortBase + n)),
      (''Address'', near_ip order @ ''/32''),
      (''PostUp'', ''ip rule add from '' @ near_ip order @ '' table '' @ order @ ''; ip route add default via 10.0.'' @
         order @ ''.1 dev '' @ iname @ '' table '' @ order @ ''; wg set '' @ iname @ '' peer '' @
         api_peerWgPublicKey api @ '' allowed-ips 0.0.0.0/0''),
      (''PreDown'', ''wg set '' @ iname @ '' peer '' @ api_peerWgPublicKey api @ '' allowed-ips '' @ far_ip order @ ''/32''),
      (''PostDown'', ''ip rule del table '' @ order),
      (''MTU'', ''1500'')])"

definition near_peer :: "api_config \<Rightarrow> string \<Rightarrow> string option \<Rightarrow> (string \<times> string) list" where
  "near_peer api order newip =
     (case newip of None \<Rightarrow> [] | Some ip \<Rightarrow> if ip = [] then [] else [(''Endpoint'', ip @ '':'' @ peer_wg_port)]) @
     [(''PublicKey'', api_peerWgPublicKey api), (''AllowedIPs'', far_ip order @ ''/32''), (''PersistentKeepalive'', ''25'')]"

definition near_path :: "string \<Rightarrow> string \<Rightarrow> string" where
  "near_path order name = ''profile_config/'' @ profile_name order name @ ''/'' @ interface_name order name @ ''.conf''"

definition generate_profile_config ::
    "'w os_api \<Rightarrow> string \<Rightarrow> string option \<Rightarrow> loader \<Rightarrow> ('w sys, loader) prog" where
  "generate_profile_config os name newip ld =
     bindP (load_aws name ld) (\<lambda>(a, ld1).
     let order = ac_order a; api = api_cfg ld1 in
     bindP (of_sum (py_int order)) (\<lambda>n.
     bindP (run_ini (thenP (set_all ''Interface'' (near_interface api order name n))
                           (set_all ''Peer'' (near_peer api order newip))) wg_empty) (\<lambda>(_, wg_config).
     thenP (ext_op (os_makedirs os (''profile_config/'' @ profile_name order name))) (
     thenP (write_file os (near_path order name) (ini_write wg_config)) (
     bindP (generate_3proxy_config os name ld1) (\<lambda>ld2.
     generate_shadowsocks_config os name ld2))))))"

end
