(* ===== verification/GeneratorProps.thy ===== *)
theory GeneratorProps
  imports Generators
begin

section \<open>What the generated files guarantee\<close>

text \<open>
  That the two WireGuard files of a profile fit together and read back as they were
  meant, when the proxies ask for a password, what a line break in a credential does to
  the 3proxy file and that it does nothing to the JSON files, and the range of the
  addresses.
\<close>

subsection \<open>JSON strings\<close>

text \<open>Reading a JSON string up to its closing quote (RFC 8259, escapes up to U+00FF).\<close>

definition hex_val :: "char \<Rightarrow> nat" where
  "hex_val c = (if is_digit c then ord_of c - 48 else ord_of c - 87)"

fun read_string :: "string \<Rightarrow> (string \<times> string) option" where
  "read_string [] = None"
| "read_string (c # s) =
     (if c = CHR 0x22 then Some ([], s)
      else if c = CHR 0x5C then
        (case s of
           [] \<Rightarrow> None
         | e # s' \<Rightarrow>
             if e = CHR ''u'' then
               (case s' of
                  z1 # z2 # h # l # s'' \<Rightarrow>
                    if z1 = CHR ''0'' \<and> z2 = CHR ''0''
                    then map_option (apfst ((#) (char_of (16 * hex_val h + hex_val l)))) (read_string s'') else None
                | _ \<Rightarrow> None)
             else if e = CHR ''n'' then map_option (apfst ((#) LF)) (read_string s')
             else if e = CHR ''r'' then map_option (apfst ((#) CR)) (read_string s')
             else if e = CHR ''t'' then map_option (apfst ((#) TAB)) (read_string s')
             else if e = CHR ''f'' then map_option (apfst ((#) (CHR 0x0C))) (read_string s')
             else if e = CHR ''b'' then map_option (apfst ((#) (CHR 0x08))) (read_string s')
             else map_option (apfst ((#) e)) (read_string s'))
      else map_option (apfst ((#) c)) (read_string s))"

lemma hex_val_char: "d < 16 \<Longrightarrow> hex_val (hex_char d) = d"
  by (auto simp: hex_val_def hex_char_def is_digit_def)

lemma read_escape: "read_string (escape_char c @ s) = map_option (apfst ((#) c)) (read_string s)"
proof -
  have "16 * (ord_of c div 16) + ord_of c mod 16 = ord_of c" by simp
  moreover have "ord_of c div 16 < 16" by (intro less_mult_imp_div_less) simp
  ultimately have "char_of (16 * hex_val (hex_char (ord_of c div 16)) + hex_val (hex_char (ord_of c mod 16))) = c"
    by (simp add: hex_val_char)
  then show ?thesis by (auto simp: escape_char_def)
qed

lemma dumps_string_roundtrip: "read_string (tl (dumps_string s) @ rest) = Some (s, rest)"
proof -
  have "read_string (concat (map escape_char s) @ CHR 0x22 # rest) = Some (s, rest)"
    by (induction s) (simp_all add: read_escape)
  then show ?thesis by (simp add: dumps_string_def)
qed

text \<open>A reader of the authentication file: the two strings, each at its place, and nothing else.\<close>

definition skip :: "string \<Rightarrow> string \<Rightarrow> string option" where
  "skip p s = (if startswith s p then Some (drop (length p) s) else None)"

definition read_auth :: "string \<Rightarrow> (string \<times> string) option" where
  "read_auth t =
     Option.bind (skip (CHR ''{'' # dumps_string ''password'' @ '': {'' @ dumps_string ''users'' @ '': [{'' @
         dumps_string ''user_name'' @ '': '' @ [CHR 0x22]) t) (\<lambda>s.
     Option.bind (read_string s) (\<lambda>(user, s1).
     Option.bind (skip ('', '' @ dumps_string ''password'' @ '': '' @ [CHR 0x22]) s1) (\<lambda>s2.
     Option.bind (read_string s2) (\<lambda>(passwd, s3).
     if s3 = ''}]}}'' then Some (user, passwd) else None))))"

lemma skip_append [simp]: "skip p (p @ s) = Some s"
  by (simp add: skip_def startswith_def)

lemma dumps_string_cons: "dumps_string s = CHR 0x22 # tl (dumps_string s)"
  by (simp add: dumps_string_def)


subsection \<open>Numbers in names and addresses\<close>

lemma digit_char_zero: "0 < d \<Longrightarrow> d < 10 \<Longrightarrow> digit_char d \<noteq> CHR ''0''"
proof
  assume "0 < d" "d < 10" "digit_char d = CHR ''0''"
  then have "digit_val (CHR ''0'') = d" using digit_val_char [of d] by simp
  with \<open>0 < d\<close> show False by (simp add: digit_val_def)
qed

lemma octet_str_nat: "octet_ok (str_nat n) \<longleftrightarrow> n \<le> 255"
proof
  assume "octet_ok (str_nat n)"
  then show "n \<le> 255" by (simp add: octet_ok_def)
next
  assume n: "n \<le> 255"
  consider "n < 10" | "10 \<le> n" "n < 100" | "100 \<le> n" by linarith
  then have "length (str_nat n) \<le> 3 \<and> (n = 0 \<or> hd (str_nat n) \<noteq> CHR ''0'')"
  proof cases
    case 1
    then show ?thesis using digit_char_zero [of n] by (auto simp: str_nat.simps [of n])
  next
    case 2
    then have "n div 10 < 10" "n div 10 \<noteq> 0" by auto
    moreover from this have "digit_char (n div 10) \<noteq> CHR ''0''" by (intro digit_char_zero) auto
    ultimately show ?thesis using 2 by (auto simp: str_nat.simps [of n] str_nat.simps [of "n div 10"])
  next
    case 3
    with n have a: "n div 10 div 10 < 10" "n div 10 div 10 \<noteq> 0" "\<not> n div 10 < 10" by auto
    then have "digit_char (n div 10 div 10) \<noteq> CHR ''0''" by (intro digit_char_zero) auto
    with a 3 show ?thesis
      by (auto simp: str_nat.simps [of n] str_nat.simps [of "n div 10"] str_nat.simps [of "n div 10 div 10"])
  qed
  moreover have "str_nat 0 = ''0''" by code_simp
  ultimately show "octet_ok (str_nat n)"
    using n str_nat_digits [of _ n] by (auto simp: octet_ok_def all_digits_def list_all_iff)
qed

lemma split_dots:
  "split_on CHR ''.'' (''10.0.'' @ str_nat n @ ''.'' @ [d]) = [''10'', ''0'', str_nat n, [d]]" if "d \<noteq> CHR ''.''"
proof -
  have "split_on CHR ''.'' (str_nat n @ CHR ''.'' # [d]) = [str_nat n, [d]]"
    using that by (subst split_on_append) (auto simp: split_on_none)
  then show ?thesis by simp
qed

text \<open>the tunnel addresses 10.0.n.1 and 10.0.n.2 of profile \<open>n\<close> are addresses only up to
  n = 255; the loader numbers on without a bound, and the files of profile 256 carry texts
  that are no addresses.\<close>

theorem tunnel_address_range:
  "ip4_ok (near_ip (str_nat n)) = (n \<le> 255) \<and> ip4_ok (far_ip (str_nat n)) = (n \<le> 255)"
proof -
  have "octet_ok ''10'' \<and> octet_ok ''0'' \<and> octet_ok ''1'' \<and> octet_ok ''2''" by code_simp
  then show ?thesis
    using split_dots [of "CHR ''2''" n] split_dots [of "CHR ''1''" n]
    by (simp add: near_ip_def far_ip_def ip4_ok_def ip4_value_def octet_str_nat)
qed

text \<open>no two profiles write to the same place: the directory name determines the number and
  the name of the profile, underscores in the name included.\<close>

theorem profile_name_inject:
  "profile_name (str_nat m) a = profile_name (str_nat n) b \<longleftrightarrow> m = n \<and> a = b"
proof
  assume "profile_name (str_nat m) a = profile_name (str_nat n) b"
  then have e: "str_nat m @ CHR ''_'' # a = str_nat n @ CHR ''_'' # b" by (simp add: profile_name_def)
  from arg_cong [OF e, of "\<lambda>s. hd (split_on CHR ''_'' s)"] have "m = n" by (simp add: split_on_append)
  with e show "m = n \<and> a = b" by simp
qed simp

subsection \<open>The 3proxy file\<close>

lemma one_line_simps [simp]:
  "one_line []" "one_line (c # s) \<longleftrightarrow> c \<noteq> LF \<and> c \<noteq> CR \<and> one_line s" "one_line (str_nat n)"
  by (auto simp: one_line_def)

lemma one_line_str_int [simp]: "one_line (str_int n)"
  by (simp add: str_int_def)

definition head_lines :: "string \<Rightarrow> string list" where
  "head_lines pname =
     [''nserver 8.8.8.8'', ''nserver 8.8.4.4'', ''nscache 65536'', ''allow *'',
      ''logformat '' @ [CHR 0x22] @ ''G%H:%M:%S.%. %d-%m-%y %z  %N.%p %E %U %C:%c %R:%r %O %I %h %T'' @ [CHR 0x22],
      ''log '' @ [CHR 0x22] @ ''/opt/cloud-iprotate/profile_config/'' @ pname @ ''/log.txt'' @ [CHR 0x22]]"

definition proxy_line :: "int \<Rightarrow> string \<Rightarrow> string" where
  "proxy_line n order = ''proxy -n -p'' @ str_int (60000 + n) @ '' -i0.0.0.0 -e10.0.'' @ order @ ''.2''"

lemma proxy_text_unlines:
  "proxy_text pname n order user passwd = unlines (head_lines pname @
     (if user \<noteq> [] \<and> passwd \<noteq> [] then [''auth strong''] else []) @ [proxy_line n order]) @
     (if user \<noteq> [] \<and> passwd \<noteq> [] then ''users '' @ user @ '':CL:'' @ passwd @ [LF] else [])"
  by (simp add: proxy_text_def proxy_head_def head_lines_def proxy_line_def unlines_def near_ip_def
      httpPortBase_def)



text \<open>a line break in the password adds a directive: whatever follows it is a line of its
  own in the 3proxy file.\<close>

theorem proxy_line_injection:
  assumes "one_line pname" and "one_line order" and "one_line user" and "one_line p" and "one_line directive"
    and "user \<noteq> []"
  shows "directive \<in> set (text_lines (proxy_text pname n order user (p @ [LF] @ directive)))"
proof -
  let ?ls = "head_lines pname @ [''auth strong'', proxy_line n order, ''users '' @ user @ '':CL:'' @ p, directive]"
  have "\<forall>l \<in> set ?ls. one_line l" using assms by (auto simp: head_lines_def proxy_line_def)
  then have "text_lines (unlines ?ls) = ?ls" by (intro text_lines_unlines) (simp add: one_line_def)
  moreover have "proxy_text pname n order user (p @ [LF] @ directive) = unlines ?ls"
    using assms(6) by (simp add: proxy_text_unlines unlines_append unlines_Cons) (simp add: unlines_def)
  ultimately show ?thesis by simp
qed

theorem proxy_line_injection_witness:
  "''system(reboot)'' \<in>
     set (text_lines (proxy_text ''iprotate_1_a'' 1 ''1'' ''joe'' (''pw'' @ [LF] @ ''system(reboot)'')))"
  by (rule proxy_line_injection) simp_all

subsection \<open>The two ends of the tunnel\<close>

text \<open>A loader whose section is complete: reading it again gives the same and adds nothing.\<close>

definition complete :: "loader \<Rightarrow> string \<Rightarrow> aws_config \<Rightarrow> bool" where
  "complete ld name a \<longleftrightarrow> load_aws_config name (config ld) = (Inr a, config ld)"

lemma load_aws_complete: "complete ld name a \<Longrightarrow> load_aws name ld s = (Inr (a, ld), s)"
  by (simp add: complete_def load_aws_def run_ini_def)

definition plain_text :: "string \<Rightarrow> bool" where
  "plain_text v \<longleftrightarrow> wf_val v \<and> CHR ''%'' \<notin> set v"

text \<open>Filling a section option by option.\<close>

definition lower_keys :: "(string \<times> string) list \<Rightarrow> (string, string) dict" where
  "lower_keys kvs = map (apfst py_lower) kvs"

lemma set_all_fold:
  assumes "\<forall>(k, v) \<in> set kvs. CHR ''%'' \<notin> set v" and "\<not> is_default s" and "has_section c s"
  shows "set_all s kvs c = (Inr (), fold (\<lambda>(k, v). set_raw s (py_lower k) v) kvs c)"
  using assms
proof (induction kvs arbitrary: c)
  case (Cons kv kvs)
  obtain k v where kv: "kv = (k, v)" by (cases kv)
  have "cset s k (Some v) c = (Inr (), set_raw s (py_lower k) v c)"
    using Cons.prems kv by (simp add: cset_def ini_set_ok)
  moreover have "has_section (set_raw s (py_lower k) v c) s"
    using Cons.prems by (simp add: has_section_set_raw)
  ultimately show ?case using Cons kv by (simp add: set_all_def)
qed (simp add: set_all_def)

lemma lower_wg_names [simp]:
  "py_lower ''PrivateKey'' = ''privatekey''" "py_lower ''ListenPort'' = ''listenport''"
  "py_lower ''Address'' = ''address''" "py_lower ''PostUp'' = ''postup''" "py_lower ''PreDown'' = ''predown''"
  "py_lower ''PostDown'' = ''postdown''" "py_lower ''MTU'' = ''mtu''" "py_lower ''Endpoint'' = ''endpoint''"
  "py_lower ''PublicKey'' = ''publickey''" "py_lower ''AllowedIPs'' = ''allowedips''"
  "py_lower ''PersistentKeepalive'' = ''persistentkeepalive''"
  by code_simp+

lemma wf_wg_keys [simp]:
  "wf_key ''privatekey''" "wf_key ''listenport''" "wf_key ''address''" "wf_key ''postup''" "wf_key ''predown''"
  "wf_key ''postdown''" "wf_key ''mtu''" "wf_key ''endpoint''" "wf_key ''publickey''" "wf_key ''allowedips''"
  "wf_key ''persistentkeepalive''"
  by code_simp+

text \<open>Both sections filled, as one parser.\<close>

definition wg_ini :: "(string \<times> string) list \<Rightarrow> (string \<times> string) list \<Rightarrow> ini" where
  "wg_ini ifs ps = \<lparr>defaults = [], sections = [(''Interface'', lower_keys ifs), (''Peer'', lower_keys ps)]\<rparr>"

lemma fold_interface:
  assumes "distinct (map fst (d @ lower_keys kvs))"
  shows "fold (\<lambda>(k, v). set_raw ''Interface'' (py_lower k) v) kvs \<lparr>defaults = [], sections = [(''Interface'', d), (''Peer'', e)]\<rparr>
    = \<lparr>defaults = [], sections = [(''Interface'', d @ lower_keys kvs), (''Peer'', e)]\<rparr>"
  using assms
proof (induction kvs arbitrary: d)
  case (Cons kv kvs)
  obtain k v where kv: "kv = (k, v)" by (cases kv)
  have new: "py_lower k \<notin> set (dict_keys d)" using Cons.prems kv by (auto simp: lower_keys_def)
  show ?case
    using Cons.prems Cons.IH [of "d @ [(py_lower k, v)]"] kv
    by (simp add: set_raw_def is_default_def default_section_def section_dict_def dict_set_new [OF new] lower_keys_def)
qed (simp add: lower_keys_def)

lemma fold_peer:
  assumes "distinct (map fst (e @ lower_keys kvs))"
  shows "fold (\<lambda>(k, v). set_raw ''Peer'' (py_lower k) v) kvs \<lparr>defaults = [], sections = [(''Interface'', d), (''Peer'', e)]\<rparr>
    = \<lparr>defaults = [], sections = [(''Interface'', d), (''Peer'', e @ lower_keys kvs)]\<rparr>"
  using assms
proof (induction kvs arbitrary: e)
  case (Cons kv kvs)
  obtain k v where kv: "kv = (k, v)" by (cases kv)
  have new: "py_lower k \<notin> set (dict_keys e)" using Cons.prems kv by (auto simp: lower_keys_def)
  show ?case
    using Cons.prems Cons.IH [of "e @ [(py_lower k, v)]"] kv
    by (simp add: set_raw_def is_default_def default_section_def section_dict_def dict_set_new [OF new] lower_keys_def)
qed (simp add: lower_keys_def)

lemma wg_build:
  assumes "\<forall>(k, v) \<in> set (ifs @ ps). CHR ''%'' \<notin> set v"
    and "distinct (map fst (lower_keys ifs))" and "distinct (map fst (lower_keys ps))"
  shows "run_ini (thenP (set_all ''Interface'' ifs) (set_all ''Peer'' ps)) wg_empty s = (Inr ((), wg_ini ifs ps), s)"
proof -
  let ?c = "\<lparr>defaults = [], sections = [(''Interface'', lower_keys ifs), (''Peer'', [])]\<rparr>"
  have "set_all ''Interface'' ifs wg_empty = (Inr (), ?c)"
    using assms fold_interface [of "[]" ifs "[]"] unfolding wg_empty_def
    by (subst set_all_fold) (auto simp: is_default_def default_section_def has_section_def dict_has_def)
  moreover have "set_all ''Peer'' ps ?c = (Inr (), wg_ini ifs ps)"
    using assms fold_peer [of "[]" ps "lower_keys ifs"]
    by (subst set_all_fold) (auto simp: wg_ini_def is_default_def default_section_def has_section_def dict_has_def)
  ultimately show ?thesis by (simp add: run_ini_def)
qed

lemma wg_read:
  assumes "wf_dict (lower_keys ifs)" and "wf_dict (lower_keys ps)"
  shows "ini_read empty_ini (ini_write (wg_ini ifs ps)) = Inr (wg_ini ifs ps)"
  using assms
  by (intro ini_read_write)
    (simp add: wf_ini_def wg_ini_def wf_name_def is_default_def default_section_def wf_dict_def)

text \<open>The keys of the API section are one-line texts without percent signs.\<close>

definition wf_api :: "api_config \<Rightarrow> bool" where
  "wf_api api \<longleftrightarrow> plain_text (api_interfaceWgPrivateKey api) \<and> plain_text (api_interfaceWgPublicKey api) \<and>
     plain_text (api_peerWgPrivateKey api) \<and> plain_text (api_peerWgPublicKey api)"

lemma str_nat_ends [simp]: "\<not> py_space (hd (str_nat n))" "\<not> py_space (last (str_nat n))"
  using stripped_str_nat [of n] unfolding stripped_def by simp_all

lemma str_int_nat: "0 \<le> i \<Longrightarrow> str_int i = str_nat (nat i)"
  by (simp add: str_int_def)

lemma py_space_letters [simp]:
  "\<not> py_space CHR ''i''" "\<not> py_space CHR ''w''" "\<not> py_space CHR ''0''" "\<not> py_space CHR ''1''"
  "\<not> py_space CHR ''2''"
  by (simp_all add: py_space_def)

text \<open>An option that can be set, written and read back.\<close>

definition wg_option :: "string \<times> string \<Rightarrow> bool" where
  "wg_option kv \<longleftrightarrow> wf_key (py_lower (fst kv)) \<and> plain_text (snd kv)"

lemma wg_ini_ok:
  assumes "list_all wg_option ifs" and "list_all wg_option ps"
    and "distinct (map fst (lower_keys ifs))" and "distinct (map fst (lower_keys ps))"
  shows "run_ini (thenP (set_all ''Interface'' ifs) (set_all ''Peer'' ps)) wg_empty s = (Inr ((), wg_ini ifs ps), s)"
    and "ini_read empty_ini (ini_write (wg_ini ifs ps)) = Inr (wg_ini ifs ps)"
proof -
  have "\<forall>(k, v) \<in> set (ifs @ ps). CHR ''%'' \<notin> set v"
    using assms(1,2) by (fastforce simp: list_all_iff wg_option_def plain_text_def)
  then show "run_ini (thenP (set_all ''Interface'' ifs) (set_all ''Peer'' ps)) wg_empty s = (Inr ((), wg_ini ifs ps), s)"
    using assms(3,4) by (rule wg_build)
  have "list_all wg_option kvs \<Longrightarrow> distinct (map fst (lower_keys kvs)) \<Longrightarrow> wf_dict (lower_keys kvs)" for kvs
    by (auto simp: wf_dict_def lower_keys_def list_all_iff wg_option_def plain_text_def)
  with assms show "ini_read empty_ini (ini_write (wg_ini ifs ps)) = Inr (wg_ini ifs ps)"
    by (intro wg_read) auto
qed

lemma far_options:
  assumes "wf_api api"
  shows "list_all wg_option (far_interface api (str_nat n))" "list_all wg_option (far_peer api (str_nat n))"
proof -
  have "plain_text (far_ip (str_nat n) @ ''/32'')" "plain_text (near_ip (str_nat n) @ ''/32'')"
    by (simp_all add: plain_text_def wf_val_def stripped_def far_ip_def near_ip_def)
  moreover have "plain_text (''ufw route allow in on wg0 out on eth0; ufw default allow incoming; '' @
         ''sysctl -w net.ipv4.ip_forward=1; iptables -t nat -I POSTROUTING -o eth0 -j MASQUERADE'')"
    "plain_text (''ufw route delete allow in on wg0 out on eth0; '' @
         ''iptables -t nat -D POSTROUTING -o eth0 -j MASQUERADE'')" "plain_text ''1500''" "plain_text peer_wg_port"
    by code_simp+
  ultimately show "list_all wg_option (far_interface api (str_nat n))" "list_all wg_option (far_peer api (str_nat n))"
    using assms by (simp_all add: far_interface_def far_peer_def wf_api_def wg_option_def)
qed

lemma near_options:
  assumes "wf_api api" and "plain_text ip" and "one_line name" and "CHR ''%'' \<notin> set name"
  shows "list_all wg_option (near_interface api (str_nat n) name (int n))"
    and "list_all wg_option (near_peer api (str_nat n) (Some ip))"
proof -
  have v: "plain_text (far_ip (str_nat n) @ ''/32'')" "plain_text (near_ip (str_nat n) @ ''/32'')"
    "plain_text (''ip rule del table '' @ str_nat n)"
    by (simp_all add: plain_text_def wf_val_def stripped_def far_ip_def near_ip_def)
  have c: "plain_text ''1500''" "plain_text ''25''" by code_simp+
  have e: "ip \<noteq> [] \<Longrightarrow> plain_text (ip @ '':'' @ peer_wg_port)"
    using assms(2) by (simp add: plain_text_def wf_val_def stripped_def peer_wg_port_def)
  have "one_line (api_peerWgPublicKey api)" "CHR ''%'' \<notin> set (api_peerWgPublicKey api)"
    using assms(1) by (simp_all add: wf_api_def plain_text_def wf_val_def)
  then have u: "plain_text (''ip rule add from '' @ near_ip (str_nat n) @ '' table '' @ str_nat n @
         ''; ip route add default via 10.0.'' @ str_nat n @ ''.1 dev '' @ interface_name (str_nat n) name @
         '' table '' @ str_nat n @ ''; wg set '' @ interface_name (str_nat n) name @ '' peer '' @
         api_peerWgPublicKey api @ '' allowed-ips 0.0.0.0/0'')"
    "plain_text (''wg set '' @ interface_name (str_nat n) name @ '' peer '' @ api_peerWgPublicKey api @
         '' allowed-ips '' @ far_ip (str_nat n) @ ''/32'')"
    using assms(3,4)
    by (simp_all add: plain_text_def wf_val_def stripped_def near_ip_def far_ip_def interface_name_def)
  have p: "plain_text (str_int (wgPortBase + int n))"
    by (simp add: plain_text_def str_int_nat wgPortBase_def)
  show "list_all wg_option (near_interface api (str_nat n) name (int n))"
    using assms(1) v(2,3) c(1) u p by (simp add: near_interface_def wf_api_def wg_option_def Let_def)
  show "list_all wg_option (near_peer api (str_nat n) (Some ip))"
    using assms(1) v(1) c(2) e by (simp add: near_peer_def wf_api_def wg_option_def)
qed

lemma far_distinct:
  "distinct (map fst (lower_keys (far_interface api order)))" "distinct (map fst (lower_keys (far_peer api order)))"
  by (simp_all add: far_interface_def far_peer_def lower_keys_def)

lemma near_distinct:
  "distinct (map fst (lower_keys (near_interface api order name n)))"
  "distinct (map fst (lower_keys (near_peer api order (Some ip))))"
  by (simp_all add: near_interface_def near_peer_def lower_keys_def Let_def)

definition far_ini :: "api_config \<Rightarrow> string \<Rightarrow> ini" where
  "far_ini api order = wg_ini (far_interface api order) (far_peer api order)"

definition near_ini :: "api_config \<Rightarrow> string \<Rightarrow> string \<Rightarrow> int \<Rightarrow> string \<Rightarrow> ini" where
  "near_ini api order name n ip = wg_ini (near_interface api order name n) (near_peer api order (Some ip))"

lemma far_ini_ok:
  assumes "wf_api api"
  shows "run_ini (thenP (set_all ''Interface'' (far_interface api (str_nat n)))
                        (set_all ''Peer'' (far_peer api (str_nat n)))) wg_empty s = (Inr ((), far_ini api (str_nat n)), s)"
    and "ini_read empty_ini (ini_write (far_ini api (str_nat n))) = Inr (far_ini api (str_nat n))"
  unfolding far_ini_def
  by (rule wg_ini_ok [OF far_options [OF assms] far_distinct])+

lemma near_ini_ok:
  assumes "wf_api api" and "plain_text ip" and "one_line name" and "CHR ''%'' \<notin> set name"
  shows "run_ini (thenP (set_all ''Interface'' (near_interface api (str_nat n) name (int n)))
                        (set_all ''Peer'' (near_peer api (str_nat n) (Some ip)))) wg_empty s
      = (Inr ((), near_ini api (str_nat n) name (int n) ip), s)"
    and "ini_read empty_ini (ini_write (near_ini api (str_nat n) name (int n) ip)) =
      Inr (near_ini api (str_nat n) name (int n) ip)"
  unfolding near_ini_def
  by (rule wg_ini_ok [OF near_options [OF assms] near_distinct])+

text \<open>Where the keys of the two files come from, and how they meet.\<close>

lemma ends_meet:
  assumes "ip \<noteq> []"
  shows "visible (near_ini api order name n ip) ''Interface'' ''address'' =
      visible (far_ini api order) ''Peer'' ''allowedips''"
    and "visible (near_ini api order name n ip) ''Peer'' ''allowedips'' =
      visible (far_ini api order) ''Interface'' ''address''"
    and "visible (near_ini api order name n ip) ''Interface'' ''privatekey'' = Some (api_interfaceWgPrivateKey api)"
    and "visible (far_ini api order) ''Peer'' ''publickey'' = Some (api_interfaceWgPublicKey api)"
    and "visible (far_ini api order) ''Interface'' ''privatekey'' = Some (api_peerWgPrivateKey api)"
    and "visible (near_ini api order name n ip) ''Peer'' ''publickey'' = Some (api_peerWgPublicKey api)"
    and "visible (near_ini api order name n ip) ''Peer'' ''endpoint'' =
      map_option (\<lambda>port. ip @ '':'' @ port) (visible (far_ini api order) ''Interface'' ''listenport'')"
    and "visible (near_ini api order name n ip) ''Interface'' ''listenport'' = Some (str_int (40000 + n))"
  using assms
  by (simp_all add: near_ini_def far_ini_def wg_ini_def visible_def section_dict_def lower_keys_def
      near_interface_def near_peer_def far_interface_def far_peer_def Let_def wgPortBase_def)

lemma frame_3proxy:
  "p \<noteq> ''profile_config/'' @ pn @ ''/proxy_'' @ pn @ ''.cfg'' \<Longrightarrow> complete ld name a \<Longrightarrow>
     pn = profile_name (ac_order a) name \<Longrightarrow>
     generate_3proxy_config os name ld s = (Inr ld', s') \<Longrightarrow> files s' p = files s p \<and> ld' = ld"
  by (auto simp: generate_3proxy_config_def load_aws_complete Let_def bindP_eq_Inr thenP_eq_Inr
      ext_op_def split: prod.splits dest!: write_file_Inr)

lemma frame_shadowsocks:
  "hd p \<noteq> CHR ''/'' \<Longrightarrow> complete ld name a \<Longrightarrow>
     generate_shadowsocks_config os name ld s = (Inr ld', s') \<Longrightarrow> files s' p = files s p \<and> ld' = ld"
  by (auto simp: generate_shadowsocks_config_def bindP_eq_Inr load_aws_complete Let_def thenP_eq_Inr opt_path_def
      split: if_splits dest!: write_file_Inr)

lemma path_shapes:
  "hd (near_path order name) = CHR ''p''" "last (near_path order name) = CHR ''f''"
  "near_path order name \<noteq> conf_path" "near_path order name \<noteq> app_path n"
  "near_path order name \<noteq> opt_path order name @ ''/wg0.conf''"
  "near_path order name \<noteq> ''profile_config/'' @ pn @ ''/proxy_'' @ pn @ ''.cfg''"
proof -
  show "hd (near_path order name) = CHR ''p''" "last (near_path order name) = CHR ''f''"
    by (simp_all add: near_path_def)
  then have "last (near_path order name) \<noteq> last (''profile_config/'' @ pn @ ''/proxy_'' @ pn @ ''.cfg'')"
    by simp
  then show "near_path order name \<noteq> ''profile_config/'' @ pn @ ''/proxy_'' @ pn @ ''.cfg''"
    by metis
qed (simp_all add: near_path_def conf_path_def app_path_def opt_path_def)

lemma near_generated:
  assumes "complete ld name a" and "ac_order a = str_nat n" and "wf_api (api_cfg ld)"
    and "plain_text ip" and "one_line name" and "CHR ''%'' \<notin> set name"
    and "generate_profile_config os name (Some ip) ld s = (Inr ld', s')"
  shows "ld' = ld \<and> files s' (near_path (str_nat n) name) =
    Some (ini_write (near_ini (api_cfg ld) (str_nat n) name (int n) ip))"
proof -
  let ?p = "near_path (str_nat n) name"
  let ?m = "thenP (set_all ''Interface'' (near_interface (api_cfg ld) (str_nat n) name (int n)))
    (set_all ''Peer'' (near_peer (api_cfg ld) (str_nat n) (Some ip)))"
  obtain c s0 s1 s2 s3 u ld2 where r: "run_ini ?m wg_empty s = (Inr ((), c), s0)"
    and w': "write_file os ?p (ini_write c) s1 = (Inr u, s2)"
    and g: "generate_3proxy_config os name ld s2 = (Inr ld2, s3)" "generate_shadowsocks_config os name ld2 s3 = (Inr ld', s')"
    using assms(2,7) unfolding generate_profile_config_def Let_def
    by (auto simp: bindP_eq_Inr thenP_eq_Inr load_aws_complete [OF assms(1)])
  have w: "write_file os ?p (ini_write (near_ini (api_cfg ld) (str_nat n) name (int n) ip)) s1 = (Inr u, s2)"
    using r w' by (simp add: near_ini_ok(1) [OF assms(3-6)])
  have 2: "files s3 ?p = files s2 ?p" "ld2 = ld"
    using frame_3proxy [OF path_shapes(6) assms(1) refl g(1), of "str_nat n" name] assms(2) by auto
  have 3: "files s' ?p = files s3 ?p" "ld' = ld"
    using frame_shadowsocks [OF _ assms(1), of ?p os s3 ld' s'] g(2) 2(2) path_shapes(1) by auto
  show ?thesis using write_file_Inr [OF w] 2 3 by simp
qed

lemma far_generated:
  assumes "complete ld name a" and "ac_order a = str_nat n" and "wf_api (api_cfg ld)"
    and "generate_peer_config os ufw name ld s = (Inr (t, ld'), s')"
  shows "ld' = ld \<and> files s' (opt_path (str_nat n) name @ ''/wg0.conf'') =
      Some (ini_write (far_ini (api_cfg ld) (str_nat n))) \<and>
    t = universal_newlines (ini_write (far_ini (api_cfg ld) (str_nat n))) \<and>
    files s' (near_path (str_nat n) name) = files s (near_path (str_nat n) name)"
proof -
  let ?p = "near_path (str_nat n) name" and ?q = "opt_path (str_nat n) name @ ''/wg0.conf''"
  let ?f = "ini_write (far_ini (api_cfg ld) (str_nat n))"
  let ?m = "thenP (set_all ''Interface'' (far_interface (api_cfg ld) (str_nat n)))
    (set_all ''Peer'' (far_peer (api_cfg ld) (str_nat n)))"
  obtain c s0 s1 s2 s3 u v x where
    f: "attempt (install_firewall os ufw name) s = (Inr u, s1)"
    and r0: "run_ini ?m wg_empty s1 = (Inr ((), c), s0)"
    and m': "ext_op (os_makedirs os (opt_path (str_nat n) name)) s0 = (Inr v, s2)"
    and w': "write_file os ?q (ini_write c) s2 = (Inr x, s3)"
    and r: "read_text ?q s3 = (Inr t, s')" and ld: "ld' = ld"
    using assms(2,4) unfolding generate_peer_config_def Let_def
    by (auto simp: bindP_eq_Inr thenP_eq_Inr load_aws_complete [OF assms(1)])
  have w: "write_file os ?q ?f s2 = (Inr x, s3)" and m: "ext_op (os_makedirs os (opt_path (str_nat n) name)) s1 = (Inr v, s2)"
    using r0 w' m' by (simp_all add: far_ini_ok(1) [OF assms(3)])
  have "keeps (frame ?p (files s ?p)) (attempt (install_firewall os ufw name))"
    unfolding install_firewall_def by (intro keeps_intros path_shapes)
  from frameD [OF this f] have "files s1 ?p = files s ?p" .
  moreover have "files s2 = files s1" using m by (auto simp: ext_op_def split: prod.splits)
  moreover have s3: "files s3 = (files s2)(?q := Some ?f)" by (rule write_file_Inr [OF w])
  moreover have "s' = s3" "t = universal_newlines ?f"
    using r s3 by (simp_all add: read_text_def)
  ultimately show ?thesis using ld path_shapes(5) by simp
qed

text \<open>When nothing is refused, everything is generated.\<close>

definition os_fine :: "'w os_api \<Rightarrow> bool" where
  "os_fine os \<longleftrightarrow> (\<forall>p. can_write os p) \<and> (\<forall>p w. fst (os_makedirs os p w) = Inr ())"

lemma makedirs_fine: "os_fine os \<Longrightarrow> \<exists>w. ext_op (os_makedirs os p) s = (Inr (), s\<lparr>ext := w\<rparr>)"
  unfolding os_fine_def ext_op_def by (metis (mono_tags, lifting) case_prod_conv prod.collapse)

lemma write_fine: "os_fine os \<Longrightarrow> \<exists>s'. write_file os p t s = (Inr (), s')"
  by (simp add: os_fine_def write_file_ok)

lemma complete_gets:
  assumes "complete ld name a" and "proper_section (config ld) name"
  shows "ini_get (config ld) name ''user'' = Inr (ac_user a)" "ini_get (config ld) name ''pass'' = Inr (ac_pass a)"
  using load_aws_config_eq [OF assms(2)] assms(1) unfolding complete_def by metis+

lemma threeproxy_total:
  assumes "os_fine os" and "complete ld name a" and "py_int (ac_order a) = Inr n"
  shows "\<exists>s'. generate_3proxy_config os name ld s = (Inr ld, s')"
proof -
  let ?d = "''profile_config/'' @ profile_name (ac_order a) name"
  obtain w where w: "ext_op (os_makedirs os ?d) s = (Inr (), s\<lparr>ext := w\<rparr>)" using makedirs_fine [OF assms(1)] by blast
  obtain s' where "write_file os (?d @ ''/proxy_'' @ profile_name (ac_order a) name @ ''.cfg'')
      (proxy_text (profile_name (ac_order a) name) n (ac_order a) (ac_user a) (ac_pass a)) (s\<lparr>ext := w\<rparr>) = (Inr (), s')"
    using write_fine [OF assms(1)] by blast
  with w show ?thesis
    using assms(3) by (simp add: generate_3proxy_config_def load_aws_complete [OF assms(2)] Let_def)
qed

lemma shadowsocks_total:
  assumes "os_fine os" and "complete ld name a" and "py_int (ac_order a) = Inr n"
    and "proper_section (config ld) name"
  shows "\<exists>s'. generate_shadowsocks_config os name ld s = (Inr ld, s')"
proof -
  let ?auth = "ac_user a \<noteq> [] \<and> ac_pass a \<noteq> []" and ?p = "opt_path (ac_order a) name"
  obtain s1 where s1: "(if ?auth then write_file os (?p @ ''/auth.json'') (dumps (auth_doc (ac_user a) (ac_pass a)))
      else ret ()) s = (Inr (), s1)"
    using write_fine [OF assms(1)] by (cases ?auth) (simp_all, blast)
  obtain s2 where "write_file os (?p @ ''/shadowsocks.json'') (dumps (ss_doc (api_interfaceWgPrivateKey (api_cfg ld)) n
      (if ?auth then Some (?p @ ''/auth.json'') else None))) s1 = (Inr (), s2)"
    using write_fine [OF assms(1)] by blast
  then show ?thesis
    using s1 assms(3)
    by (simp add: generate_shadowsocks_config_def complete_gets [OF assms(2,4)] load_aws_complete [OF assms(2)] Let_def)
qed

lemma profile_config_total:
  assumes "os_fine os" and "complete ld name a" and "ac_order a = str_nat n" and "wf_api (api_cfg ld)"
    and "plain_text ip" and "one_line name" and "CHR ''%'' \<notin> set name" and "proper_section (config ld) name"
  shows "\<exists>s'. generate_profile_config os name (Some ip) ld s = (Inr ld, s')"
proof -
  let ?d = "''profile_config/'' @ profile_name (str_nat n) name"
    and ?f = "ini_write (near_ini (api_cfg ld) (str_nat n) name (int n) ip)"
  obtain w where w: "ext_op (os_makedirs os ?d) s = (Inr (), s\<lparr>ext := w\<rparr>)" using makedirs_fine [OF assms(1)] by blast
  obtain s1 where s1: "write_file os (near_path (str_nat n) name) ?f (s\<lparr>ext := w\<rparr>) = (Inr (), s1)"
    using write_fine [OF assms(1)] by blast
  have n: "py_int (ac_order a) = Inr (int n)" by (simp add: assms(3))
  obtain s2 where s2: "generate_3proxy_config os name ld s1 = (Inr ld, s2)"
    using threeproxy_total [OF assms(1,2) n] by blast
  obtain s3 where "generate_shadowsocks_config os name ld s2 = (Inr ld, s3)"
    using shadowsocks_total [OF assms(1,2) n assms(8)] by blast
  then show ?thesis
    using w s1 s2 assms(3)
    by (simp add: generate_profile_config_def load_aws_complete [OF assms(2)] Let_def near_ini_ok(1) [OF assms(4-7)])
qed

lemma peer_config_total:
  assumes "os_fine os" and "complete ld name a" and "ac_order a = str_nat n" and "wf_api (api_cfg ld)"
  shows "\<exists>t s'. generate_peer_config os ufw name ld s = (Inr (t, ld), s')"
proof -
  let ?q = "opt_path (str_nat n) name" and ?f = "ini_write (far_ini (api_cfg ld) (str_nat n))"
  obtain s1 where s1: "attempt (install_firewall os ufw name) s = (Inr (), s1)" by (simp add: attempt_apply)
  obtain w where w: "ext_op (os_makedirs os ?q) s1 = (Inr (), s1\<lparr>ext := w\<rparr>)" using makedirs_fine [OF assms(1)] by blast
  obtain s2 where s2: "write_file os (?q @ ''/wg0.conf'') ?f (s1\<lparr>ext := w\<rparr>) = (Inr (), s2)"
    using write_fine [OF assms(1)] by blast
  have "read_text (?q @ ''/wg0.conf'') s2 = (Inr (universal_newlines ?f), s2)"
    using write_file_Inr [OF s2] by (simp add: read_text_def)
  then show ?thesis
    using s1 w s2 assms(3)
    by (simp add: generate_peer_config_def load_aws_complete [OF assms(2)] Let_def far_ini_ok(1) [OF assms(4)])
qed

lemma tunnel_generated:
  assumes "os_fine os" and "complete ld name a" and "proper_section (config ld) name" and "ac_order a = str_nat n"
    and "wf_api (api_cfg ld)" and "plain_text ip" and "one_line name" and "CHR ''%'' \<notin> set name"
  obtains s1 t s2 where "generate_profile_config os name (Some ip) ld s = (Inr ld, s1)"
    and "generate_peer_config os ufw name ld s1 = (Inr (t, ld), s2)"
    and "files s2 (near_path (str_nat n) name) = Some (ini_write (near_ini (api_cfg ld) (str_nat n) name (int n) ip))"
    and "files s2 (opt_path (str_nat n) name @ ''/wg0.conf'') = Some (ini_write (far_ini (api_cfg ld) (str_nat n)))"
proof -
  obtain s1 where g1: "generate_profile_config os name (Some ip) ld s = (Inr ld, s1)"
    using profile_config_total [OF assms(1,2,4-6,7,8,3)] by blast
  obtain t s2 where g2: "generate_peer_config os ufw name ld s1 = (Inr (t, ld), s2)"
    using peer_config_total [OF assms(1,2,4,5)] by blast
  show ?thesis
    using near_generated [OF assms(2,4-6,7,8) g1] far_generated [OF assms(2,4,5) g2] by (intro that [OF g1 g2]) simp_all
qed

text \<open>C13: the two ends of the tunnel that a task generates fit together. For a loaded profile
  and a system that refuses no write both methods return, and the two files then read back
  as WireGuard configurations in which each end's own address is the only one the other
  end lets through, each end holds its own private key and the other's public key, and the
  near end dials the new address at the port on which the far end listens.\<close>

theorem tunnel_ends_match:
  assumes "os_fine os" and "complete ld name a" and "proper_section (config ld) name" and "ac_order a = str_nat n"
    and "wf_api (api_cfg ld)" and "plain_text ip" and "ip \<noteq> []" and "one_line name" and "CHR ''%'' \<notin> set name"
  shows "\<exists>s1 t s2 tn tf near far.
    generate_profile_config os name (Some ip) ld s = (Inr ld, s1) \<and>
    generate_peer_config os ufw name ld s1 = (Inr (t, ld), s2) \<and>
    files s2 (near_path (str_nat n) name) = Some tn \<and> ini_read empty_ini tn = Inr near \<and>
    files s2 (opt_path (str_nat n) name @ ''/wg0.conf'') = Some tf \<and> ini_read empty_ini tf = Inr far \<and>
    visible near ''Interface'' ''address'' = visible far ''Peer'' ''allowedips'' \<and>
    visible near ''Peer'' ''allowedips'' = visible far ''Interface'' ''address'' \<and>
    visible near ''Interface'' ''privatekey'' = Some (api_interfaceWgPrivateKey (api_cfg ld)) \<and>
    visible far ''Peer'' ''publickey'' = Some (api_interfaceWgPublicKey (api_cfg ld)) \<and>
    visible far ''Interface'' ''privatekey'' = Some (api_peerWgPrivateKey (api_cfg ld)) \<and>
    visible near ''Peer'' ''publickey'' = Some (api_peerWgPublicKey (api_cfg ld)) \<and>
    visible near ''Peer'' ''endpoint'' = map_option (\<lambda>port. ip @ '':'' @ port) (visible far ''Interface'' ''listenport'') \<and>
    visible near ''Interface'' ''listenport'' = Some (str_int (40000 + int n))"
proof -
  obtain s1 t s2 where "generate_profile_config os name (Some ip) ld s = (Inr ld, s1)"
    "generate_peer_config os ufw name ld s1 = (Inr (t, ld), s2)"
    "files s2 (near_path (str_nat n) name) = Some (ini_write (near_ini (api_cfg ld) (str_nat n) name (int n) ip))"
    "files s2 (opt_path (str_nat n) name @ ''/wg0.conf'') = Some (ini_write (far_ini (api_cfg ld) (str_nat n)))"
    by (rule tunnel_generated [OF assms(1-6,8,9)])
  then show ?thesis
    using near_ini_ok(2) [OF assms(5,6,8,9)] far_ini_ok(2) [OF assms(5)] ends_meet [OF assms(7)]
    by (intro exI [of _ s1] exI [of _ t] exI [of _ s2]
        exI [of _ "ini_write (near_ini (api_cfg ld) (str_nat n) name (int n) ip)"]
        exI [of _ "ini_write (far_ini (api_cfg ld) (str_nat n))"]
        exI [of _ "near_ini (api_cfg ld) (str_nat n) name (int n) ip"]
        exI [of _ "far_ini (api_cfg ld) (str_nat n)"]) simp
qed

text \<open>The loader of the demonstration file.\<close>

definition full_loader :: loader where
  "full_loader = demo_loader\<lparr>config := renumber 1 (dict_keys (sections demo_ini)) demo_ini\<rparr>"

lemma full_loader_facts:
  "complete full_loader ''acc2'' (profile_of (config full_loader) ''acc2'')"
  "proper_section (config full_loader) ''acc2''"
  "ac_order (profile_of (config full_loader) ''acc2'') = str_nat 2"
proof -
  have "1 < length (profiles demo_ini)" "''acc2'' = profiles demo_ini ! 1" by code_simp+
  note l = loaded_profile [OF conf_ready_demo this(1), OF _ this(2), of "config full_loader"]
  have c: "config full_loader = renumber 1 (dict_keys (sections demo_ini)) demo_ini" by (simp add: full_loader_def)
  show "complete full_loader ''acc2'' (profile_of (config full_loader) ''acc2'')"
    unfolding complete_def by (rule l(2) [OF c])
  show "proper_section (config full_loader) ''acc2''" by (rule l(1) [OF c])
  show "ac_order (profile_of (config full_loader) ''acc2'') = str_nat 2" using l(3) [OF c] by simp
qed

lemma full_loader_api: "wf_api (api_cfg full_loader)"
  by code_simp

lemma os_fine_demo: "os_fine demo_os"
  by (simp add: os_fine_def can_write_def demo_os_def)

definition quiet_ufw :: "unit ufw_api" where
  "quiet_ufw = \<lparr>ufw_status = (\<lambda>w. (Inr (Some []), w)), ufw_delete = (\<lambda>i w. (Inr (), w))\<rparr>"

theorem tunnel_ends_match_witness:
  "\<exists>s1 t s2. generate_profile_config demo_os ''acc2'' (Some ''5.6.7.8'') full_loader demo_sys = (Inr full_loader, s1) \<and>
    generate_peer_config demo_os quiet_ufw ''acc2'' full_loader s1 = (Inr (t, full_loader), s2)"
proof -
  have "plain_text ''5.6.7.8''" "''5.6.7.8'' \<noteq> []" "one_line ''acc2''" "CHR ''%'' \<notin> set ''acc2''" by code_simp+
  from tunnel_ends_match [OF os_fine_demo full_loader_facts full_loader_api this]
  show ?thesis by blast
qed

end
