(* ===== verification/Tasks.thy ===== *)
theory Tasks
  imports Cloud Remote GeneratorProps
begin

section \<open>The tasks\<close>

text \<open>
  The class \<open>RunTask\<close> of \<open>functions/run.py\<close>: changing the region, the address, the
  whitelist and the credentials of a profile, and resetting it. Each task is one
  sequence over all the other components; whatever is raised in it becomes a result
  with the status \<open>failed\<close>. The record \<open>env\<close> gathers the outside interfaces;
  \<open>e_rounds\<close> bounds the pages of instance types (see \<open>Cloud\<close>).
\<close>

record 'w env =
  e_os :: "'w os_api"
  e_ufw :: "'w ufw_api"
  e_net :: "'w net_api"
  e_cloud :: "'w cloud_api"
  e_ssh :: "'w ssh_api"
  e_svc :: "'w svc_api"
  e_rounds :: nat

text \<open>The keyword arguments of a task; the ones a task does not use are \<open>None\<close>.\<close>

record task_args =
  ta_config_name :: string
  ta_new_region :: "string option"
  ta_new_whitelist :: "string option"
  ta_new_user :: "string option"
  ta_new_pass :: "string option"

record run_task =
  rt_config :: loader
  rt_key_path :: string

definition mk_run_task :: "'w env \<Rightarrow> ('w sys, run_task) prog" where
  "mk_run_task env =
     bindP (ConfigLoader (e_os env)) (\<lambda>ld.
     ret \<lparr>rt_config = ld, rt_key_path = api_sshKeyPath (api_cfg ld)\<rparr>)"

definition basesocks_port :: int where
  "basesocks_port = 50000"

definition result :: "string \<Rightarrow> json \<Rightarrow> json" where
  "result status data = JObj [(''status'', JStr status), (''data'', data)]"

text \<open>\<open>except Exception as e: return {"status": "failed", "data": str(e)}\<close>.\<close>

definition task_body :: "('w sys, json) prog \<Rightarrow> ('w sys, json) prog" where
  "task_body m = tryP m (\<lambda>e. ret (result ''failed'' (JErr e)))"

text \<open>Up to five probes through the proxy until the answer is as wanted; the outcome is not used.\<close>

definition await_proxy :: "'w env \<Rightarrow> socks5 \<Rightarrow> (string \<Rightarrow> bool) \<Rightarrow> ('w sys, unit) prog" where
  "await_proxy env p wanted =
     bindP (attempts 5 (bindP (get_external_ip (e_net env) p) (\<lambda>ip.
       if wanted ip then ret () else raise (PlainException ''not ready'')))) (\<lambda>_. ret ())"

definition local_wg_path :: "string \<Rightarrow> string \<Rightarrow> string" where
  "local_wg_path order name = opt_path order name @ ''/wg0.conf''"

definition mk_host :: "run_task \<Rightarrow> string \<Rightarrow> string \<Rightarrow> string \<Rightarrow> host" where
  "mk_host rt ip order name =
     \<lparr>h_host = ip, h_user = ''ubuntu'', h_key = rt_key_path rt, h_local = local_wg_path order name,
      h_remote = ''/etc/wireguard/wg0.conf'', h_ssh = None\<rparr>"

definition prepare_host :: "'w env \<Rightarrow> host \<Rightarrow> ('w sys, unit) prog" where
  "prepare_host env h = bindP (host_login (e_ssh env) h) (host_setup (e_ssh env))"

definition change_region :: "'w env \<Rightarrow> run_task \<Rightarrow> task_args \<Rightarrow> ('w sys, json) prog" where
  "change_region env rt args = task_body (
     let os = e_os env; api = e_cloud env; name = ta_config_name args in
     bindP (ConfigLoader os) (\<lambda>config.
     case ta_new_region args of
       None \<Rightarrow> ret (result ''failed'' (JObj [(''message'', JStr ''New region is not provided'')]))
     | Some new_region \<Rightarrow>
         bindP (load_aws name config) (\<lambda>(a, config1).
         if ac_region a = new_region
         then ret (result ''failed'' (JObj [(''message'', JStr ''New region is the same as the old region'')]))
         else
           bindP (bindP (mk_aws os name) (login api)) (\<lambda>aw.
           bindP (terminate_instance os api aw) (\<lambda>_.
           bindP (loader_change_region os name new_region (rt_config rt)) (\<lambda>_.
           bindP (bindP (mk_aws os name) (login api)) (\<lambda>aw1.
           bindP (launch_instance (e_rounds env) os api aw1) (\<lambda>aw2.
           bindP (get_instance_address api aw2) (\<lambda>aws_ip.
           let order = ac_order (aw_config aw2) in
           bindP (generate_profile_config os name (Some aws_ip) config1) (\<lambda>config2.
           bindP (generate_peer_config os (e_ufw env) name config2) (\<lambda>(_, config3).
           thenP (prepare_host env (mk_host rt aws_ip order name)) (
           thenP (restart_iprotate_service (e_svc env) (profile_name order name)) (
           bindP (of_sum (py_int order)) (\<lambda>n.
           thenP (await_proxy env
                    (mk_socks5 (api_publicip (api_cfg config3)) (basesocks_port + n)
                       (ac_user (aw_config aw2)) (ac_pass (aw_config aw2)))
                    (\<lambda>ip. ip = aws_ip))
             (ret (result ''success'' (JObj [(''old_region'', JStr (ac_region a)),
                (''new_region'', JStr new_region), (''new_ip'', JStr aws_ip)])))))))))))))))))"

definition new_ip_json :: "string option \<times> string \<Rightarrow> json" where
  "new_ip_json r = JObj [(''old_ip'', json_opt (fst r)), (''new_ip'', JStr (snd r))]"

definition change_ip :: "'w env \<Rightarrow> run_task \<Rightarrow> task_args \<Rightarrow> ('w sys, json) prog" where
  "change_ip env rt args = task_body (
     let os = e_os env; api = e_cloud env; name = ta_config_name args in
     bindP (bindP (mk_aws os name) (login api)) (\<lambda>aw.
     bindP (ConfigLoader os) (\<lambda>config.
     bindP (get_new_ip (e_rounds env) os api aw) (\<lambda>(ips, aw1).
     let aws_ip = snd ips; order = ac_order (aw_config aw1) in
     bindP (generate_profile_config os name (Some aws_ip) config) (\<lambda>config1.
     bindP (generate_peer_config os (e_ufw env) name config1) (\<lambda>(_, config2).
     thenP (prepare_host env (mk_host rt aws_ip order name)) (
     thenP (attempt (service_stop (e_svc env) (profile_name order name))) (
     thenP (restart_iprotate_service (e_svc env) (profile_name order name)) (
     bindP (of_sum (py_int order)) (\<lambda>n.
     thenP (await_proxy env
              (mk_socks5 (api_publicip (api_cfg config2)) (basesocks_port + n)
                 (ac_user (aw_config aw1)) (ac_pass (aw_config aw1)))
              (\<lambda>ip. ip = aws_ip))
       (ret (result ''success'' (new_ip_json ips)))))))))))))"

definition change_whitelist :: "'w env \<Rightarrow> run_task \<Rightarrow> task_args \<Rightarrow> ('w sys, json) prog" where
  "change_whitelist env rt args = task_body (
     let os = e_os env; name = ta_config_name args in
     bindP (ConfigLoader os) (\<lambda>config.
     bindP (set_value name ''whitelist'' (ta_new_whitelist args) config) (\<lambda>config1.
     thenP (write_changes os config1 name) (
     thenP (install_firewall os (e_ufw env) name)
       (ret (result ''success'' (JObj [(''new_whitelist'', json_opt (ta_new_whitelist args))])))))))"

definition reset_settings :: "(string \<times> string) list" where
  "reset_settings = [(''region'', ''us-east-2''), (''whitelist'', []), (''instanceid'', []), (''user'', []), (''pass'', [])]"

definition reset_profile :: "'w env \<Rightarrow> run_task \<Rightarrow> task_args \<Rightarrow> ('w sys, json) prog" where
  "reset_profile env rt args = task_body (
     let os = e_os env; api = e_cloud env; name = ta_config_name args in
     bindP (bindP (mk_aws os name) (login api)) (\<lambda>aw.
     bindP (terminate_instance os api aw) (\<lambda>_.
     bindP (ConfigLoader os) (\<lambda>config.
     bindP (foldP (\<lambda>(k, v) ld. set_value name k (Some v) ld) reset_settings config) (\<lambda>config1.
     thenP (write_changes os config1 name)
       (ret (result ''success'' (JStr ''config reset''))))))))"

definition change_auth :: "'w env \<Rightarrow> run_task \<Rightarrow> task_args \<Rightarrow> ('w sys, json) prog" where
  "change_auth env rt args = task_body (
     let os = e_os env; name = ta_config_name args in
     bindP (mk_aws os name) (\<lambda>aw.
     let order = ac_order (aw_config aw); svc = profile_name order name in
     bindP (ConfigLoader os) (\<lambda>config.
     bindP (set_value name ''user'' (ta_new_user args) config) (\<lambda>config1.
     bindP (set_value name ''pass'' (ta_new_pass args) config1) (\<lambda>config2.
     thenP (write_changes os config2 name) (
     bindP (generate_3proxy_config os name config2) (\<lambda>config3.
     bindP (generate_shadowsocks_config os name config3) (\<lambda>config4.
     thenP (service_stop (e_svc env) svc) (
     bindP (of_sum (py_int order)) (\<lambda>n.
     thenP (service_start (e_svc env) svc) (
     thenP (await_proxy env
              (mk_socks5 (api_publicip (api_cfg config4)) (basesocks_port + n)
                 (case ta_new_user args of None \<Rightarrow> [] | Some u \<Rightarrow> u) (case ta_new_pass args of None \<Rightarrow> [] | Some p \<Rightarrow> p))
              (\<lambda>ip. ip \<noteq> []))
       (ret (result ''success'' (JObj [(''new_user'', json_opt (ta_new_user args)),
          (''new_pass'', json_opt (ta_new_pass args))]))))))))))))))"

text \<open>\<open>getattr(task, task_type)\<close>, called; the data attributes are no functions.\<close>

definition task_method :: "'w env \<Rightarrow> run_task \<Rightarrow> string \<Rightarrow> task_args \<Rightarrow> ('w sys, json) prog" where
  "task_method env rt ty args =
     (if ty = ''change_region'' then change_region env rt args
      else if ty = ''change_ip'' then change_ip env rt args
      else if ty = ''change_whitelist'' then change_whitelist env rt args
      else if ty = ''reset'' then reset_profile env rt args
      else if ty = ''change_auth'' then change_auth env rt args
      else if ty \<in> {''config'', ''key_path'', ''username'', ''basesocks_port''}
      then raise (TypeError ''object is not callable'')
      else raise (AttributeError ty))"

end
