(* ===== verification/Manager.thy ===== *)
theory Manager
  imports Tasks
begin

section \<open>The task manager\<close>

text \<open>
  The class \<open>TaskManager\<close> of \<open>functions/task_manager.py\<close>: the table of profiles with
  their status, and the run of one task between \<open>set_start_task\<close> and
  \<open>set_stop_task\<close>. A dictionary whose keys come and go is a record with options here:
  \<open>None\<close> for a key that is not there.
\<close>

record profile =
  pf_config_name :: string
  pf_status :: string
  pf_region :: "string option"
  pf_last_task :: "(string, json) dict"
  pf_current_task :: "string option option"
  pf_start_time :: "string option option"

type_synonym manager = "(string, profile) dict"

record job =
  jb_type :: string
  jb_args :: task_args

text \<open>The job of a type for a profile, with no further arguments.\<close>

definition named_job :: "string \<Rightarrow> string \<Rightarrow> job" where
  "named_job ty n = \<lparr>jb_type = ty, jb_args = \<lparr>ta_config_name = n, ta_new_region = None,
     ta_new_whitelist = None, ta_new_user = None, ta_new_pass = None\<rparr>\<rparr>"

text \<open>The whole server: the system, the table, and the threads that wait to run.\<close>

record 'w server =
  sv_sys :: "'w sys"
  sv_tasks :: manager
  sv_threads :: "job list"

definition on_sys :: "('w sys, 'a) prog \<Rightarrow> ('w server, 'a) prog" where
  "on_sys m = (\<lambda>s. case m (sv_sys s) of (r, y) \<Rightarrow> (r, s\<lparr>sv_sys := y\<rparr>))"

definition set_profile :: "string \<Rightarrow> profile \<Rightarrow> ('w server, unit) prog" where
  "set_profile name p = modify (\<lambda>s. s\<lparr>sv_tasks := dict_set name p (sv_tasks s)\<rparr>)"

text \<open>\<open>self.profile[name]\<close>.\<close>

definition get_profile :: "string \<Rightarrow> ('w server, profile) prog" where
  "get_profile name = bindP (asks sv_tasks) (\<lambda>t. key_of name (dict_get t name))"

definition update_profile :: "string \<Rightarrow> (profile \<Rightarrow> profile) \<Rightarrow> ('w server, unit) prog" where
  "update_profile name f = bindP (get_profile name) (\<lambda>p. set_profile name (f p))"

definition log_task :: "string \<Rightarrow> string \<Rightarrow> json \<Rightarrow> ('w server, unit) prog" where
  "log_task name k v = update_profile name (\<lambda>p. p\<lparr>pf_last_task := dict_set k v (pf_last_task p)\<rparr>)"

definition fresh_profile :: "aws_config \<Rightarrow> profile" where
  "fresh_profile a =
     \<lparr>pf_config_name = ac_configName a, pf_status = ''idle'', pf_region = or_none (ac_region a),
      pf_last_task = [], pf_current_task = None, pf_start_time = None\<rparr>"

subsection \<open>Profiles\<close>

text \<open>\<open>ConfigLoader().load_all_aws_config()\<close>: the profiles are numbered twice.\<close>

definition all_profiles :: "'w os_api \<Rightarrow> ('w sys, aws_config list) prog" where
  "all_profiles os =
     bindP (ConfigLoader os) (\<lambda>ld.
     bindP (load_all_aws_config os (config ld)) (\<lambda>(as, _). ret as))"

definition mk_manager :: "'w os_api \<Rightarrow> ('w sys, manager) prog" where
  "mk_manager os =
     thenP (bindP (now os) (\<lambda>_. ret ())) (
     bindP (all_profiles os) (\<lambda>as.
     ret (fold (\<lambda>a. dict_set (ac_configName a) (fresh_profile a)) as [])))"

definition reload_profile :: "'w env \<Rightarrow> string \<Rightarrow> ('w server, unit) prog" where
  "reload_profile env name =
     bindP (on_sys (all_profiles (e_os env))) (\<lambda>as.
     bindP (get_profile name) (\<lambda>p.
     bindP (attr ''get'' (find (\<lambda>a. ac_configName a = name) as)) (\<lambda>a.
     set_profile name ((fresh_profile a)\<lparr>pf_current_task := Some None, pf_last_task := pf_last_task p\<rparr>))))"

definition register_profile :: "'w env \<Rightarrow> string \<Rightarrow> ('w server, unit) prog" where
  "register_profile env name =
     bindP (asks sv_tasks) (\<lambda>t.
     if dict_get t name = None
     then
       bindP (on_sys (bindP (ConfigLoader (e_os env)) (load_aws name))) (\<lambda>(a, _).
       set_profile name (fresh_profile a))
     else ret ())"

subsection \<open>Running a task\<close>

text \<open>The entries that \<open>set_start_task\<close> makes before it builds the task.\<close>

definition mark_start :: "'w env \<Rightarrow> job \<Rightarrow> ('w server, unit) prog" where
  "mark_start env j =
     (let name = ta_config_name (jb_args j) in
      thenP (update_profile name (\<lambda>p. p\<lparr>pf_status := ''busy''\<rparr>)) (
      bindP (on_sys (now (e_os env))) (\<lambda>t1.
      thenP (update_profile name (\<lambda>p. p\<lparr>pf_start_time := Some (Some t1)\<rparr>)) (
      bindP (on_sys (now (e_os env))) (\<lambda>t2.
      thenP (log_task name ''start_time'' (JStr t2)) (
      thenP (update_profile name (\<lambda>p. p\<lparr>pf_current_task := Some (Some (jb_type j))\<rparr>))
        (log_task name ''task_type'' (JStr (jb_type j)))))))))"

definition run_job :: "'w env \<Rightarrow> job \<Rightarrow> ('w sys, json) prog" where
  "run_job env j =
     bindP (mk_run_task env) (\<lambda>rt. task_method env rt (jb_type j) (jb_args j))"

definition set_stop_task :: "'w env \<Rightarrow> string \<Rightarrow> string \<Rightarrow> json \<Rightarrow> ('w server, unit) prog" where
  "set_stop_task env name outcome data =
     thenP (update_profile name (\<lambda>p. p\<lparr>pf_status := ''idle''\<rparr>)) (
     thenP (update_profile name (\<lambda>p. p\<lparr>pf_current_task := Some None\<rparr>)) (
     bindP (on_sys (now (e_os env))) (\<lambda>t.
     thenP (log_task name ''end_time'' (JStr t)) (
     thenP (log_task name ''status'' (JStr outcome))
       (log_task name ''data'' data)))))"

fun json_get :: "json \<Rightarrow> string \<Rightarrow> json option" where
  "json_get (JObj kvs) k = dict_get kvs k"
| "json_get _ k = None"

definition mark_end :: "'w env \<Rightarrow> job \<Rightarrow> json \<Rightarrow> ('w server, json) prog" where
  "mark_end env j r =
     (let name = ta_config_name (jb_args j) in
      thenP (if json_get r ''status'' = Some (JStr ''success'')
             then set_stop_task env name ''success'' r
             else set_stop_task env name ''failed'' r) (
      thenP (reload_profile env name) (ret r)))"

definition set_start_task :: "'w env \<Rightarrow> job \<Rightarrow> ('w server, json) prog" where
  "set_start_task env j =
     thenP (mark_start env j) (bindP (on_sys (run_job env j)) (mark_end env j))"

definition execute_task :: "'w env \<Rightarrow> job \<Rightarrow> ('w server, json) prog" where
  "execute_task env j = on_sys (run_job env j)"

end
