(* ===== verification/Server.thy ===== *)
theory Server
  imports Manager
begin

section \<open>The HTTP interface\<close>

text \<open>
  The request handlers of \<open>app.py\<close>. A handler is a computation on the server that answers
  with a JSON value; \<open>Inl\<close> is an exception that leaves the handler (Flask then answers
  with status 500). Starting a thread appends the job to \<open>sv_threads\<close>. A request parameter
  that is missing is \<open>None\<close>.
\<close>

record request =
  rq_apikey :: "string option"
  rq_config_name :: "string option"
  rq_new_region :: "string option"
  rq_new_whitelist :: "string option"
  rq_new_user :: "string option"
  rq_new_pass :: "string option"

definition message :: "string \<Rightarrow> json" where
  "message m = JObj [(''message'', JStr m)]"

definition invalid_key :: json where
  "invalid_key = message ''Invalid API key''"

text \<open>
  A missing name (\<open>None\<close>) and the empty one fare alike in the parser: both stand for the
  defaults in \<open>set\<close> and are no section in \<open>get\<close>.
\<close>

definition config_name_of :: "request \<Rightarrow> string" where
  "config_name_of rq = (case rq_config_name rq of None \<Rightarrow> [] | Some n \<Rightarrow> n)"

definition start_thread :: "job \<Rightarrow> ('w server, unit) prog" where
  "start_thread j = modify (\<lambda>s. s\<lparr>sv_threads := sv_threads s @ [j]\<rparr>)"

subsection \<open>What the handlers share\<close>

definition authorized :: "string option \<Rightarrow> api_config \<Rightarrow> aws_config \<Rightarrow> bool" where
  "authorized key api a \<longleftrightarrow> \<not> (key \<noteq> Some (api_apikey api) \<and> key \<noteq> Some (ac_apikey a))"

text \<open>
  Every handler of a profile starts with a new loader, reads the profile, the API section
  and the profile again, and checks the key. The branch for a profile that is \<open>None\<close> is
  left out: \<open>load_aws_config\<close> returns a dictionary or raises.
\<close>

definition with_profile ::
    "'w env \<Rightarrow> request \<Rightarrow> (api_config \<Rightarrow> aws_config \<Rightarrow> ('w server, json) prog) \<Rightarrow> ('w server, json) prog" where
  "with_profile env rq k =
     bindP (on_sys (ConfigLoader (e_os env))) (\<lambda>ld.
     bindP (load_aws (config_name_of rq) ld) (\<lambda>(_, ld1).
     bindP (run_ini load_api_config (config ld1)) (\<lambda>(api, c).
     bindP (load_aws (config_name_of rq) (ld1\<lparr>config := c\<rparr>)) (\<lambda>(a, _).
     if authorized (rq_apikey rq) api a then k api a else ret invalid_key))))"

text \<open>
  \<open>aws_login = Aws(name)\<close> outside the \<open>try\<close>, \<open>login\<close> inside; on failure the task table is
  told that a task has failed and \<open>response\<close> goes out with the error. The response is
  built only then: it may hold a log that the report of the failure has just changed.
\<close>

definition with_login ::
    "'w env \<Rightarrow> string \<Rightarrow> ('w server, (string \<times> json) list) prog \<Rightarrow> (aws \<Rightarrow> ('w server, json) prog) \<Rightarrow>
      ('w server, json) prog" where
  "with_login env name response k =
     bindP (on_sys (mk_aws (e_os env) name)) (\<lambda>aw.
     bindP (tryP (bindP (on_sys (login (e_cloud env) aw)) (\<lambda>aw1. ret (Inr aw1)))
              (\<lambda>e. ret (Inl e))) (\<lambda>r.
     case r of
       Inr aw1 \<Rightarrow> k aw1
     | Inl e \<Rightarrow>
         thenP (set_stop_task env name ''failed'' (JErr e))
           (bindP response (\<lambda>r. ret (JObj (dict_set ''message'' (JErr e) (dict_set ''status'' (JStr ''failed'') r)))))))"

definition check_task_status :: "'w env \<Rightarrow> string \<Rightarrow> ('w server, string) prog" where
  "check_task_status env name =
     thenP (register_profile env name) (bindP (get_profile name) (\<lambda>p. ret (pf_status p)))"

text \<open>The jobs with the further arguments that a handler passes on.\<close>

definition auth_job :: "string \<Rightarrow> request \<Rightarrow> job" where
  "auth_job name rq = \<lparr>jb_type = ''change_auth'', jb_args = (jb_args (named_job ''change_auth'' name))
     \<lparr>ta_new_user := rq_new_user rq, ta_new_pass := rq_new_pass rq\<rparr>\<rparr>"

definition region_job :: "string \<Rightarrow> string \<Rightarrow> job" where
  "region_job name r = \<lparr>jb_type = ''change_region'', jb_args = (jb_args (named_job ''change_region'' name))
     \<lparr>ta_new_region := Some r\<rparr>\<rparr>"

definition whitelist_job :: "string \<Rightarrow> request \<Rightarrow> job" where
  "whitelist_job name rq = \<lparr>jb_type = ''change_whitelist'', jb_args = (jb_args (named_job ''change_whitelist'' name))
     \<lparr>ta_new_whitelist := rq_new_whitelist rq\<rparr>\<rparr>"

definition proxy_url :: "string \<Rightarrow> int \<Rightarrow> aws_config \<Rightarrow> string" where
  "proxy_url ip port a =
     ip @ '':'' @ str_int port @
     (if ac_user a \<noteq> [] \<and> ac_pass a \<noteq> [] then '':'' @ ac_user a @ '':'' @ ac_pass a else [])"

subsection \<open>The handlers\<close>

text \<open>
  \<open>change_ip\<close>: the tests with \<open>hasattr\<close> ask dictionaries for attributes; the one on the
  task table only decides whether \<open>register_profile\<close>, which checks again, is called.
\<close>

definition handle_change_ip :: "'w env \<Rightarrow> request \<Rightarrow> ('w server, json) prog" where
  "handle_change_ip env rq = with_profile env rq (\<lambda>api a.
     let name = config_name_of rq in
     bindP (of_sum (py_int (ac_order a))) (\<lambda>n.
     let response0 = [(''config_name'', JStr name), (''region'', JStr (ac_region a)),
           (''socks5_proxy'', JStr (proxy_url (api_publicip api) (socks5PortBase + n) a)),
           (''http_proxy'', JStr (proxy_url (api_publicip api) (httpPortBase + n) a))] in
     bindP (asks sv_tasks) (\<lambda>table.
     thenP (if \<not> dict_hasattr table name then register_profile env name else ret ()) (
     bindP (get_profile name) (\<lambda>p.
     let response1 = (if dict_hasattr p ''last_task'' then dict_set ''last_task'' (JObj (pf_last_task p)) response0 else response0);
         response = (if dict_hasattr p ''current_task''
                     then dict_set ''current_task'' (case pf_current_task p of Some (Some t) \<Rightarrow> JStr t | _ \<Rightarrow> JNull) response1
                     else response1) in
     with_login env name (ret response) (\<lambda>_.
     bindP (check_task_status env name) (\<lambda>status.
     if status = ''busy''
     then ret (JObj (dict_set ''message'' (JStr ''Process is busy'') (dict_set ''status'' (JStr ''busy'') response)))
     else thenP (start_thread (named_job ''change_ip'' name))
            (ret (JObj (dict_set ''message'' (JStr ''Process started'') (dict_set ''status'' (JStr ''busy'') response)))))))))))"

definition base_response :: "string \<Rightarrow> aws_config \<Rightarrow> (string \<times> json) list" where
  "base_response name a = [(''config_name'', JStr name), (''region'', JStr (ac_region a))]"

definition handle_reset :: "'w env \<Rightarrow> request \<Rightarrow> ('w server, json) prog" where
  "handle_reset env rq = with_profile env rq (\<lambda>api a.
     let name = config_name_of rq in
     with_login env name (ret (base_response name a)) (\<lambda>_.
     thenP (start_thread (named_job ''reset'' name)) (ret (message ''Process started''))))"

definition handle_change_auth :: "'w env \<Rightarrow> request \<Rightarrow> ('w server, json) prog" where
  "handle_change_auth env rq = with_profile env rq (\<lambda>api a.
     let name = config_name_of rq in
     with_login env name (ret (base_response name a)) (\<lambda>_.
     thenP (start_thread (auth_job name rq)) (ret (message ''Process started''))))"

text \<open>
  \<open>change_region\<close>: the response holds the log of the last task itself, not a copy, so it
  is read when the response goes out.
\<close>

definition region_response :: "string \<Rightarrow> string \<Rightarrow> string \<Rightarrow> ('w server, (string \<times> json) list) prog" where
  "region_response name old_region new_region =
     bindP (get_profile name) (\<lambda>p.
     ret [(''config_name'', JStr name), (''old_region'', JStr old_region), (''new_region'', JStr new_region),
          (''last_task'', JObj (pf_last_task p))])"

definition handle_change_region :: "'w env \<Rightarrow> request \<Rightarrow> ('w server, json) prog" where
  "handle_change_region env rq =
     (case rq_new_region rq of
        None \<Rightarrow> ret (message ''New region is not provided'')
      | Some new_region \<Rightarrow> with_profile env rq (\<lambda>api a.
          let name = config_name_of rq; response0 = region_response name (ac_region a) new_region in
          bindP response0 (\<lambda>_.
          with_login env name response0 (\<lambda>_.
          bindP (get_profile name) (\<lambda>p.
          let response = bindP response0 (\<lambda>r. ret (if dict_hasattr p ''current_task''
                 then dict_set ''current_task'' (case pf_current_task p of Some (Some t) \<Rightarrow> JStr t | _ \<Rightarrow> JNull) r
                 else r));
              answer = (\<lambda>m. bindP response (\<lambda>r. ret (JObj (dict_set ''message'' (JStr m) r)))) in
          if ac_region a = new_region then answer ''New region is the same as the old region''
          else
            bindP (check_task_status env name) (\<lambda>status.
            if status = ''busy'' then answer ''Process is busy''
            else thenP (start_thread (region_job name new_region)) (answer ''Process started'')))))))"

definition regions_json :: "(string \<times> string option) list \<Rightarrow> json" where
  "regions_json rs = JList (map (\<lambda>(n, opt). JObj [(''RegionName'', JStr n), (''OptInStatus'', json_opt opt)]) rs)"

definition handle_available_region :: "'w env \<Rightarrow> request \<Rightarrow> ('w server, json) prog" where
  "handle_available_region env rq = with_profile env rq (\<lambda>api a.
     let name = config_name_of rq in
     with_login env name (ret (base_response name a)) (\<lambda>aw.
     bindP (on_sys (get_all_regions (e_cloud env) aw)) (\<lambda>rs. ret (regions_json rs))))"

definition profile_json :: "aws_config \<Rightarrow> (string \<times> json) list" where
  "profile_json a =
     [(''configName'', JStr (ac_configName a)), (''order'', JStr (ac_order a)), (''accessKey'', JStr (ac_accessKey a)),
      (''secretKey'', JStr (ac_secretKey a)), (''instanceId'', JStr (ac_instanceId a)), (''region'', JStr (ac_region a)),
      (''apikey'', JStr (ac_apikey a)), (''whitelist'', JStr (ac_whitelist a)), (''user'', JStr (ac_user a)),
      (''pass'', JStr (ac_pass a))]"

text \<open>\<open>d.update(e)\<close>, \<open>d.pop(k, None)\<close> and \<open>d[k'] = d.pop(k)\<close>.\<close>

definition dict_update :: "(string, 'v) dict \<Rightarrow> (string, 'v) dict \<Rightarrow> (string, 'v) dict" where
  "dict_update d e = fold (\<lambda>(k, v). dict_set k v) e d"

definition dict_pop :: "string \<Rightarrow> (string, 'v) dict \<Rightarrow> (string, 'v) dict" where
  "dict_pop k d = AList.delete k d"

definition dict_rename :: "string \<Rightarrow> string \<Rightarrow> (string, 'v) dict \<Rightarrow> (string, 'v) dict" where
  "dict_rename k k' d = (case dict_get d k of None \<Rightarrow> d | Some v \<Rightarrow> dict_set k' v (dict_pop k d))"

definition detail_response :: "api_config \<Rightarrow> aws_config \<Rightarrow> int \<Rightarrow> json \<Rightarrow> profile \<Rightarrow> (string \<times> json) list \<Rightarrow> (string \<times> json) list" where
  "detail_response api a n regions p response =
     (let d0 = dict_set ''available_region'' regions response;
          d1 = dict_pop ''apikey'' (dict_pop ''secretKey'' (dict_pop ''accessKey'' (dict_update d0 (profile_json a))));
          d2 = dict_rename ''instanceId'' ''instanceid'' (dict_rename ''configName'' ''config_name'' d1);
          d3 = dict_set ''current_task'' (case pf_current_task p of Some (Some t) \<Rightarrow> json_opt (or_none t) | _ \<Rightarrow> JNull) d2;
          d4 = dict_set ''last_task'' (if pf_last_task p = [] then JNull else JObj (pf_last_task p)) d3;
          d5 = dict_set ''status'' (JStr (if pf_status p = [] then ''idle'' else pf_status p)) d4;
          d6 = dict_set ''socks5_proxy'' (JStr (proxy_url (api_publicip api) (socks5PortBase + n) a)) d5
      in dict_set ''http_proxy'' (JStr (proxy_url (api_publicip api) (httpPortBase + n) a)) d6)"

text \<open>\<open>task.profile.get(name)\<close> may be \<open>None\<close>, whose \<open>get\<close> then raises.\<close>

definition handle_get_config :: "'w env \<Rightarrow> request \<Rightarrow> ('w server, json) prog" where
  "handle_get_config env rq = with_profile env rq (\<lambda>api a.
     let name = config_name_of rq in
     with_login env name (ret (base_response name a)) (\<lambda>aw.
     bindP (on_sys (get_all_regions (e_cloud env) aw)) (\<lambda>rs.
     bindP (asks sv_tasks) (\<lambda>table.
     bindP (attr ''get'' (dict_get table name)) (\<lambda>p.
     bindP (of_sum (py_int (ac_order a))) (\<lambda>n.
     ret (JObj (detail_response api a n (regions_json rs) p (base_response name a)))))))))"

definition handle_change_whitelist :: "'w env \<Rightarrow> request \<Rightarrow> ('w server, json) prog" where
  "handle_change_whitelist env rq = with_profile env rq (\<lambda>api a.
     thenP (start_thread (whitelist_job (config_name_of rq) rq)) (ret (message ''Process started'')))"

definition profile_entry :: "profile \<Rightarrow> json" where
  "profile_entry p = JObj (
     [(''config_name'', JStr (pf_config_name p)), (''status'', JStr (pf_status p)),
      (''aws_current_region'', json_opt (pf_region p)), (''last_task'', JObj (pf_last_task p))] @
     (case pf_current_task p of None \<Rightarrow> [] | Some t \<Rightarrow> [(''current_task'', json_opt t)]) @
     (case pf_start_time p of None \<Rightarrow> [] | Some t \<Rightarrow> [(''task_start_time'', json_opt t)]))"

definition handle_get_task :: "'w env \<Rightarrow> request \<Rightarrow> ('w server, json) prog" where
  "handle_get_task env rq =
     bindP (on_sys (ConfigLoader (e_os env))) (\<lambda>ld.
     bindP (run_ini load_api_config (config ld)) (\<lambda>(api, _).
     if rq_apikey rq \<noteq> Some (api_apikey api) then ret invalid_key
     else bindP (asks sv_tasks) (\<lambda>table. ret (JObj (map (\<lambda>(n, p). (n, profile_entry p)) table)))))"

text \<open>The table of routes.\<close>

datatype route =
    ChangeIp | Reset | ChangeAuth | ChangeRegion | AvailableRegion | GetConfig | ChangeWhitelist | GetTask

fun handle :: "'w env \<Rightarrow> route \<Rightarrow> request \<Rightarrow> ('w server, json) prog" where
  "handle env ChangeIp rq = handle_change_ip env rq"
| "handle env Reset rq = handle_reset env rq"
| "handle env ChangeAuth rq = handle_change_auth env rq"
| "handle env ChangeRegion rq = handle_change_region env rq"
| "handle env AvailableRegion rq = handle_available_region env rq"
| "handle env GetConfig rq = handle_get_config env rq"
| "handle env ChangeWhitelist rq = handle_change_whitelist env rq"
| "handle env GetTask rq = handle_get_task env rq"

text \<open>
  \<open>check_last_task\<close>, which no handler calls. The test for a start time is again a question
  for an attribute; \<open>late\<close> stands for the comparison of the two times with ten minutes.
\<close>

definition check_last_task :: "'w env \<Rightarrow> (string \<Rightarrow> string \<Rightarrow> bool) \<Rightarrow> string \<Rightarrow> ('w server, json) prog" where
  "check_last_task env late name =
     bindP (asks sv_tasks) (\<lambda>table.
     case dict_get table name of
       None \<Rightarrow> thenP (register_profile env name) (bindP (get_profile name) (\<lambda>p. ret (JObj (pf_last_task p))))
     | Some p \<Rightarrow>
         if dict_hasattr p ''task_start_time''
         then
           bindP (key_of ''task_start_time'' (pf_start_time p)) (\<lambda>start.
           bindP (attr ''strptime'' start) (\<lambda>t0.
           bindP (on_sys (now (e_os env))) (\<lambda>t.
           thenP (if late t0 t
                  then thenP (update_profile name (\<lambda>p. p\<lparr>pf_status := ''idle''\<rparr>)) (
                       thenP (log_task name ''status'' (JStr ''Timeout'')) (
                       thenP (update_profile name (\<lambda>p. p\<lparr>pf_start_time := Some None, pf_current_task := Some None\<rparr>))
                         (log_task name ''end_time'' (JStr t))))
                  else ret ())
             (bindP (get_profile name) (\<lambda>p. ret (JObj (pf_last_task p)))))))
         else ret (JObj (pf_last_task p)))"

text \<open>The module's start: the task table, the loader, the port, and all services stopped.\<close>

definition startup :: "'w env \<Rightarrow> ('w sys, manager \<times> string) prog" where
  "startup env =
     bindP (mk_manager (e_os env)) (\<lambda>table.
     bindP (ConfigLoader (e_os env)) (\<lambda>ld.
     bindP (run_ini load_api_config (config ld)) (\<lambda>(_, _).
     thenP (reset_all (e_svc env)) (ret (table, api_port (api_cfg ld))))))"

text \<open>
  The script itself: the firewall is enabled with its three default policies set to
  \<open>allow\<close>, then the server of the package \<open>flask\<close> runs on the port.
\<close>

record 'w front_api =
  fr_enable :: "'w \<Rightarrow> (exn + unit) \<times> 'w"
  fr_default :: "string \<Rightarrow> string \<Rightarrow> string \<Rightarrow> 'w \<Rightarrow> (exn + unit) \<times> 'w"
  fr_run :: "string \<Rightarrow> string \<Rightarrow> bool \<Rightarrow> 'w \<Rightarrow> (exn + unit) \<times> 'w"

definition main_block :: "'w env \<Rightarrow> 'w front_api \<Rightarrow> ('w sys, manager) prog" where
  "main_block env fr =
     bindP (startup env) (\<lambda>(table, port).
     thenP (ext_op (fr_enable fr)) (
     thenP (ext_op (fr_default fr ''allow'' ''allow'' ''allow'')) (
     thenP (ext_op (fr_run fr port ''0.0.0.0'' False)) (ret table))))"

end
