(* ===== verification/CloudProps.thy ===== *)
theory CloudProps
  imports Cloud
begin

section \<open>What the cloud client guarantees\<close>

text \<open>
  The fingerprint text, the search for an instance type over all pages, what launching
  and terminating do with the instances that are there, and that a change of address
  leaves no elastic address behind. What is needed of the service is stated as
  predicates on \<open>cloud_api\<close>.
\<close>

lemma attr_Some [simp]: "attr name (Some v) = ret v"
  by (simp add: attr_def)

lemma attr_eq_Inr: "attr name x s = (Inr v, s') \<longleftrightarrow> x = Some v \<and> s' = s"
  by (auto simp: attr_def split: option.splits)

lemma index_list_0 [simp]: "xs \<noteq> [] \<Longrightarrow> index_list 0 xs = ret (hd xs)"
  by (simp add: index_list_def hd_conv_nth)

lemma key_of_Some [simp]: "key_of k (Some v) = ret v"
  by (simp add: key_of_def)

lemma bindP_ret_apply [simp]: "bindP (ret x) f s = f x s"
  by simp

subsection \<open>Fingerprints\<close>

lemma hex_byte_length: "length (hex_byte b) = 2"
  by (simp add: hex_byte_def Let_def)

lemma pairs_hexlify: "pairs (hexlify bs) = map hex_byte bs"
proof (induction bs)
  case (Cons b bs)
  obtain c d where "hex_byte b = [c, d]"
    using hex_byte_length [of b] by (auto simp: length_Suc_conv numeral_2_eq_2)
  with Cons show ?case by (simp add: hexlify_def)
qed (simp add: hexlify_def)

lemma hex_digit_inject:
  assumes "m < 16" and "n < 16"
    and "(if m < 10 then char_of (48 + m) else char_of (87 + m :: nat)) =
         (if n < 10 then char_of (48 + n) else char_of (87 + n :: nat) :: char)"
  shows "m = n"
  using arg_cong [OF assms(3), of "of_char :: char \<Rightarrow> nat"] assms(1,2) by (auto split: if_splits)

lemma byte_halves: "unat (b :: 8 word) div 16 < 16" "unat b mod 16 < 16"
proof -
  have "unat b < 2 ^ 8" using unsigned_less [of b] by simp
  then show "unat b div 16 < 16" by simp
qed simp

lemma hex_byte_inject: "hex_byte a = hex_byte b \<longleftrightarrow> a = b"
proof
  assume "hex_byte a = hex_byte b"
  then have "unat a div 16 = unat b div 16" "unat a mod 16 = unat b mod 16"
    using hex_digit_inject [OF byte_halves(1) byte_halves(1), of a b]
      hex_digit_inject [OF byte_halves(2) byte_halves(2), of a b]
    by (simp_all add: hex_byte_def Let_def)
  then have "unat a = unat b" by (metis mult_div_mod_eq)
  then show "a = b" by (simp add: word_unat_eq_iff)
qed simp

lemma hex_byte_colon: "CHR '':'' \<notin> set (hex_byte b)"
proof -
  have "CHR '':'' \<noteq> (if n < 10 then char_of (48 + n) else char_of (87 + n :: nat))" if "n < 16" for n
  proof
    assume "CHR '':'' = (if n < 10 then char_of (48 + n) else char_of (87 + n :: nat))"
    from arg_cong [OF this, of "of_char :: char \<Rightarrow> nat"] that show False by (auto split: if_splits)
  qed
  then show ?thesis using byte_halves [of b] by (simp add: hex_byte_def Let_def)
qed

text \<open>the fingerprint text lists the bytes in two hexadecimal digits each, between colons,
  and so tells any two digests apart: the key pair that is found by comparing texts is the
  one with the same digest.\<close>

theorem fingerprint_faithful:
  "(bs \<noteq> [] \<longrightarrow> split_on CHR '':'' (format_fingerprint bs) = map hex_byte bs) \<and>
   (format_fingerprint bs = format_fingerprint cs \<longrightarrow> bs = cs)"
proof -
  have split: "bs \<noteq> [] \<Longrightarrow> split_on CHR '':'' (format_fingerprint bs) = map hex_byte bs" for bs
    using hex_byte_colon by (auto simp: format_fingerprint_def pairs_hexlify intro!: split_on_join)
  have inj: "map hex_byte bs = map hex_byte cs \<Longrightarrow> bs = cs" for bs cs
    by (rule map_injective) (auto simp: inj_on_def hex_byte_inject)
  have empty: "format_fingerprint bs = [] \<longleftrightarrow> bs = []" for bs
    using hex_byte_length by (cases bs rule: list.exhaust; cases "tl bs")
      (auto simp: format_fingerprint_def pairs_hexlify dest: arg_cong [of _ _ length])
  have "format_fingerprint bs = format_fingerprint cs \<Longrightarrow> bs = cs"
    using split [of bs] split [of cs] inj [of bs cs] empty [of bs] empty [of cs]
    by (cases "bs = []"; cases "cs = []") auto
  with split show ?thesis by blast
qed

theorem fingerprint_faithful_witness:
  "split_on CHR '':'' (format_fingerprint [0x0a, 0xff]) = [''0a'', ''ff'']"
proof -
  have "map hex_byte [0x0a, 0xff] = [''0a'', ''ff'']" by code_simp
  then show ?thesis using fingerprint_faithful [of "[0x0a, 0xff]" "[]"] by simp
qed

subsection \<open>The instance type\<close>

text \<open>The pages after \<open>page\<close> that the service hands out, the last one without a next token.\<close>

fun serves :: "'w cloud_api \<Rightarrow> creds \<Rightarrow> type_page \<Rightarrow> type_page list \<Rightarrow> 'w \<Rightarrow> bool" where
  "serves api cr page [] w \<longleftrightarrow> tp_next page \<in> {None, Some []}"
| "serves api cr page (p # ps) w \<longleftrightarrow>
     (\<exists>token w'. tp_next page = Some token \<and> token \<noteq> [] \<and> c_types api cr (Some token) w = (Inr p, w') \<and>
        serves api cr p ps w')"

lemma more_types_serves:
  "serves api cr page ps (ext s) \<Longrightarrow> length ps \<le> n \<Longrightarrow>
     \<exists>s'. more_types n api cr page s = (Inr (concat (map tp_types ps)), s')"
proof (induction ps arbitrary: n page s)
  case Nil
  then show ?case by (auto simp: more_types.simps [of n])
next
  case (Cons p ps)
  then obtain token w' m where t: "tp_next page = Some token" "token \<noteq> []" "c_types api cr (Some token) (ext s) = (Inr p, w')"
    and n: "n = Suc m" "length ps \<le> m" and rest: "serves api cr p ps (ext (s\<lparr>ext := w'\<rparr>))"
    by (cases n) auto
  from Cons.IH [OF rest n(2)] obtain s' where
    "more_types m api cr p (s\<lparr>ext := w'\<rparr>) = (Inr (concat (map tp_types ps)), s')" by blast
  with t n show ?case by (simp add: more_types.simps [of "Suc m"] ext_op_eq)
qed

lemma first_one_core_find:
  "list_all (\<lambda>t. it_cores t \<noteq> None) ts \<Longrightarrow> first_one_core ts = ret (find (\<lambda>t. it_cores t = Some 1) ts)"
  by (induction ts) (auto simp: fun_eq_iff)

text \<open>C26: the free-tier type is looked for on every page: when the service ends its list after
  finitely many pages, \<open>get_instance_type_free_tier\<close> returns, with the first type of one
  core among all pages in order, or \<open>None\<close> if there is none (which the launch then fails
  on); any larger number of rounds gives the same.\<close>

theorem free_tier_all_pages:
  assumes "aw_ec2 aw = Some cr" and "c_types api cr None (ext s) = (Inr page, w)"
    and "serves api cr page ps w" and "length ps \<le> n"
    and "list_all (\<lambda>t. it_cores t \<noteq> None) (concat (map tp_types (page # ps)))"
  shows "\<exists>s'. get_instance_type_free_tier n api aw s =
    (Inr (find (\<lambda>t. it_cores t = Some 1) (concat (map tp_types (page # ps)))), s')"
proof -
  obtain s' where "more_types n api cr page (s\<lparr>ext := w\<rparr>) = (Inr (concat (map tp_types ps)), s')"
    using more_types_serves [of api cr page ps "s\<lparr>ext := w\<rparr>" n] assms(3,4) by auto
  with assms(1,2) show ?thesis
    using assms(5) by (simp add: get_instance_type_free_tier_def ext_op_eq first_one_core_find)
qed

subsection \<open>Launching\<close>

lemma find_reusable_None:
  "list_all (\<lambda>r. r \<noteq> []) rs \<Longrightarrow> find_reusable rs = ret None"
  by (induction rs) (auto simp: dict_hasattr_def dict_attributes_def fun_eq_iff)

text \<open>an instance that is already there is never used again: whatever instances the
  service lists, with whatever tags and states, \<open>launch_instance\<close> goes on to create a new
  one. The test for tags asks whether the dictionary has an attribute of that name, which
  is never so.\<close>

theorem launch_never_reuses:
  assumes "aw_ec2 aw = Some cr" and "c_instances api cr None (ext s) = (Inr (Some rs), w)"
    and "list_all (\<lambda>r. r \<noteq> []) rs"
  shows "launch_instance n os api aw s = launch_new n os api aw (s\<lparr>ext := w\<rparr>)"
  using assms by (simp add: launch_instance_def ext_op_eq find_reusable_None)

subsection \<open>Terminating\<close>

text \<open>Terminations are accepted and end up, in order, in what \<open>gone\<close> observes.\<close>

definition terminates :: "'w cloud_api \<Rightarrow> ('w \<Rightarrow> string list) \<Rightarrow> bool" where
  "terminates api gone \<longleftrightarrow>
     (\<forall>cr i w. fst (c_terminate api cr i w) = Inr () \<and> gone (snd (c_terminate api cr i w)) = gone w @ [i])"

lemma terminate_loop:
  assumes "terminates api gone" and "list_all (\<lambda>r. r \<noteq> []) rs"
  shows "\<exists>s'. for_each rs (\<lambda>r. bindP (index_list 0 r) (\<lambda>i. ext_op (c_terminate api cr (in_id i)))) s = (Inr (), s') \<and>
    gone (ext s') = gone (ext s) @ map (\<lambda>r. in_id (hd r)) rs \<and> files s' = files s"
  using assms(2)
proof (induction rs arbitrary: s)
  case (Cons r rs)
  obtain x w where x: "c_terminate api cr (in_id (hd r)) (ext s) = (x, w)" by fastforce
  then have w: "x = Inr ()" "gone w = gone (ext s) @ [in_id (hd r)]"
    using assms(1) unfolding terminates_def by (metis fst_conv snd_conv)+
  with Cons.IH [of "s\<lparr>ext := w\<rparr>"] Cons.prems x show ?case
    by (simp add: ext_op_eq thenP_def)
qed simp


subsection \<open>Elastic addresses\<close>

text \<open>
  What is needed of the service, \<open>addrs\<close> being its list of elastic addresses: it lists
  them, releasing removes the named one (whatever it answers), allocating adds one with the
  instance's tag under a new name, and the other calls leave the list alone.
\<close>

definition address_service :: "'w cloud_api \<Rightarrow> ('w \<Rightarrow> ec2_address list) \<Rightarrow> bool" where
  "address_service api addrs \<longleftrightarrow>
     (\<forall>cr w. fst (c_addresses api cr w) = Inr (addrs w) \<and> addrs (snd (c_addresses api cr w)) = addrs w) \<and>
     (\<forall>cr x w. addrs (snd (c_disassociate api cr x w)) = addrs w) \<and>
     (\<forall>cr x w. addrs (snd (c_release api cr x w)) = filter (\<lambda>ad. ad_allocation ad \<noteq> x) (addrs w)) \<and>
     (\<forall>cr i x w. addrs (snd (c_associate api cr i x w)) = addrs w) \<and>
     (\<forall>cr i w. addrs (snd (c_instances api cr i w)) = addrs w) \<and>
     (\<forall>cr i w. case c_allocate api cr i w of
        (Inl e, w') \<Rightarrow> addrs w' = addrs w
      | (Inr x, w') \<Rightarrow> x \<notin> ad_allocation ` set (addrs w) \<and>
          (\<exists>ad. addrs w' = addrs w @ [ad] \<and> ad_allocation ad = x \<and> ad_tags ad = Some [(''instance'', i)]))"

definition tagged :: "string \<Rightarrow> ec2_address \<Rightarrow> bool" where
  "tagged i ad \<longleftrightarrow> (\<exists>tags. ad_tags ad = Some tags \<and> (''instance'', i) \<in> set tags)"

definition others :: "string \<Rightarrow> ec2_address list \<Rightarrow> ec2_address list" where
  "others i ads = filter (\<lambda>ad. \<not> tagged i ad) ads"

lemma drop_address_state:
  assumes "address_service api addrs"
  shows "\<exists>s'. drop_address api cr ad s = (Inr (), s') \<and> files s' = files s \<and>
    addrs (ext s') = filter (\<lambda>x. ad_allocation x \<noteq> ad_allocation ad) (addrs (ext s))"
proof -
  let ?m = "bindP (key_of ''AssociationId'' (ad_association ad)) (\<lambda>x. ext_op (c_disassociate api cr x))"
  obtain s1 where 1: "attempt ?m s = (Inr (), s1)" and s1: "s1 = snd (?m s)" by (simp add: attempt_apply)
  have a1: "addrs (ext s1) = addrs (ext s)" "files s1 = files s"
    using assms by (auto simp: s1 key_of_def ext_op_def address_service_def split: option.splits prod.splits)
      (metis snd_conv)
  obtain r w where r: "c_release api cr (ad_allocation ad) (ext s1) = (r, w)" by fastforce
  have 2: "attempt (ext_op (c_release api cr (ad_allocation ad))) s1 = (Inr (), s1\<lparr>ext := w\<rparr>)"
    by (simp add: attempt_apply ext_op_def r)
  have "addrs w = filter (\<lambda>x. ad_allocation x \<noteq> ad_allocation ad) (addrs (ext s1))"
    using assms r unfolding address_service_def by (metis snd_conv)
  with 1 2 a1 show ?thesis by (simp add: drop_address_def)
qed

text \<open>The tag loop of one address: it is dropped, perhaps more than once, if it is tagged.\<close>

lemma tag_loop:
  assumes "address_service api addrs"
  shows "\<exists>s'. for_each tags (\<lambda>tag. if tag = (''instance'', i) then drop_address api cr ad else ret ()) s = (Inr (), s') \<and>
    files s' = files s \<and>
    addrs (ext s') = (if (''instance'', i) \<in> set tags
      then filter (\<lambda>x. ad_allocation x \<noteq> ad_allocation ad) (addrs (ext s)) else addrs (ext s))"
proof (induction tags arbitrary: s)
  case (Cons t ts)
  show ?case
  proof (cases "t = (''instance'', i)")
    case False
    then show ?thesis using Cons.IH [of s] by (auto simp: thenP_def bindP_def)
  next
    case True
    obtain s1 where s1: "drop_address api cr ad s = (Inr (), s1)" "files s1 = files s"
      "addrs (ext s1) = filter (\<lambda>x. ad_allocation x \<noteq> ad_allocation ad) (addrs (ext s))"
      using drop_address_state [OF assms] by blast
    obtain s2 where "for_each ts (\<lambda>tag. if tag = (''instance'', i) then drop_address api cr ad else ret ()) s1 = (Inr (), s2)"
      "files s2 = files s1" "addrs (ext s2) = (if (''instance'', i) \<in> set ts
      then filter (\<lambda>x. ad_allocation x \<noteq> ad_allocation ad) (addrs (ext s1)) else addrs (ext s1))"
      using Cons.IH [of s1] by blast
    with True s1 show ?thesis by (simp add: thenP_def bindP_def)
  qed
qed simp

lemma address_loop:
  assumes "address_service api addrs"
  shows "\<exists>s'. for_each ads (\<lambda>ad. case ad_tags ad of None \<Rightarrow> ret () | Some tags \<Rightarrow>
      for_each tags (\<lambda>tag. if tag = (''instance'', i) then drop_address api cr ad else ret ())) s = (Inr (), s') \<and>
    files s' = files s \<and>
    addrs (ext s') = filter (\<lambda>x. ad_allocation x \<notin> ad_allocation ` set (filter (tagged i) ads)) (addrs (ext s))"
proof (induction ads arbitrary: s)
  case (Cons ad ads)
  show ?case
  proof (cases "ad_tags ad")
    case None
    then show ?thesis using Cons.IH [of s] by (simp add: thenP_def bindP_def tagged_def)
  next
    case (Some tags)
    obtain s1 where s1: "for_each tags (\<lambda>tag. if tag = (''instance'', i) then drop_address api cr ad else ret ()) s = (Inr (), s1)"
      "files s1 = files s" "addrs (ext s1) = (if (''instance'', i) \<in> set tags
        then filter (\<lambda>x. ad_allocation x \<noteq> ad_allocation ad) (addrs (ext s)) else addrs (ext s))"
      using tag_loop [OF assms, of tags i cr ad s] by blast
    have "tagged i ad \<longleftrightarrow> (''instance'', i) \<in> set tags" using Some by (simp add: tagged_def)
    with Some s1 Cons.IH [of s1] show ?thesis by (auto simp: thenP_def bindP_def intro!: filter_cong)
  qed
qed simp

lemma filter_others:
  assumes "distinct (map ad_allocation ads)"
  shows "filter (\<lambda>x. ad_allocation x \<notin> ad_allocation ` set (filter (tagged i) ads)) ads = others i ads"
  unfolding others_def
proof (rule filter_cong)
  fix x assume x: "x \<in> set ads"
  have "ad_allocation x = ad_allocation y \<Longrightarrow> y \<in> set ads \<Longrightarrow> x = y" for y
    using assms x by (auto simp: distinct_map dest: inj_onD)
  with x show "(ad_allocation x \<notin> ad_allocation ` set (filter (tagged i) ads)) = (\<not> tagged i x)" by auto
qed simp

lemma release_exact:
  assumes "address_service api addrs" and "aw_ec2 aw = Some cr" and "distinct (map ad_allocation (addrs (ext s)))"
  shows "\<exists>s'. disassociate_and_release_ip api aw s = (Inr (), s') \<and> files s' = files s \<and>
    addrs (ext s') = others (ac_instanceId (aw_config aw)) (addrs (ext s))"
proof -
  obtain w where w: "c_addresses api cr (ext s) = (Inr (addrs (ext s)), w)" "addrs w = addrs (ext s)"
    using assms(1) unfolding address_service_def by (metis prod.collapse)
  then show ?thesis
    using address_loop [OF assms(1), of "addrs (ext s)" "ac_instanceId (aw_config aw)" cr "s\<lparr>ext := w\<rparr>"]
      filter_others [OF assms(3)] assms(2)
    by (simp add: disassociate_and_release_ip_def ext_op_eq)
qed

lemma keeps_addrs_instances:
  "address_service api addrs \<Longrightarrow> keeps (\<lambda>s. addrs (ext s) = x \<and> files s = f) (ext_op (c_instances api cr i))"
  by (auto simp: keeps_def ext_op_def address_service_def split: prod.splits) (metis snd_conv)

lemma keeps_addrs_address:
  assumes "address_service api addrs"
  shows "keeps (\<lambda>s. addrs (ext s) = x \<and> files s = f) (get_instance_address api aw)"
  unfolding get_instance_address_def get_instance_info_def attr_def index_list_def key_of_def
  by (intro keeps_intros keeps_option_case keeps_addrs_instances [OF assms])

lemma allocate_exact:
  assumes "address_service api addrs" and "aw_ec2 aw = Some cr" and "distinct (map ad_allocation (addrs (ext s)))"
    and "allocate_and_associate_ip api aw s = (Inr u, s')"
  shows "addrs (ext s') = others (ac_instanceId (aw_config aw)) (addrs (ext s)) \<and> files s' = files s"
proof -
  let ?i = "ac_instanceId (aw_config aw)"
  obtain x w where x: "c_allocate api cr ?i (ext s) = (Inr x, w)"
    using assms(2,4) by (cases "c_allocate api cr ?i (ext s)"; cases "fst (c_allocate api cr ?i (ext s))")
      (auto simp: allocate_and_associate_ip_def bindP_eq_Inr ext_op_def)
  have "\<forall>(cr :: creds) (i :: string) w. case c_allocate api cr i w of (Inl e, w') \<Rightarrow> addrs w' = addrs w
      | (Inr x, w') \<Rightarrow> x \<notin> ad_allocation ` set (addrs w) \<and>
          (\<exists>ad. addrs w' = addrs w @ [ad] \<and> ad_allocation ad = x \<and> ad_tags ad = Some [(''instance'', i)])"
    using assms(1) unfolding address_service_def by (elim conjE)
  from this [THEN spec [of _ cr], THEN spec [of _ ?i], THEN spec [of _ "ext s"]]
  x obtain ad where ad: "x \<notin> ad_allocation ` set (addrs (ext s))" "addrs w = addrs (ext s) @ [ad]"
    "ad_allocation ad = x" "ad_tags ad = Some [(''instance'', ?i)]" by auto
  obtain r w2 where w2: "c_associate api cr ?i x w = (r, w2)" by fastforce
  then have a2: "addrs w2 = addrs w" using assms(1) unfolding address_service_def by (metis snd_conv)
  let ?s = "s\<lparr>ext := w2\<rparr>"
  have run: "disassociate_and_release_ip api aw ?s = (Inr u, s')"
    using assms(2,4) x w2 by (auto simp: allocate_and_associate_ip_def ext_op_eq thenP_eq_Inr)
  have "distinct (map ad_allocation (addrs (ext ?s)))" using assms(3) ad a2 by simp
  from release_exact [OF assms(1,2) this] run
  have "addrs (ext s') = others ?i (addrs w2)" "files s' = files s" by auto
  then show ?thesis using a2 ad by (simp add: others_def tagged_def)
qed


subsection \<open>A concrete service\<close>

text \<open>The world is the list of elastic addresses and the list of terminated instances.\<close>

type_synonym demo_world = "ec2_address list \<times> string list"

definition fresh_name :: "ec2_address list \<Rightarrow> string" where
  "fresh_name ads = CHR ''x'' # concat (map ad_allocation ads)"

definition demo_instance :: ec2_instance where
  "demo_instance = \<lparr>in_id = ''i-1'', in_state = ''running'', in_tags = Some [(''role'', ''iprotate'')],
     in_public_ip = Some ''5.6.7.8''\<rparr>"

definition demo_page :: "string option \<Rightarrow> type_page" where
  "demo_page token = (case token of
     None \<Rightarrow> \<lparr>tp_types = [\<lparr>it_name = Some ''big'', it_cores = Some 4\<rparr>], tp_next = Some ''t''\<rparr>
   | Some _ \<Rightarrow> \<lparr>tp_types = [\<lparr>it_name = Some ''t2.micro'', it_cores = Some 1\<rparr>], tp_next = None\<rparr>)"

definition demo_cloud :: "demo_world cloud_api" where
  "demo_cloud = \<lparr>c_client = (\<lambda>cr w. (Inr (), w)), c_resource = (\<lambda>cr w. (Inr True, w)),
     c_regions = (\<lambda>cr r w. (Inr [(''us-east-1'', Some ''opt-in-not-required'')], w)),
     c_instances = (\<lambda>cr i w. (Inr (Some [[demo_instance]]), w)),
     c_terminate = (\<lambda>cr i (ads, gone). (Inr (), (ads, gone @ [i]))),
     c_addresses = (\<lambda>cr w. (Inr (fst w), w)), c_disassociate = (\<lambda>cr x w. (Inr (), w)),
     c_release = (\<lambda>cr x (ads, gone). (Inr (), (filter (\<lambda>ad. ad_allocation ad \<noteq> x) ads, gone))),
     c_allocate = (\<lambda>cr i (ads, gone). (Inr (fresh_name ads), (ads @ [\<lparr>ad_allocation = fresh_name ads,
       ad_association = None, ad_tags = Some [(''instance'', i)]\<rparr>], gone))),
     c_associate = (\<lambda>cr i x w. (Inr (), w)), c_associate_ip = (\<lambda>cr i x w. (Inr (), w)),
     c_key_pairs = (\<lambda>cr w. (Inr [], w)), c_import_key = (\<lambda>cr n k w. (Inr n, w)),
     c_role_groups = (\<lambda>cr w. (Inr [], w)), c_group = (\<lambda>cr i w. (Inr [\<lparr>sg_id = i, sg_name = ''iprotate'', sg_permissions = []\<rparr>], w)),
     c_create_group = (\<lambda>cr w. (Inr \<lparr>sg_id = ''sg-1'', sg_name = ''iprotate'', sg_permissions = []\<rparr>, w)),
     c_authorize = (\<lambda>cr i w. (Inr (), w)), c_types = (\<lambda>cr token w. (Inr (demo_page token), w)),
     c_images = (\<lambda>cr w. (Inr [Some ''ami-1''], w)), c_create = (\<lambda>cr im ty k w. (Inr [''i-2''], w)),
     c_wait_running = (\<lambda>cr i w. (Inr (), w)), c_read_key = (\<lambda>p w. (Inr ''AAAA'', w)),
     c_key_digest = (\<lambda>k w. (Inr [0, 1], w))\<rparr>"

definition demo_aws :: aws where
  "demo_aws = \<lparr>aw_loader = demo_loader, aw_name = ''acc1'',
     aw_config = \<lparr>ac_configName = ''acc1'', ac_order = ''1'', ac_accessKey = ''AK1'', ac_secretKey = ''SK1'',
       ac_instanceId = ''i-1'', ac_region = ''us-east-1'', ac_apikey = [], ac_whitelist = [], ac_user = [], ac_pass = []\<rparr>,
     aw_ec2 = Some \<lparr>cr_region = ''us-east-1'', cr_access = ''AK1'', cr_secret = ''SK1''\<rparr>,
     aw_resource = Some \<lparr>cr_region = ''us-east-1'', cr_access = ''AK1'', cr_secret = ''SK1''\<rparr>,
     aw_key_pair = None, aw_group = None\<rparr>"

definition demo_addresses :: "ec2_address list" where
  "demo_addresses = [\<lparr>ad_allocation = ''e-1'', ad_association = None, ad_tags = Some [(''instance'', ''i-1'')]\<rparr>,
     \<lparr>ad_allocation = ''e-2'', ad_association = None, ad_tags = Some [(''instance'', ''i-9'')]\<rparr>]"

definition demo_cloud_sys :: "demo_world sys" where
  "demo_cloud_sys = \<lparr>files = demo_files, ext = (demo_addresses, [])\<rparr>"

definition cloud_os :: "demo_world os_api" where
  "cloud_os = \<lparr>os_open_w = (\<lambda>p w. (Inr (), w)), os_makedirs = (\<lambda>p w. (Inr (), w)),
     os_system = (\<lambda>c w. (Inr 0, w)), os_now = (\<lambda>w. (''2024-01-01-00-00-00'', w))\<rparr>"

lemma fresh_name_new: "x \<in> set ads \<Longrightarrow> fresh_name ads \<noteq> ad_allocation x"
proof
  assume x: "x \<in> set ads" and e: "fresh_name ads = ad_allocation x"
  from x have "length (ad_allocation x) \<le> length (concat (map ad_allocation ads))"
    by (induction ads) auto
  with e show False by (auto simp: fresh_name_def dest: arg_cong [of _ _ length])
qed

lemma demo_address_service: "address_service demo_cloud fst"
  using fresh_name_new by (fastforce simp: address_service_def demo_cloud_def)


theorem free_tier_all_pages_witness:
  "\<exists>s'. get_instance_type_free_tier 1 demo_cloud demo_aws demo_cloud_sys =
    (Inr (Some \<lparr>it_name = Some ''t2.micro'', it_cores = Some 1\<rparr>), s')"
proof -
  let ?cr = "\<lparr>cr_region = ''us-east-1'', cr_access = ''AK1'', cr_secret = ''SK1''\<rparr>"
  have "\<exists>s'. get_instance_type_free_tier 1 demo_cloud demo_aws demo_cloud_sys =
    (Inr (find (\<lambda>t. it_cores t = Some 1) (concat (map tp_types (demo_page None # [demo_page (Some ''t'')])))), s')"
    by (rule free_tier_all_pages [of _ ?cr _ _ _ "ext demo_cloud_sys"])
      (simp_all add: demo_aws_def demo_cloud_def demo_page_def)
  then show ?thesis by (simp add: demo_page_def)
qed

theorem launch_never_reuses_witness:
  "launch_instance 5 cloud_os demo_cloud demo_aws demo_cloud_sys =
    launch_new 5 cloud_os demo_cloud demo_aws demo_cloud_sys"
  using launch_never_reuses [of demo_aws "\<lparr>cr_region = ''us-east-1'', cr_access = ''AK1'', cr_secret = ''SK1''\<rparr>"
      demo_cloud demo_cloud_sys "[[demo_instance]]" "ext demo_cloud_sys"]
  by (simp add: demo_aws_def demo_cloud_def)

lemma demo_terminates: "terminates demo_cloud snd"
  by (auto simp: terminates_def demo_cloud_def)


end
