(* ===== verification/RemoteProps.thy ===== *)
theory RemoteProps
  imports Remote
begin

section \<open>What the remote and service classes guarantee\<close>

text \<open>
  When a connection counts as made, that the preparation of a host does not ask, and
  which services the start of the server stops.
\<close>

subsection \<open>Connecting\<close>

text \<open>C30: \<open>connect\<close> stops at the first attempt that is accepted, makes at most \<open>tries\<close> of them and
  never raises for a failed one. It returns true exactly if one of them was accepted and
  the connection then has a transport.\<close>

theorem connect_within_tries:
  assumes "0 < tries" and "\<And>w. fst (sh_transport api c w) = Inr (up w)"
  shows "fst (connect api tries c s) =
    Inr ((\<exists>k < tries. run_returns k (ext_op (sh_connect api c)) s) \<and>
         up (ext (after_runs (runs_made tries (ext_op (sh_connect api c)) s) (ext_op (sh_connect api c)) s))) \<and>
    runs_made tries (ext_op (sh_connect api c)) s \<le> tries"
proof -
  let ?m = "ext_op (sh_connect api c)"
  let ?t = "after_runs (runs_made tries ?m s) ?m s"
  have "fst (ext_op (sh_transport api c) ?t) = Inr (up (ext ?t))"
    using assms(2) by simp
  then show ?thesis
    using assms(1) runs_made_le [of tries ?m s] by (simp add: connect_def bindP_Inr [OF attempts_spec])
qed

text \<open>A host that refuses the first attempt and then accepts; the world counts the attempts.\<close>

definition late_ssh :: "nat ssh_api" where
  "late_ssh = \<lparr>sh_connect = (\<lambda>c w. (if w = 0 then Inl (External ''refused'') else Inr (), Suc w)),
     sh_transport = (\<lambda>c w. (Inr (1 < w), w)), sh_exec = (\<lambda>c cmd w. (Inr 0, w)), sh_read = (\<lambda>h w. (Inr [], w)),
     sh_status = (\<lambda>h w. (Inr 0, w)), sh_put = (\<lambda>c a b w. (Inr (), w)), sh_close = (\<lambda>c w. (Inr (), w))\<rparr>"

definition demo_ssh :: ssh where
  "demo_ssh = \<lparr>ssh_host = ''5.6.7.8'', ssh_user = ''ubuntu'', ssh_key = ''/root/key''\<rparr>"

theorem connect_within_tries_witness:
  "fst (connect late_ssh 10 demo_ssh \<lparr>files = Map.empty, ext = 0\<rparr>) = Inr True"
proof -
  let ?m = "ext_op (sh_connect late_ssh demo_ssh)" and ?s = "\<lparr>files = Map.empty, ext = 0\<rparr> :: nat sys"
  have "run_returns 1 ?m ?s" by (simp add: run_returns_def after_runs_def ext_op_def late_ssh_def)
  then have "\<exists>k < 10. run_returns k ?m ?s" by (intro exI [of _ 1]) simp
  moreover have "runs_made 10 ?m ?s = 2" by (simp add: ext_op_def late_ssh_def eval_nat_numeral)
  then have "ext (after_runs (runs_made 10 ?m ?s) ?m ?s) = 2"
    by (simp add: after_runs_def ext_op_def late_ssh_def eval_nat_numeral)
  ultimately show ?thesis
    using connect_within_tries [of 10 late_ssh demo_ssh "\<lambda>w. 1 < w" ?s] by (simp add: late_ssh_def)
qed

text \<open>\<open>SetupHost.login\<close> reports success whatever comes of the connection: even if every
  attempt is refused, it returns with the connection object set, so that \<open>setup\<close> goes on to
  run its commands on it.\<close>

theorem login_ignores_failure:
  assumes "\<And>w. fst (sh_transport api \<lparr>ssh_host = h_host h, ssh_user = h_user h, ssh_key = h_key h\<rparr> w) \<in> range Inr"
  shows "\<exists>s'. host_login api h s =
    (Inr (h\<lparr>h_ssh := Some \<lparr>ssh_host = h_host h, ssh_user = h_user h, ssh_key = h_key h\<rparr>\<rparr>), s')"
proof -
  let ?c = "\<lparr>ssh_host = h_host h, ssh_user = h_user h, ssh_key = h_key h\<rparr>"
  obtain b s1 where a: "attempts 10 (ext_op (sh_connect api ?c)) s = (Inr b, s1)"
    using attempts_spec [of 10 "ext_op (sh_connect api ?c)" s] by blast
  obtain r w where r: "sh_transport api ?c (ext s1) = (r, w)" by fastforce
  with assms [of "ext s1"] obtain up where "r = Inr up" by auto
  with a r show ?thesis
    by (cases b) (simp_all add: host_login_def connect_def ext_op_eq Let_def)
qed

definition refusing_ssh :: "nat ssh_api" where
  "refusing_ssh = late_ssh\<lparr>sh_connect := \<lambda>c w. (Inl (External ''refused''), Suc w)\<rparr>"

definition demo_host :: host where
  "demo_host = \<lparr>h_host = ''5.6.7.8'', h_user = ''ubuntu'', h_key = ''/root/key'', h_local = ''/tmp/wg0.conf'',
     h_remote = ''/etc/wireguard/wg0.conf'', h_ssh = None\<rparr>"

theorem login_ignores_failure_witness:
  "\<exists>s'. host_login refusing_ssh demo_host \<lparr>files = Map.empty, ext = 0\<rparr> =
    (Inr (demo_host\<lparr>h_ssh := Some demo_ssh\<rparr>), s')"
  using login_ignores_failure [of refusing_ssh demo_host]
  by (simp add: refusing_ssh_def late_ssh_def demo_host_def demo_ssh_def)

subsection \<open>Stopping the services\<close>

text \<open>Stops are accepted and end up, in order, in what \<open>stopped\<close> observes.\<close>

definition stops :: "'w svc_api \<Rightarrow> ('w \<Rightarrow> string list) \<Rightarrow> bool" where
  "stops api stopped \<longleftrightarrow>
     (\<forall>n w. fst (sv_stop api n w) = Inr () \<and> stopped (snd (sv_stop api n w)) = stopped w @ [n]) \<and>
     (\<forall>w. stopped (snd (sv_units api w)) = stopped w)"

lemma instance_of_unit_plain:
  assumes "CHR ''@'' \<notin> set n" and "CHR ''.'' \<notin> set n"
  shows "instance_of_unit (''iprotate@'' @ n @ ''.service'') = n"
proof -
  have "split_on CHR ''@'' (''iprotate'' @ CHR ''@'' # (n @ ''.service'')) = [''iprotate'', n @ ''.service'']"
    using assms(1) by (subst split_on_append) (simp_all add: split_on_none)
  moreover have "split_on CHR ''.'' (n @ CHR ''.'' # ''service'') = n # [''service'']"
    using assms(2) by (subst split_on_append) (simp_all add: split_on_none)
  ultimately show ?thesis by (simp add: instance_of_unit_def)
qed

text \<open>A unit of this program as systemd lists it.\<close>

definition profile_unit :: "string \<Rightarrow> string" where
  "profile_unit n = unit_name n @ ''.service''"

definition own_units :: "(string \<times> string) list \<Rightarrow> string list" where
  "own_units units =
     map (\<lambda>(u, _). unit_name (instance_of_unit u))
       (filter (\<lambda>(u, state). state = ''running'' \<and> startswith u ''iprotate@'') units)"

lemma stop_loop:
  assumes "stops api stopped"
  shows "\<exists>s'. for_each (map fst (filter (\<lambda>(u, state). state = ''running'') units)) (\<lambda>u.
       if startswith u ''iprotate@'' then service_stop api (instance_of_unit u) else ret ()) s = (Inr (), s') \<and>
    stopped (ext s') = stopped (ext s) @ own_units units \<and> files s' = files s"
proof (induction units arbitrary: s)
  case (Cons x units)
  obtain u st where x: "x = (u, st)" by (cases x)
  show ?case
  proof (cases "st = ''running'' \<and> startswith u ''iprotate@''")
    case False
    with Cons.IH [of s] x show ?thesis by (auto simp: own_units_def thenP_def bindP_def)
  next
    case True
    obtain r w where r: "sv_stop api (unit_name (instance_of_unit u)) (ext s) = (r, w)" by fastforce
    then have "r = Inr ()" "stopped w = stopped (ext s) @ [unit_name (instance_of_unit u)]"
      using assms unfolding stops_def by (metis fst_conv snd_conv)+
    with True r x Cons.IH [of "s\<lparr>ext := w\<rparr>"] show ?thesis
      by (simp add: own_units_def service_stop_def ext_op_def thenP_def bindP_def)
  qed
qed (simp add: own_units_def)

text \<open>the start of the server stops exactly the running units of this program, in the
  order in which systemd lists them, under their right names as long as no profile name
  has a dot or an at sign; units of other programs and units that do not run are left
  alone.\<close>

theorem reset_stops_own_services:
  assumes "stops api stopped" and "fst (sv_units api (ext s)) =
      Inr (map (\<lambda>(n, st). (profile_unit n, st)) own @ foreign)"
    and "\<forall>(n, st) \<in> set own. CHR ''@'' \<notin> set n \<and> CHR ''.'' \<notin> set n"
    and "\<forall>(u, st) \<in> set foreign. \<not> startswith u ''iprotate@''"
  shows "\<exists>s'. reset_all api s = (Inr (), s') \<and> files s' = files s \<and>
    stopped (ext s') = stopped (ext s) @ map (\<lambda>(n, _). unit_name n) (filter (\<lambda>(n, st). st = ''running'') own)"
proof -
  let ?units = "map (\<lambda>(n, st). (profile_unit n, st)) own @ foreign"
  obtain w where w: "sv_units api (ext s) = (Inr ?units, w)" using assms(2) by (metis prod.collapse)
  have sw: "stopped w = stopped (ext s)" using assms(1) w unfolding stops_def by (metis snd_conv)
  obtain s' where l: "for_each (map fst (filter (\<lambda>(u, state). state = ''running'') ?units)) (\<lambda>u.
       if startswith u ''iprotate@'' then service_stop api (instance_of_unit u) else ret ()) (s\<lparr>ext := w\<rparr>) = (Inr (), s')"
    "stopped (ext s') = stopped w @ own_units ?units" "files s' = files s"
    using stop_loop [OF assms(1), of ?units "s\<lparr>ext := w\<rparr>"] by auto
  have run: "reset_all api s = (Inr (), s')"
    using w l(1) by (simp add: reset_all_def ext_op_def)
  have f: "own_units foreign = []" using assms(4) by (auto simp: own_units_def filter_empty_conv)
  have "own_units (map (\<lambda>(n, st). (profile_unit n, st)) own) =
      map (\<lambda>(n, _). unit_name n) (filter (\<lambda>(n, st). st = ''running'') own)"
    using assms(3)
  proof (induction own)
    case (Cons x own)
    obtain n st where x: "x = (n, st)" by (cases x)
    with Cons.prems have "instance_of_unit (profile_unit n) = n"
      using instance_of_unit_plain by (simp add: profile_unit_def unit_name_def)
    moreover have "startswith (profile_unit n) ''iprotate@''"
      by (simp add: startswith_def profile_unit_def unit_name_def)
    ultimately show ?case using Cons x by (simp add: own_units_def)
  qed (simp add: own_units_def)
  moreover have "own_units (a @ b) = own_units a @ own_units b" for a b by (simp add: own_units_def)
  ultimately show ?thesis using run l sw f by auto
qed

definition demo_svc :: "string list svc_api" where
  "demo_svc = \<lparr>sv_restart = (\<lambda>n w. (Inr (), w)), sv_stop = (\<lambda>n w. (Inr (), w @ [n])), sv_start = (\<lambda>n w. (Inr (), w)),
     sv_units = (\<lambda>w. (Inr (map (\<lambda>(n, st). (profile_unit n, st)) [(''iprotate_1_a'', ''running''), (''iprotate_2_b'', ''dead'')]
       @ [(''ssh.service'', ''running'')]), w))\<rparr>"

theorem reset_stops_own_services_witness:
  "\<exists>s'. reset_all demo_svc \<lparr>files = Map.empty, ext = []\<rparr> = (Inr (), s') \<and> ext s' = [unit_name ''iprotate_1_a'']"
proof -
  have "stops demo_svc (\<lambda>w. w)" by (simp add: stops_def demo_svc_def)
  from reset_stops_own_services [OF this, of "\<lparr>files = Map.empty, ext = []\<rparr>"
      "[(''iprotate_1_a'', ''running''), (''iprotate_2_b'', ''dead'')]" "[(''ssh.service'', ''running'')]"]
  show ?thesis by (auto simp: demo_svc_def startswith_def)
qed

end
