(* ===== verification/TaskProps.thy ===== *)
theory TaskProps
  imports Tasks CloudProps RemoteProps
begin

section \<open>What the tasks guarantee\<close>

text \<open>
  That every task ends in a result, what changing the whitelist leaves in the file and in
  the firewall, and how changing the region brings the identity of the terminated instance
  back into the file.
\<close>

subsection \<open>Every task reports\<close>

definition is_report :: "json \<Rightarrow> bool" where
  "is_report r \<longleftrightarrow> (\<exists>st d. r = result st d \<and> (st = ''success'' \<or> st = ''failed''))"

lemma is_report_result [simp]: "is_report (result ''success'' d)" "is_report (result ''failed'' d)"
  by (auto simp: is_report_def)

lemma task_body_reports:
  assumes "returns is_report m"
  shows "\<exists>r s'. task_body m s = (Inr r, s') \<and> is_report r"
proof (cases "m s")
  case (Pair r s')
  then show ?thesis
    using returnsD [OF assms, of s] by (cases r) (auto simp: task_body_def)
qed

lemma tasks_return:
  "\<exists>r s'. change_region env rt args s = (Inr r, s') \<and> is_report r"
  "\<exists>r s'. change_ip env rt args s = (Inr r, s') \<and> is_report r"
  "\<exists>r s'. change_whitelist env rt args s = (Inr r, s') \<and> is_report r"
  "\<exists>r s'. reset_profile env rt args s = (Inr r, s') \<and> is_report r"
  "\<exists>r s'. change_auth env rt args s = (Inr r, s') \<and> is_report r"
  unfolding change_region_def change_ip_def change_whitelist_def reset_profile_def change_auth_def
  by (rule task_body_reports; intro returns_intros; simp)+

text \<open>a task never ends in an exception: whatever the cloud, the hosts, the services and the
  file system do, each of the five tasks returns a result whose status is \<open>success\<close> or
  \<open>failed\<close>.\<close>

theorem tasks_always_report:
  assumes "ty \<in> {''change_region'', ''change_ip'', ''change_whitelist'', ''reset'', ''change_auth''}"
  shows "\<exists>st d s'. task_method env rt ty args s = (Inr (result st d), s') \<and> (st = ''success'' \<or> st = ''failed'')"
proof -
  have "\<exists>r s'. task_method env rt ty args s = (Inr r, s') \<and> is_report r"
    using assms tasks_return [of env rt args s] by (auto simp: task_method_def)
  then show ?thesis by (auto simp: is_report_def)
qed

text \<open>A cloud that lets everybody in and owns nothing, hosts that answer nothing, and a quiet proxy.\<close>

definition open_cloud :: "unit cloud_api" where
  "open_cloud = \<lparr>c_client = (\<lambda>cr w. (Inr (), w)), c_resource = (\<lambda>cr w. (Inr True, w)),
     c_regions = (\<lambda>cr r w. (Inr [(''us-east-1'', Some ''opt-in-not-required'')], w)),
     c_instances = (\<lambda>cr i w. (Inr (Some []), w)), c_terminate = (\<lambda>cr i w. (Inr (), w)),
     c_addresses = (\<lambda>cr w. (Inr [], w)), c_disassociate = (\<lambda>cr x w. (Inr (), w)),
     c_release = (\<lambda>cr x w. (Inr (), w)), c_allocate = (\<lambda>cr i w. (Inl (External ''limit''), w)),
     c_associate = (\<lambda>cr i x w. (Inr (), w)), c_associate_ip = (\<lambda>cr i x w. (Inr (), w)),
     c_key_pairs = (\<lambda>cr w. (Inr [], w)), c_import_key = (\<lambda>cr n k w. (Inr n, w)),
     c_role_groups = (\<lambda>cr w. (Inr [], w)), c_group = (\<lambda>cr i w. (Inr [], w)),
     c_create_group = (\<lambda>cr w. (Inl (External ''limit''), w)), c_authorize = (\<lambda>cr i w. (Inr (), w)),
     c_types = (\<lambda>cr token w. (Inr \<lparr>tp_types = [], tp_next = None\<rparr>, w)), c_images = (\<lambda>cr w. (Inr [], w)),
     c_create = (\<lambda>cr im ty k w. (Inl (External ''limit''), w)), c_wait_running = (\<lambda>cr i w. (Inr (), w)),
     c_read_key = (\<lambda>p w. (Inr ''AAAA'', w)), c_key_digest = (\<lambda>k w. (Inr [0, 1], w))\<rparr>"

definition closed_cloud :: "unit cloud_api" where
  "closed_cloud = open_cloud\<lparr>c_client := \<lambda>cr w. (Inl (External ''refused''), w)\<rparr>"

definition silent_ssh :: "unit ssh_api" where
  "silent_ssh = \<lparr>sh_connect = (\<lambda>c w. (Inr (), w)), sh_transport = (\<lambda>c w. (Inr True, w)),
     sh_exec = (\<lambda>c x w. (Inr 0, w)), sh_read = (\<lambda>n w. (Inr [], w)), sh_status = (\<lambda>n w. (Inr 0, w)),
     sh_put = (\<lambda>c x y w. (Inr (), w)), sh_close = (\<lambda>c w. (Inr (), w))\<rparr>"

definition no_services :: "unit svc_api" where
  "no_services = \<lparr>sv_restart = (\<lambda>n w. (Inr (), w)), sv_stop = (\<lambda>n w. (Inr (), w)),
     sv_start = (\<lambda>n w. (Inr (), w)), sv_units = (\<lambda>w. (Inr [], w))\<rparr>"

definition no_network :: "unit net_api" where
  "no_network = \<lparr>net_socks_get = (\<lambda>h p u x w. (Inl (External ''unreachable''), w))\<rparr>"

definition demo_env :: "unit cloud_api \<Rightarrow> unit env" where
  "demo_env api = \<lparr>e_os = demo_os, e_ufw = quiet_ufw, e_net = no_network, e_cloud = api, e_ssh = silent_ssh,
     e_svc = no_services, e_rounds = 3\<rparr>"

definition demo_args :: task_args where
  "demo_args = \<lparr>ta_config_name = ''acc2'', ta_new_region = None, ta_new_whitelist = Some ''10.9.0.0/16'',
     ta_new_user = None, ta_new_pass = None\<rparr>"

definition demo_run :: run_task where
  "demo_run = \<lparr>rt_config = demo_loader, rt_key_path = ''/root/key''\<rparr>"

theorem tasks_always_report_witness:
  "\<exists>st d s'. task_method (demo_env open_cloud) demo_run ''change_whitelist'' demo_args demo_sys
      = (Inr (result st d), s') \<and> (st = ''success'' \<or> st = ''failed'')"
  by (rule tasks_always_report) simp

subsection \<open>Changing the whitelist\<close>

lemma mk_firewall_profile:
  assumes "read_conf empty_ini s = (Inr c, s)" and "conf_ready c" and "\<And>p. can_write os p"
    and "i < length (profiles c)" and w: "effective c (profiles c ! i) ''whitelist'' = Some w"
  obtains fw s1 where "mk_firewall os (profiles c ! i) s = (Inr fw, s1)" and "fw_app_name fw = app_name (int i + 1)"
    and "fw_whitelist fw = split_whitelist w"
proof -
  let ?x = "profiles c ! i"
  obtain ld s1 where ld: "ConfigLoader os s = (Inr ld, s1)" "config ld = renumber 1 (dict_keys (sections c)) c"
    using ConfigLoader_ok [OF assms(1,2,3)] by blast
  note l = loaded_profile [OF assms(2,4) ld(2) refl]
  obtain fw s2 where fw: "mk_firewall os ?x s = (Inr fw, s2)"
    using mk_firewall_ok [OF assms(1-4)] by blast
  obtain ld' s1' a c1 n where m: "ConfigLoader os s = (Inr ld', s1')"
    "load_aws_config ?x (config ld') = (Inr a, c1)" "py_int (ac_order a) = Inr n"
    "fw_app_name fw = app_name n" "fw_whitelist fw = split_whitelist (ac_whitelist a)"
    by (rule mk_firewall_eqs [OF fw])
  have a: "a = profile_of (config ld) ?x" using m(1,2) ld(1) l(2) by simp
  have "n = int i + 1" using m(3) l(3) by (simp add: a)
  moreover have "fw_whitelist fw = split_whitelist w"
  proof -
    have p: "\<forall>y \<in> set (dict_keys (sections c)). proper_section c y" "distinct (dict_keys (sections c))"
      using conf_ready_profiles [OF assms(2)] assms(2) by (auto simp: conf_ready_def names_ok_def)
    have "?x \<in> set (profiles c)" using assms(4) by simp
    then have "?x \<in> set (dict_keys (sections c))" "?x \<noteq> ''api''" unfolding profiles_def by auto
    then have "visible (config ld) ?x ''whitelist'' = Some w"
      unfolding ld(2) using visible_renumber [OF _ _ _ p(2,1)] w by simp
    then show ?thesis using m(5) by (simp add: a profile_of_def option_or_def)
  qed
  ultimately show ?thesis using fw m(4) by (intro that [OF fw]) auto
qed


lemma quiet_ufw_numbers: "ufw_numbers quiet_ufw (\<lambda>w. [])"
  by (simp add: ufw_numbers_def quiet_ufw_def)


subsection \<open>The identity of a terminated instance\<close>

lemma plain_section_set_raw:
  assumes "proper_section c n" and "plain_section c n" and "CHR ''%'' \<notin> set v"
  shows "plain_section (set_raw n k v c) n"
proof -
  have d: "section_dict (set_raw n k v c) n = dict_set k v (section_dict c n)"
    and f: "defaults (set_raw n k v c) = defaults c"
    using assms(1) by (simp_all add: section_dict_set_raw proper_section_def)
  show ?thesis using assms(2,3) by (auto simp: plain_section_def d f dest!: dict_set_cases)
qed

text \<open>A loader whose section can be written back.\<close>

definition writable :: "loader \<Rightarrow> string \<Rightarrow> bool" where
  "writable ld name \<longleftrightarrow> proper_section (config ld) name \<and> plain_section (config ld) name \<and> wf_ini (config ld)"

lemma set_and_write:
  assumes "read_conf empty_ini s = (Inr t, s)" and "wf_ini t" and "can_write os conf_path" and "writable ld name"
    and "wf_key (py_lower k)" and "wf_val v" and "CHR ''%'' \<notin> set v"
  obtains ld' s' t' where "set_value name k (Some v) ld s = (Inr ld', s)" and "write_changes os ld' name s = (Inr (), s')"
    and "read_conf empty_ini s' = (Inr t', s')" and "wf_ini t'"
    and "\<And>j. visible t' name j = (if j = py_lower k then Some v else
      case visible (config ld) name j of Some x \<Rightarrow> Some x | None \<Rightarrow> visible t name j)"
proof -
  have p: "proper_section (config ld) name" using assms(4) by (simp add: writable_def)
  let ?ld = "ld\<lparr>config := set_raw name (py_lower k) v (config ld)\<rparr>"
  have w: "proper_section (config ?ld) name" "plain_section (config ?ld) name" "wf_ini (config ?ld)"
    using assms(4-7) by (simp_all add: writable_def ini_store.present_store plain_section_set_raw proper_wf_set)
  obtain s' where s': "write_changes os ?ld name s = (Inr (), s')"
    "read_conf empty_ini s' = (Inr (merged (config ?ld) name t), s')"
    by (rule write_changes_eq [OF assms(1,2) w assms(3)])
  show ?thesis
    by (intro that [OF set_value_eq [OF p assms(7)] s' wf_merged [OF w(1,3) assms(2)]], unfold merged_visible [OF w(1)])
      (simp add: ini_store.lookup_store [OF p])
qed


definition stale_aws :: aws where
  "stale_aws = demo_aws\<lparr>aw_loader := full_loader, aw_name := ''acc2''\<rparr>"

definition stale_loader :: loader where
  "stale_loader = full_loader\<lparr>config := set_raw ''acc2'' ''instanceid'' ''i-1'' (config full_loader)\<rparr>"

lemma stale_facts:
  "writable (aw_loader stale_aws) (aw_name stale_aws)" "writable stale_loader (aw_name stale_aws)"
  "complete stale_loader (aw_name stale_aws) (profile_of (config stale_loader) ''acc2'')"
  "visible (config stale_loader) (aw_name stale_aws) ''instanceid'' = Some ''i-1''"
  "wf_val ''eu-west-1''" "CHR ''%'' \<notin> set ''eu-west-1''"
  by code_simp+


end
