(* ===== verification/ManagerProps.thy ===== *)
theory ManagerProps
  imports Manager TaskProps
begin

section \<open>What the task manager guarantees\<close>

text \<open>
  The contract of a board on which profiles are marked busy and idle, its interpretation
  on \<open>set_start_task\<close> and \<open>set_stop_task\<close>, what a finished task leaves in the table, and
  what an exception before the task's own \<open>try\<close> leaves there.
\<close>

subsection \<open>The contract of a status board\<close>

locale status_board =
  fixes status :: "'b \<Rightarrow> string \<Rightarrow> string option"
    and start :: "string \<Rightarrow> 'b \<Rightarrow> 'b"
    and stop :: "string \<Rightarrow> 'b \<Rightarrow> 'b"
  assumes status_start:
      "status b n \<noteq> None \<Longrightarrow> status (start n b) m = (if m = n then Some ''busy'' else status b m)"
    and status_stop:
      "status b n \<noteq> None \<Longrightarrow> status (stop n b) m = (if m = n then Some ''idle'' else status b m)"
begin

text \<open>A history of events: \<open>(True, n)\<close> starts a task of \<open>n\<close>, \<open>(False, n)\<close> stops one.\<close>

definition event :: "bool \<times> string \<Rightarrow> 'b \<Rightarrow> 'b" where
  "event e b = (if fst e then start (snd e) b else stop (snd e) b)"

definition history :: "(bool \<times> string) list \<Rightarrow> 'b \<Rightarrow> 'b" where
  "history es b = fold event es b"

lemma status_event:
  "status b (snd e) \<noteq> None \<Longrightarrow>
     status (event e b) m = (if m = snd e then Some (if fst e then ''busy'' else ''idle'') else status b m)"
  by (simp add: event_def status_start status_stop)

lemma history_known:
  "\<forall>e \<in> set es. status b (snd e) \<noteq> None \<Longrightarrow> status b m \<noteq> None \<Longrightarrow> status (history es b) m \<noteq> None"
proof (induction es arbitrary: b)
  case (Cons e es)
  then have "\<forall>x \<in> set es. status (event e b) (snd x) \<noteq> None" "status (event e b) m \<noteq> None"
    by (auto simp: status_event)
  with Cons.IH show ?case by (simp add: history_def)
qed (simp add: history_def)

text \<open>Events of other profiles do not matter.\<close>

lemma history_other:
  "\<forall>e \<in> set es. status b (snd e) \<noteq> None \<Longrightarrow> n \<notin> snd ` set es \<Longrightarrow> status (history es b) n = status b n"
proof (induction es arbitrary: b)
  case (Cons e es)
  then have "\<forall>x \<in> set es. status (event e b) (snd x) \<noteq> None" by (auto simp: status_event)
  with Cons show ?case by (simp add: history_def status_event)
qed (simp add: history_def)

text \<open>Only the last event of a profile counts: starts and stops do not nest.\<close>

lemma history_last:
  assumes "\<forall>e \<in> set (es @ (b', n) # fs). status b (snd e) \<noteq> None" and "n \<notin> snd ` set fs"
  shows "status (history (es @ (b', n) # fs) b) n = Some (if b' then ''busy'' else ''idle'')"
proof -
  let ?b = "history es b"
  have es: "\<forall>e \<in> set es. status b (snd e) \<noteq> None" using assms(1) by simp
  have k: "status ?b n \<noteq> None" "\<forall>e \<in> set fs. status ?b (snd e) \<noteq> None"
    using assms(1) history_known [OF es] by simp_all
  then have "\<forall>e \<in> set fs. status (event (b', n) ?b) (snd e) \<noteq> None" by (auto simp: status_event)
  from history_other [OF this assms(2)] k(1) show ?thesis
    by (simp add: history_def status_event)
qed

end

subsection \<open>The table of the server\<close>

definition profile_status :: "'w server \<Rightarrow> string \<Rightarrow> string option" where
  "profile_status s n = map_option pf_status (dict_get (sv_tasks s) n)"

lemma on_sys_Inr [simp]: "m (sv_sys s) = (Inr x, y) \<Longrightarrow> on_sys m s = (Inr x, s\<lparr>sv_sys := y\<rparr>)"
  by (simp add: on_sys_def)

lemma on_sys_Inl [simp]: "m (sv_sys s) = (Inl e, y) \<Longrightarrow> on_sys m s = (Inl e, s\<lparr>sv_sys := y\<rparr>)"
  by (simp add: on_sys_def)

lemma on_sys_eq: "on_sys m s = (r, s') \<longleftrightarrow> (\<exists>y. m (sv_sys s) = (r, y) \<and> s' = s\<lparr>sv_sys := y\<rparr>)"
  by (auto simp: on_sys_def split: prod.splits)

lemma update_known:
  "dict_get (sv_tasks s) n = Some p \<Longrightarrow>
     update_profile n f s = (Inr (), s\<lparr>sv_tasks := dict_set n (f p) (sv_tasks s)\<rparr>)"
  by (simp add: update_profile_def get_profile_def set_profile_def)

lemma update_unknown:
  "dict_get (sv_tasks s) n = None \<Longrightarrow> update_profile n f s = (Inl (KeyError n), s)"
  by (simp add: update_profile_def get_profile_def key_of_def bindP_def)

lemma now_files: "\<exists>t y. now os x = (Inr t, y) \<and> files y = files x"
  by (cases "os_now os (ext x)") (simp add: now_def)

text \<open>The marks of a start, in one step.\<close>

lemma mark_start_known:
  assumes "dict_get (sv_tasks s) (ta_config_name (jb_args j)) = Some p"
  obtains t1 t2 y where "mark_start env j s = (Inr (), s\<lparr>sv_sys := y, sv_tasks :=
      dict_set (ta_config_name (jb_args j))
        (p\<lparr>pf_status := ''busy'', pf_start_time := Some (Some t1), pf_current_task := Some (Some (jb_type j)),
           pf_last_task := dict_set ''task_type'' (JStr (jb_type j)) (dict_set ''start_time'' (JStr t2) (pf_last_task p))\<rparr>)
        (sv_tasks s)\<rparr>)"
    and "files y = files (sv_sys s)"
proof -
  obtain t1 y1 where 1: "now (e_os env) (sv_sys s) = (Inr t1, y1)" "files y1 = files (sv_sys s)"
    using now_files by blast
  obtain t2 y2 where 2: "now (e_os env) y1 = (Inr t2, y2)" "files y2 = files y1"
    using now_files by blast
  have m: "mark_start env j s = (Inr (), s\<lparr>sv_sys := y2, sv_tasks :=
      dict_set (ta_config_name (jb_args j))
        (p\<lparr>pf_status := ''busy'', pf_start_time := Some (Some t1), pf_current_task := Some (Some (jb_type j)),
           pf_last_task := dict_set ''task_type'' (JStr (jb_type j)) (dict_set ''start_time'' (JStr t2) (pf_last_task p))\<rparr>)
        (sv_tasks s)\<rparr>)"
    using assms 1(1) 2(1)
    by (simp add: mark_start_def Let_def log_task_def update_known dict_get_set dict_set_set)
  have "files y2 = files (sv_sys s)" using 1(2) 2(2) by simp
  then show ?thesis by (rule that [OF m])
qed

lemma set_stop_known:
  assumes "dict_get (sv_tasks s) n = Some p"
  obtains t y where "set_stop_task env n outcome data s = (Inr (), s\<lparr>sv_sys := y, sv_tasks :=
      dict_set n
        (p\<lparr>pf_status := ''idle'', pf_current_task := Some None,
           pf_last_task := dict_set ''data'' data (dict_set ''status'' (JStr outcome)
             (dict_set ''end_time'' (JStr t) (pf_last_task p)))\<rparr>)
        (sv_tasks s)\<rparr>)"
    and "files y = files (sv_sys s)"
proof -
  obtain t y where 1: "now (e_os env) (sv_sys s) = (Inr t, y)" "files y = files (sv_sys s)"
    using now_files by blast
  have m: "set_stop_task env n outcome data s = (Inr (), s\<lparr>sv_sys := y, sv_tasks :=
      dict_set n
        (p\<lparr>pf_status := ''idle'', pf_current_task := Some None,
           pf_last_task := dict_set ''data'' data (dict_set ''status'' (JStr outcome)
             (dict_set ''end_time'' (JStr t) (pf_last_task p)))\<rparr>)
        (sv_tasks s)\<rparr>)"
    using assms 1(1)
    by (simp add: set_stop_task_def log_task_def update_known dict_get_set dict_set_set)
  show ?thesis by (rule that [OF m 1(2)])
qed

interpretation board: status_board profile_status "\<lambda>n s. snd (mark_start env (named_job ty n) s)"
  "\<lambda>n s. snd (set_stop_task env n outcome data s)"
proof unfold_locales
  fix b :: "'a server" and n m
  assume known: "profile_status b n \<noteq> None"
  then obtain p where p: "dict_get (sv_tasks b) n = Some p" by (auto simp: profile_status_def)
  have p': "dict_get (sv_tasks b) (ta_config_name (jb_args (named_job ty n))) = Some p"
    by (simp add: named_job_def p)
  show "profile_status (snd (mark_start env (named_job ty n) b)) m = (if m = n then Some ''busy'' else profile_status b m)"
    by (rule mark_start_known [OF p', of env]) (simp add: profile_status_def dict_get_set named_job_def)
  show "profile_status (snd (set_stop_task env n outcome data b)) m = (if m = n then Some ''idle'' else profile_status b m)"
    by (rule set_stop_known [OF p, of env outcome data]) (simp add: profile_status_def dict_get_set)
qed

text \<open>C16: the status of a profile is that of its own last event: after any history of started
  and stopped tasks of known profiles, whatever the environment, task type and outcome,
  a profile whose last event is a start is busy and one whose last event is a stop is idle.
  Events of other profiles never change it; and since starts and stops do not nest, one
  stop ends the mark of several starts.\<close>

theorem last_event_decides:
  assumes "\<forall>e \<in> set (es @ (b, n) # fs). profile_status s (snd e) \<noteq> None" and "n \<notin> snd ` set fs"
  shows "profile_status
      (fold (\<lambda>(begins, m) s. if begins then snd (mark_start env (named_job ty m) s)
                             else snd (set_stop_task env m outcome data s)) (es @ (b, n) # fs) s) n
    = Some (if b then ''busy'' else ''idle'')"
proof -
  have "(\<lambda>(begins, m) s. if begins then snd (mark_start env (named_job ty m) s)
                             else snd (set_stop_task env m outcome data s)) = board.event env ty outcome data"
    by (auto simp: fun_eq_iff board.event_def)
  with board.history_last [OF assms, of env ty outcome data] show ?thesis
    by (simp only: board.history_def)
qed

subsection \<open>A finished task\<close>

lemma set_start_unknown:
  assumes "dict_get (sv_tasks s) (ta_config_name (jb_args j)) = None"
  shows "set_start_task env j s = (Inl (KeyError (ta_config_name (jb_args j))), s)"
  using assms by (simp add: set_start_task_def mark_start_def Let_def update_unknown thenP_def bindP_def)

lemma keeps_on_sys_tasks: "sv_tasks (snd (on_sys m s)) = sv_tasks s"
  by (simp add: on_sys_def split: prod.splits)

lemma on_sys_tasks: "on_sys m s = (r, s') \<Longrightarrow> sv_tasks s' = sv_tasks s \<and> sv_threads s' = sv_threads s"
  by (auto simp: on_sys_def split: prod.splits)

lemma reload_profile_Inr:
  assumes "reload_profile env n s = (Inr u, s')"
  obtains p a where "dict_get (sv_tasks s) n = Some p" and "ac_configName a = n"
    and "sv_tasks s' = dict_set n ((fresh_profile a)\<lparr>pf_current_task := Some None, pf_last_task := pf_last_task p\<rparr>) (sv_tasks s)"
    and "sv_threads s' = sv_threads s"
proof -
  from assms obtain as s1 p a where 1: "on_sys (all_profiles (e_os env)) s = (Inr as, s1)"
    and p: "dict_get (sv_tasks s1) n = Some p" and a: "find (\<lambda>a. ac_configName a = n) as = Some a"
    and s': "s' = s1\<lparr>sv_tasks := dict_set n ((fresh_profile a)\<lparr>pf_current_task := Some None, pf_last_task := pf_last_task p\<rparr>) (sv_tasks s1)\<rparr>"
    by (auto simp: reload_profile_def bindP_eq_Inr get_profile_def key_of_def attr_def set_profile_def split: option.splits)
  have "ac_configName a = n" using a by (auto simp: find_Some_iff)
  with p s' on_sys_tasks [OF 1] show ?thesis by (intro that [of p a]) simp_all
qed

text \<open>The demonstration server: the profile \<open>acc2\<close> is known; the file is the given one.\<close>

definition demo_profile :: profile where
  "demo_profile = \<lparr>pf_config_name = ''acc2'', pf_status = ''idle'', pf_region = Some ''us-east-1'', pf_last_task = [],
     pf_current_task = None, pf_start_time = None\<rparr>"

definition demo_server :: "(string \<Rightarrow> string option) \<Rightarrow> unit server" where
  "demo_server fs = \<lparr>sv_sys = \<lparr>files = fs, ext = ()\<rparr>, sv_tasks = [(''acc2'', demo_profile)], sv_threads = []\<rparr>"

subsection \<open>Reading the profiles twice\<close>

lemma all_profiles_ok:
  assumes "read_conf empty_ini s = (Inr c, s)" and "conf_ready c" and "wf_ini c" and "can_write os conf_path"
  obtains as s' d where "all_profiles os s = (Inr as, s')" and "map ac_configName as = profiles c"
    and "read_conf empty_ini s' = (Inr d, s')" and "conf_ready d" and "wf_ini d"
    and "dict_keys (sections d) = dict_keys (sections c)"
proof -
  obtain ld s1 c1 where 1: "ConfigLoader os s = (Inr ld, s1)" "config ld = renumber 1 (dict_keys (sections c)) c"
    "read_conf empty_ini s1 = (Inr c1, s1)" "conf_ready c1" "wf_ini c1" "dict_keys (sections c1) = dict_keys (sections c)"
    by (rule ConfigLoader_file [OF assms])
  let ?l = "config ld" and ?ns = "dict_keys (sections (config ld))"
  have p: "\<forall>x \<in> set (dict_keys (sections c)). proper_section c x" using conf_ready_profiles [OF assms(2)] by blast
  have r: "conf_ready ?l" "wf_ini ?l" "?ns = dict_keys (sections c)" unfolding 1(2)
    using conf_ready_renumber [OF assms(2) p] wf_renumber [OF assms(3) p] renumber_names [OF p] by auto
  have pl: "\<forall>x \<in> set ?ns. proper_section ?l x" using conf_ready_profiles [OF r(1)] by blast
  have "distinct ?ns" using r(1) by (simp add: conf_ready_def names_ok_def)
  then obtain s2 where l: "load_all_loop os 1 ?ns ?l s1 =
      (Inr (map (profile_of (renumber 1 ?ns ?l)) (profiles ?l), renumber 1 ?ns ?l), s2)"
    using loop_ok [OF conf_ready_profiles [OF r(1)] _ assms(4), of 1 s1] by (auto simp: profiles_def)
  then have a: "all_profiles os s = (Inr (map (profile_of (renumber 1 ?ns ?l)) (profiles ?l)), s2)"
    using 1(1) by (simp add: all_profiles_def load_all_aws_config_def)
  have n: "map ac_configName (map (profile_of (renumber 1 ?ns ?l)) (profiles ?l)) = profiles c"
    using r(3) by (simp add: profile_of_def comp_def profiles_def)
  have f: "files s2 = (case last_saved 1 ?ns ?l of None \<Rightarrow> files s1
      | Some d \<Rightarrow> (files s1)(conf_path := Some (ini_write d)))"
    using loop_Inr [OF l pl] by blast
  show ?thesis
  proof (cases "last_saved 1 ?ns ?l")
    case None
    with f have "read_conf empty_ini s2 = (Inr c1, s2)"
      using 1(3) by (simp add: read_conf_def split: option.splits)
    from that [OF a n this 1(4-6)] show ?thesis .
  next
    case (Some d)
    have w: "wf_ini d" "dict_keys (sections d) = dict_keys (sections c)" "conf_ready d"
      using last_saved_frame [OF Some pl] conf_ready_last_saved [OF Some r(1) pl] r(2,3) by auto
    with f Some have "read_conf empty_ini s2 = (Inr d, s2)" by (simp add: read_conf_def ini_read_write)
    from that [OF a n this w(3,1,2)] show ?thesis .
  qed
qed

text \<open>The end of a task is reached from every loadable file that has the profile.\<close>

lemma mark_end_ok:
  assumes "dict_get (sv_tasks s) (ta_config_name (jb_args j)) = Some p"
    and "read_conf empty_ini (sv_sys s) = (Inr c, sv_sys s)" and "conf_ready c" and "wf_ini c"
    and "can_write (e_os env) conf_path" and "ta_config_name (jb_args j) \<in> set (profiles c)"
  shows "\<exists>s'. mark_end env j r s = (Inr r, s')"
proof -
  let ?n = "ta_config_name (jb_args j)"
  let ?st = "if json_get r ''status'' = Some (JStr ''success'') then ''success'' else ''failed''"
  obtain s1 p1 where 1: "set_stop_task env ?n ?st r s = (Inr (), s1)" "files (sv_sys s1) = files (sv_sys s)"
    "dict_get (sv_tasks s1) ?n = Some p1"
    by (rule set_stop_known [OF assms(1), of env ?st r]) (auto simp: dict_get_set)
  have "read_conf empty_ini (sv_sys s1) = (Inr c, sv_sys s1)"
    using assms(2) 1(2) by (auto simp: read_conf_def split: option.splits)
  then obtain as y where as: "all_profiles (e_os env) (sv_sys s1) = (Inr as, y)" "map ac_configName as = profiles c"
    by (rule all_profiles_ok [OF _ assms(3-5)])
  have "?n \<in> ac_configName ` set as" using assms(6) unfolding as(2) [symmetric] by simp
  then have "find (\<lambda>a. ac_configName a = ?n) as \<noteq> None" unfolding find_None_iff by auto
  then obtain a where "find (\<lambda>a. ac_configName a = ?n) as = Some a" by blast
  then have "\<exists>s'. reload_profile env ?n s1 = (Inr (), s')"
    using as(1) 1(3) by (simp add: reload_profile_def get_profile_def key_of_def attr_def set_profile_def)
  with 1(1) show ?thesis by (auto simp: mark_end_def Let_def split: if_splits)
qed

text \<open>C15: when \<open>set_start_task\<close> returns, its profile is idle again with no current task, and the
  log of its last task has the type, the status (\<open>success\<close> exactly if the task reported
  success, else \<open>failed\<close>) and the whole result; all other profiles and the queue of threads
  are as before.\<close>

theorem finished_task_logged:
  assumes "set_start_task env j s = (Inr r, s')"
  shows "\<exists>p. dict_get (sv_tasks s') (ta_config_name (jb_args j)) = Some p \<and>
    pf_status p = ''idle'' \<and> pf_current_task p = Some None \<and>
    dict_get (pf_last_task p) ''task_type'' = Some (JStr (jb_type j)) \<and>
    dict_get (pf_last_task p) ''data'' = Some r \<and>
    dict_get (pf_last_task p) ''status'' =
      Some (JStr (if json_get r ''status'' = Some (JStr ''success'') then ''success'' else ''failed'')) \<and>
    (\<forall>m. m \<noteq> ta_config_name (jb_args j) \<longrightarrow> dict_get (sv_tasks s') m = dict_get (sv_tasks s) m) \<and>
    sv_threads s' = sv_threads s"
proof -
  let ?n = "ta_config_name (jb_args j)"
  let ?st = "if json_get r ''status'' = Some (JStr ''success'') then ''success'' else ''failed''"
  obtain p where p: "dict_get (sv_tasks s) ?n = Some p"
    using assms set_start_unknown [of s j env] by (cases "dict_get (sv_tasks s) ?n") auto
  obtain t1 t2 y where 1: "mark_start env j s = (Inr (), s\<lparr>sv_sys := y, sv_tasks := dict_set ?n
        (p\<lparr>pf_status := ''busy'', pf_start_time := Some (Some t1), pf_current_task := Some (Some (jb_type j)),
           pf_last_task := dict_set ''task_type'' (JStr (jb_type j)) (dict_set ''start_time'' (JStr t2) (pf_last_task p))\<rparr>)
        (sv_tasks s)\<rparr>)"
    by (rule mark_start_known [OF p])
  obtain s1 where s1: "mark_start env j s = (Inr (), s1)" "sv_threads s1 = sv_threads s"
    and t1: "\<forall>m. m \<noteq> ?n \<longrightarrow> dict_get (sv_tasks s1) m = dict_get (sv_tasks s) m"
    and p1: "\<exists>p1. dict_get (sv_tasks s1) ?n = Some p1 \<and> dict_get (pf_last_task p1) ''task_type'' = Some (JStr (jb_type j))"
    using 1 by (simp add: dict_get_set)
  obtain r0 s2 where s2: "on_sys (run_job env j) s1 = (Inr r0, s2)" and e: "mark_end env j r0 s2 = (Inr r, s')"
    using assms s1(1) by (auto simp: set_start_task_def thenP_def bindP_eq_Inr)
  note t2 = on_sys_tasks [OF s2]
  obtain p1 where p1: "dict_get (sv_tasks s2) ?n = Some p1" "dict_get (pf_last_task p1) ''task_type'' = Some (JStr (jb_type j))"
    using p1 t2 by auto
  obtain s3 where r: "r0 = r" and s3: "set_stop_task env ?n ?st r s2 = (Inr (), s3)" and l: "reload_profile env ?n s3 = (Inr (), s')"
    using e by (auto simp: mark_end_def Let_def thenP_def bindP_eq_Inr split: if_splits)
  obtain t z where 3: "s3 = s2\<lparr>sv_sys := z, sv_tasks := dict_set ?n
        (p1\<lparr>pf_status := ''idle'', pf_current_task := Some None,
           pf_last_task := dict_set ''data'' r (dict_set ''status'' (JStr ?st) (dict_set ''end_time'' (JStr t) (pf_last_task p1)))\<rparr>)
        (sv_tasks s2)\<rparr>"
    by (rule set_stop_known [OF p1(1), of env ?st r]) (use s3 in simp)
  obtain p3 a where 4: "dict_get (sv_tasks s3) ?n = Some p3"
    "sv_tasks s' = dict_set ?n ((fresh_profile a)\<lparr>pf_current_task := Some None, pf_last_task := pf_last_task p3\<rparr>) (sv_tasks s3)"
    "sv_threads s' = sv_threads s3"
    by (rule reload_profile_Inr [OF l])
  show ?thesis
    using 3 4 p1(2) t1 t2 s1(2)
    by (auto simp: dict_get_set fresh_profile_def)
qed

text \<open>A whitelist that is not there cannot be stored: the task fails, and everything ends well.\<close>

theorem finished_task_logged_witness:
  "\<exists>r s' p. set_start_task (demo_env open_cloud) (named_job ''change_whitelist'' ''acc2'') (demo_server demo_files) = (Inr r, s') \<and>
    dict_get (sv_tasks s') ''acc2'' = Some p \<and> pf_status p = ''idle''"
proof -
  let ?env = "demo_env open_cloud" and ?j = "named_job ''change_whitelist'' ''acc2''" and ?s = "demo_server demo_files"
  have n: "ta_config_name (jb_args ?j) = ''acc2''" "jb_type ?j = ''change_whitelist''"
    "ta_new_whitelist (jb_args ?j) = None" by (simp_all add: named_job_def)
  have os: "e_os ?env = demo_os" by (simp add: demo_env_def)
  have acc2: "''acc2'' \<in> set (profiles demo_ini)" by code_simp
  have g: "dict_get (sv_tasks ?s) (ta_config_name (jb_args ?j)) = Some demo_profile"
    by (simp add: n demo_server_def)
  obtain s1 p1 where 1: "mark_start ?env ?j ?s = (Inr (), s1)" "dict_get (sv_tasks s1) ''acc2'' = Some p1"
    "files (sv_sys s1) = demo_files"
    by (rule mark_start_known [OF g, of ?env]) (auto simp: dict_get_set n demo_server_def)
  have "read_conf empty_ini (sv_sys s1) = (Inr demo_ini, sv_sys s1)"
    using 1(3) by (simp add: read_conf_def demo_files_def ini_read_write)
  then obtain ld2 s2 d2 where 2: "ConfigLoader demo_os (sv_sys s1) = (Inr ld2, s2)" "read_conf empty_ini s2 = (Inr d2, s2)"
    "conf_ready d2" "wf_ini d2" "dict_keys (sections d2) = dict_keys (sections demo_ini)"
    by (rule ConfigLoader_file [OF _ conf_ready_demo wf_demo_ini can_write_demo])
  obtain ld3 s3 d3 where 3: "ConfigLoader demo_os s2 = (Inr ld3, s3)" "read_conf empty_ini s3 = (Inr d3, s3)"
    "conf_ready d3" "wf_ini d3" "dict_keys (sections d3) = dict_keys (sections d2)"
    by (rule ConfigLoader_file [OF 2(2,3,4) can_write_demo])
  obtain e where "set_value ''acc2'' ''whitelist'' None ld3 s3 = (Inl e, s3)"
    by (simp add: set_value_def run_ini_def cset_def bindP_def ini_set_def)
  then have run: "run_job ?env ?j (sv_sys s1) = (Inr (result ''failed'' (JErr e)), s3)"
    using 2(1) 3(1)
    by (simp add: run_job_def mk_run_task_def task_method_def change_whitelist_def task_body_def Let_def n os)
  let ?s4 = "s1\<lparr>sv_sys := s3\<rparr>"
  have "''acc2'' \<in> set (profiles d3)" using acc2 2(5) 3(5) by (simp add: profiles_def)
  then have "\<exists>s'. mark_end ?env ?j (result ''failed'' (JErr e)) ?s4 = (Inr (result ''failed'' (JErr e)), s')"
    using 1(2) 3(2-4) by (intro mark_end_ok [of _ _ p1 d3]) (simp_all add: n os)
  then obtain s' where s': "set_start_task ?env ?j ?s = (Inr (result ''failed'' (JErr e)), s')"
    using 1(1) run by (auto simp: set_start_task_def)
  with finished_task_logged [OF s'] show ?thesis by (auto simp: n)
qed

text \<open>C28: an exception outside the task's own \<open>try\<close> leaves the profile busy for good: if the
  construction of the task fails, as it does whenever the file cannot be loaded, the
  thread ends with the exception, and the profile stays marked busy with its task as the
  current one; nothing but another task or a failed login clears the mark.\<close>

theorem failed_construction_leaves_busy:
  assumes "dict_get (sv_tasks s) (ta_config_name (jb_args j)) = Some p"
    and "\<And>y. files y = files (sv_sys s) \<Longrightarrow> \<exists>e z. ConfigLoader (e_os env) y = (Inl e, z)"
  shows "\<exists>e s' p'. set_start_task env j s = (Inl e, s') \<and>
    dict_get (sv_tasks s') (ta_config_name (jb_args j)) = Some p' \<and>
    pf_status p' = ''busy'' \<and> pf_current_task p' = Some (Some (jb_type j))"
proof -
  let ?n = "ta_config_name (jb_args j)"
  obtain t1 t2 y where m: "mark_start env j s = (Inr (), s\<lparr>sv_sys := y, sv_tasks := dict_set ?n
        (p\<lparr>pf_status := ''busy'', pf_start_time := Some (Some t1), pf_current_task := Some (Some (jb_type j)),
           pf_last_task := dict_set ''task_type'' (JStr (jb_type j)) (dict_set ''start_time'' (JStr t2) (pf_last_task p))\<rparr>)
        (sv_tasks s)\<rparr>)" and f: "files y = files (sv_sys s)"
    by (rule mark_start_known [OF assms(1)])
  obtain e z where "ConfigLoader (e_os env) y = (Inl e, z)" using assms(2) [OF f] by blast
  then have "run_job env j y = (Inl e, z)" by (simp add: run_job_def mk_run_task_def)
  with m show ?thesis by (simp add: set_start_task_def dict_get_set)
qed

theorem last_event_decides_witness:
  "profile_status (snd (mark_start (demo_env open_cloud) (named_job ''change_ip'' ''acc2'') (demo_server demo_files))) ''acc2'' = Some ''busy''"
proof -
  have "\<forall>e \<in> set ([] @ (True, ''acc2'') # []). profile_status (demo_server demo_files) (snd e) \<noteq> None" "''acc2'' \<notin> snd ` set []"
    by (simp_all add: profile_status_def demo_server_def)
  from last_event_decides [OF this] show ?thesis by simp
qed

theorem failed_construction_leaves_busy_witness:
  "\<exists>e s' p'. set_start_task (demo_env open_cloud) (named_job ''change_ip'' ''acc2'') (demo_server Map.empty) = (Inl e, s') \<and>
    dict_get (sv_tasks s') ''acc2'' = Some p' \<and> pf_status p' = ''busy''"
proof -
  have "\<exists>e z. ConfigLoader (e_os (demo_env open_cloud)) y = (Inl e, z)"
    if "files y = files (sv_sys (demo_server Map.empty))" for y
    using that by (simp add: demo_server_def ConfigLoader_def load_into_def read_conf_def run_ini_def load_api_config_def
        bindP_def ini_get_def has_section_def dict_has_def empty_ini_def default_section_def)
  moreover have "dict_get (sv_tasks (demo_server Map.empty)) (ta_config_name (jb_args (named_job ''change_ip'' ''acc2''))) = Some demo_profile"
    by (simp add: demo_server_def named_job_def)
  ultimately show ?thesis
    using failed_construction_leaves_busy [of "demo_server Map.empty" "named_job ''change_ip'' ''acc2''" demo_profile
        "demo_env open_cloud"]
    by (auto simp: named_job_def)
qed

end
