(* ===== verification/ServerProps.thy ===== *)
theory ServerProps
  imports Server ManagerProps
begin

section \<open>What the HTTP interface guarantees\<close>

text \<open>
  Who is let in, what the answers hold, which requests start a thread, and what a failed
  login does to the table. All statements are about the handlers of \<open>Server\<close> on a
  loadable file; \<open>Races\<close> puts handlers and threads together.
\<close>

subsection \<open>The shared beginning of the handlers\<close>

text \<open>The server whose file reads as \<open>c\<close>.\<close>

definition reads_as :: "'w env \<Rightarrow> ini \<Rightarrow> 'w server \<Rightarrow> bool" where
  "reads_as env c s \<longleftrightarrow> read_conf empty_ini (sv_sys s) = (Inr c, sv_sys s) \<and> conf_ready c \<and> wf_ini c"

text \<open>The keys that open the profile \<open>x\<close>: the one of the API section and the profile's own.\<close>

definition opens :: "ini \<Rightarrow> string \<Rightarrow> string option \<Rightarrow> bool" where
  "opens c x key \<longleftrightarrow> key = visible c ''api'' ''apikey'' \<or> key = effective c x ''apikey''"

lemma api_visible: "conf_ready c \<Longrightarrow> visible c ''api'' ''apikey'' = Some (option_or c ''api'' ''apikey'' [])"
  by (auto simp: conf_ready_def has_keys_def option_or_def)

lemma with_profile_known:
  assumes "reads_as env c s" and "can_write (e_os env) conf_path" and "i < length (profiles c)"
    and "config_name_of rq = profiles c ! i"
  obtains y d api a where
    "\<And>k. with_profile env rq k s =
      (if opens c (profiles c ! i) (rq_apikey rq) then k api a (s\<lparr>sv_sys := y\<rparr>) else (Inr invalid_key, s\<lparr>sv_sys := y\<rparr>))"
    and "reads_as env d (s\<lparr>sv_sys := y\<rparr>)" and "dict_keys (sections d) = dict_keys (sections c)"
    and "\<forall>x k. k \<noteq> ''order'' \<longrightarrow> effective d x k = effective c x k"
    and "ac_configName a = profiles c ! i" and "effective c (profiles c ! i) ''region'' = Some (ac_region a)"
    and "ac_order a = str_nat (Suc i)"
proof -
  let ?x = "profiles c ! i" and ?ns = "dict_keys (sections c)"
  have r: "read_conf empty_ini (sv_sys s) = (Inr c, sv_sys s)" "conf_ready c" "wf_ini c"
    using assms(1) by (auto simp: reads_as_def)
  obtain ld y d where ld: "ConfigLoader (e_os env) (sv_sys s) = (Inr ld, y)" "config ld = renumber 1 ?ns c"
    "read_conf empty_ini y = (Inr d, y)" "conf_ready d" "wf_ini d" "dict_keys (sections d) = ?ns"
    "\<forall>x k. k \<noteq> ''order'' \<longrightarrow> effective d x k = effective c x k"
    by (rule ConfigLoader_file [OF r assms(2)])
  note l = loaded_profile [OF r(2) assms(3) ld(2) refl]
  have p: "\<forall>y \<in> set ?ns. proper_section c y" "distinct ?ns"
    using conf_ready_profiles [OF r(2)] r(2) by (auto simp: conf_ready_def names_ok_def)
  obtain api where api: "load_api_config (config ld) = (Inr api, config ld)"
    "api_apikey api = option_or (config ld) ''api'' ''apikey'' []"
    using load_api_ok [OF l(4)] by blast
  have "visible (config ld) ''api'' ''apikey'' = visible c ''api'' ''apikey''"
    unfolding ld(2) using renumber_other [OF p(1), of "''api''"] by blast
  then have master: "visible c ''api'' ''apikey'' = Some (api_apikey api)"
    using api(2) api_visible [OF l(4)] by simp
  let ?a = "profile_of (config ld) ?x"
  have "?x \<in> set (profiles c)" using assms(3) by simp
  then have x: "?x \<in> set ?ns" "?x \<noteq> ''api''" unfolding profiles_def by auto
  have e: "visible (config ld) ?x k = effective c ?x k" if "k \<noteq> ''order''" for k
    unfolding ld(2) by (rule visible_renumber [OF x that p(2,1)])
  have own: "effective c ?x ''apikey'' = Some (ac_apikey ?a)"
    using e [of "''apikey''"] by (auto simp: profile_of_def option_or_def effective_def aws_defaults_def split: option.splits)
  have reg: "effective c ?x ''region'' = Some (ac_region ?a)"
    using e [of "''region''"] by (auto simp: profile_of_def option_or_def effective_def aws_defaults_def split: option.splits)
  have auth: "authorized (rq_apikey rq) api ?a \<longleftrightarrow> opens c ?x (rq_apikey rq)"
    by (auto simp: authorized_def opens_def master own)
  have w: "with_profile env rq k s =
      (if opens c ?x (rq_apikey rq) then k api ?a (s\<lparr>sv_sys := y\<rparr>) else (Inr invalid_key, s\<lparr>sv_sys := y\<rparr>))" for k
    using ld(1) l(2) api(1) assms(4)
    by (simp add: with_profile_def load_aws_def run_ini_def auth [symmetric] bindP_def)
  show ?thesis
    by (rule that [OF w _ ld(6,7) _ reg l(3)]) (simp_all add: reads_as_def ld profile_of_def)
qed


text \<open>C9: without a key of the profile nothing happens: on a loadable file, a request to any
  handler of a known profile whose key is neither the one of the API section nor the
  profile's own (which is the empty string where the file has none) is answered with
  \<open>Invalid API key\<close>; the table of tasks stays as it is and no thread is started. A request
  without a key is always refused.\<close>

theorem wrong_key_refused:
  assumes "reads_as env c s" and "can_write (e_os env) conf_path" and "i < length (profiles c)"
    and "config_name_of rq = profiles c ! i"
    and "rq_apikey rq \<noteq> visible c ''api'' ''apikey''" and "rq_apikey rq \<noteq> effective c (profiles c ! i) ''apikey''"
    and "r \<noteq> GetTask" and "r = ChangeRegion \<longrightarrow> rq_new_region rq \<noteq> None"
  shows "\<exists>y. handle env r rq s = (Inr (message ''Invalid API key''), s\<lparr>sv_sys := y\<rparr>)"
proof -
  obtain y where w: "with_profile env rq k s = (Inr invalid_key, s\<lparr>sv_sys := y\<rparr>)" for k
    by (rule with_profile_known [OF assms(1-4)]) (use assms(5,6) in \<open>auto simp: opens_def\<close>)
  show ?thesis
    using assms(7,8) w
    by (cases r) (auto simp: invalid_key_def handle_change_ip_def handle_reset_def handle_change_auth_def
        handle_change_region_def handle_available_region_def handle_get_config_def handle_change_whitelist_def)
qed

subsection \<open>The start of the server\<close>

lemma table_keys:
  "distinct (map ac_configName as) \<Longrightarrow> set (map ac_configName as) \<inter> set (dict_keys t) = {} \<Longrightarrow>
     dict_keys (fold (\<lambda>a. dict_set (ac_configName a) (fresh_profile a)) as t) = dict_keys t @ map ac_configName as"
proof (induction as arbitrary: t)
  case (Cons a as)
  have "dict_keys (dict_set (ac_configName a) (fresh_profile a) t) = dict_keys t @ [ac_configName a]"
    using Cons.prems(2) by (simp add: keys_dict_set)
  moreover have "set (map ac_configName as) \<inter> set (dict_keys t @ [ac_configName a]) = {}"
    using Cons.prems by auto
  ultimately show ?case using Cons.IH [of "dict_set (ac_configName a) (fresh_profile a) t"] Cons.prems(1) by simp
qed simp

lemma dict_get_table:
  "dict_get (fold (\<lambda>a. dict_set (ac_configName a) (fresh_profile a)) as t) n = Some p \<Longrightarrow>
     (\<exists>a. ac_configName a = n \<and> p = fresh_profile a) \<or> dict_get t n = Some p"
proof (induction as arbitrary: t)
  case (Cons a as)
  then show ?case by (fastforce simp: dict_get_set split: if_splits)
qed simp

lemma startup_runs:
  assumes "read_conf empty_ini s = (Inr c, s)" and "conf_ready c" and "wf_ini c" and "can_write (e_os env) conf_path"
    and "\<And>y. \<exists>z. reset_all (e_svc env) y = (Inr (), z)"
  shows "\<exists>table port s'. startup env s = (Inr (table, port), s') \<and> dict_keys table = profiles c \<and>
    (\<forall>n p. dict_get table n = Some p \<longrightarrow> pf_config_name p = n \<and> pf_status p = ''idle'' \<and> pf_last_task p = [])"
proof -
  obtain t s0 where 0: "now (e_os env) s = (Inr t, s0)" "files s0 = files s" using now_files by blast
  have "read_conf empty_ini s0 = (Inr c, s0)" using assms(1) 0(2) by (simp add: read_conf_def split: option.splits)
  then obtain as s1 d where 1: "all_profiles (e_os env) s0 = (Inr as, s1)" "map ac_configName as = profiles c"
    "read_conf empty_ini s1 = (Inr d, s1)" "conf_ready d" "wf_ini d"
    by (rule all_profiles_ok [OF _ assms(2-4)])
  obtain ld s2 where 2: "ConfigLoader (e_os env) s1 = (Inr ld, s2)" "config ld = renumber 1 (dict_keys (sections d)) d"
    by (rule ConfigLoader_file [OF 1(3-5) assms(4)])
  have "conf_ready (config ld)" unfolding 2(2) using conf_ready_renumber [OF 1(4)] conf_ready_profiles [OF 1(4)] by blast
  then obtain api where 3: "load_api_config (config ld) = (Inr api, config ld)" using load_api_ok by blast
  obtain s3 where 4: "reset_all (e_svc env) s2 = (Inr (), s3)" using assms(5) by blast
  let ?t = "fold (\<lambda>a. dict_set (ac_configName a) (fresh_profile a)) as []"
  have "startup env s = (Inr (?t, api_port (api_cfg ld)), s3)"
    using 0(1) 1(1) 2(1) 3 4 by (simp add: startup_def mk_manager_def run_ini_def bindP_def thenP_def)
  moreover have "dict_keys ?t = profiles c"
    using table_keys [of as "[]"] 1(2) assms(2) by (simp add: conf_ready_def names_ok_def profiles_def)
  moreover have "pf_config_name p = n \<and> pf_status p = ''idle'' \<and> pf_last_task p = []"
    if "dict_get ?t n = Some p" for n p
    using dict_get_table [OF that] by (auto simp: fresh_profile_def)
  ultimately show ?thesis by blast
qed


subsection \<open>Which threads are started\<close>

text \<open>C32: a request to change a whitelist is always accepted with the right key, busy or not:
  exactly one thread is added, with the profile and the whitelist of the request, and
  the table is not looked at. If the profile came into the file after the start of the server,
  so that the table does not have it, that thread ends with a \<open>KeyError\<close> although the answer says
  that the process was started, and nothing is changed.\<close>

theorem whitelist_request_starts_thread:
  assumes "reads_as env c s" and "can_write (e_os env) conf_path" and "i < length (profiles c)"
    and "config_name_of rq = profiles c ! i" and "opens c (profiles c ! i) (rq_apikey rq)"
  shows "\<exists>y. handle env ChangeWhitelist rq s = (Inr (message ''Process started''),
      s\<lparr>sv_sys := y, sv_threads := sv_threads s @ [whitelist_job (profiles c ! i) rq]\<rparr>) \<and>
    (dict_get (sv_tasks s) (profiles c ! i) = None \<longrightarrow>
      set_start_task env (whitelist_job (profiles c ! i) rq) s = (Inl (KeyError (profiles c ! i)), s))"
proof -
  have n: "ta_config_name (jb_args (whitelist_job x rq)) = x" for x
    by (simp add: whitelist_job_def named_job_def)
  obtain y api a where w: "with_profile env rq k s = k api a (s\<lparr>sv_sys := y\<rparr>)" for k
    by (rule with_profile_known [OF assms(1-4)]) (use assms(5) in auto)
  then show ?thesis
    using assms(4) set_start_unknown [of s "whitelist_job (profiles c ! i) rq" env]
    by (intro exI [of _ y]) (simp add: n handle_change_whitelist_def start_thread_def)
qed

subsection \<open>Busy profiles\<close>

text \<open>
  What the system does leaves the table and the threads alone. Under \<open>marked n t\<close>, the profile
  \<open>n\<close> is busy and the threads are \<open>t\<close>; \<open>leads\<close> is for a computation that ends in a state
  with another property.
\<close>

definition marked :: "string \<Rightarrow> job list \<Rightarrow> 'w server \<Rightarrow> bool" where
  "marked n t s \<longleftrightarrow> profile_status s n = Some ''busy'' \<and> sv_threads s = t"

definition threads_are :: "job list \<Rightarrow> 'w server \<Rightarrow> bool" where
  "threads_are t s \<longleftrightarrow> sv_threads s = t"

definition leads :: "('s \<Rightarrow> bool) \<Rightarrow> ('s, 'a) prog \<Rightarrow> ('s \<Rightarrow> bool) \<Rightarrow> bool" where
  "leads I m Q \<longleftrightarrow> (\<forall>s. I s \<longrightarrow> Q (snd (m s)))"

lemma leads_bindP:
  assumes "keeps I m" and "\<And>x. leads I (f x) Q" and "\<And>s. I s \<Longrightarrow> Q s"
  shows "leads I (bindP m f) Q"
  unfolding leads_def
proof (intro allI impI)
  fix s assume s: "I s"
  obtain r s' where m: "m s = (r, s')" by (cases "m s")
  have "I s'" by (rule keepsD [OF assms(1) s m])
  then show "Q (snd (bindP m f s))"
    using assms(2,3) m by (cases r) (auto simp: leads_def bindP_def)
qed

lemma leads_thenP: "keeps I m \<Longrightarrow> leads I n Q \<Longrightarrow> (\<And>s. I s \<Longrightarrow> Q s) \<Longrightarrow> leads I (thenP m n) Q"
  by (simp add: thenP_def leads_bindP)

lemma leads_keeps: "keeps Q m \<Longrightarrow> (\<And>s. I s \<Longrightarrow> Q s) \<Longrightarrow> leads I m Q"
  by (simp add: leads_def keeps_def)

lemma leads_if: "(b \<Longrightarrow> leads I m Q) \<Longrightarrow> (\<not> b \<Longrightarrow> leads I n Q) \<Longrightarrow> leads I (if b then m else n) Q"
  by simp

lemma leads_prod: "(\<And>a b. leads I (f a b) Q) \<Longrightarrow> leads I (case x of (a, b) \<Rightarrow> f a b) Q"
  by (cases x) simp

lemma leads_Let: "leads I (f x) Q \<Longrightarrow> leads I (let y = x in f y) Q"
  by simp

lemma leads_ret: "(\<And>s. I s \<Longrightarrow> Q s) \<Longrightarrow> leads I (ret x) Q"
  by (simp add: leads_def)

lemma keeps_on_sys [keeps_intros]: "(\<And>s y. I s \<Longrightarrow> I (s\<lparr>sv_sys := y\<rparr>)) \<Longrightarrow> keeps I (on_sys m)"
  by (simp add: keeps_def on_sys_def split: prod.splits)

lemma keeps_attr [keeps_intros]: "keeps I (attr n x)" "keeps I (key_of k x)"
  by (auto simp: attr_def key_of_def intro!: keeps_intros)

lemma keeps_get_profile [keeps_intros]: "keeps I (get_profile n)"
  unfolding get_profile_def by (intro keeps_intros)

lemma threads_update [keeps_intros]: "keeps (threads_are t) (update_profile n f)"
  unfolding update_profile_def set_profile_def by (intro keeps_intros) (simp add: threads_are_def)

lemma threads_on_sys [keeps_intros]: "keeps (threads_are t) (on_sys m)"
  by (intro keeps_intros) (simp add: threads_are_def)

lemma threads_stop [keeps_intros]: "keeps (threads_are t) (set_stop_task env n outcome d)"
  unfolding set_stop_task_def log_task_def by (intro keeps_intros)

lemma threads_register [keeps_intros]: "keeps (threads_are t) (register_profile env n)"
  unfolding register_profile_def set_profile_def by (intro keeps_intros) (simp add: threads_are_def)

lemma threads_check [keeps_intros]: "keeps (threads_are t) (check_task_status env n)"
  unfolding check_task_status_def by (intro keeps_intros)

lemma keeps_region_response [keeps_intros]: "keeps I (region_response n o' r)"
  unfolding region_response_def by (intro keeps_intros)

lemma marked_on_sys [keeps_intros]: "keeps (marked n t) (on_sys m)"
  by (intro keeps_intros) (simp add: marked_def profile_status_def)

lemma register_known: "profile_status s n \<noteq> None \<Longrightarrow> register_profile env n s = (Inr (), s)"
  by (auto simp: register_profile_def profile_status_def bindP_def)

lemma check_known: "profile_status s n = Some st \<Longrightarrow> check_task_status env n s = (Inr st, s)"
  by (auto simp: check_task_status_def register_known get_profile_def key_of_def profile_status_def)

lemma marked_register [keeps_intros]: "keeps (marked n t) (register_profile env n)"
  by (simp add: keeps_def marked_def register_known)

lemma marked_threads: "marked n t s \<Longrightarrow> threads_are t s"
  by (simp add: marked_def threads_are_def)

lemmas marked_intros = leads_if leads_prod leads_Let leads_bindP leads_thenP leads_ret keeps_intros marked_on_sys
  marked_threads

text \<open>After the check nothing is started.\<close>

lemma leads_check:
  assumes "leads (marked n t) (f ''busy'') Q"
  shows "leads (marked n t) (bindP (check_task_status env n) f) Q"
  using assms by (simp add: leads_def marked_def check_known)

lemma leads_login:
  assumes "keeps (threads_are t) response" and "\<And>aw. leads (marked n t) (k aw) (threads_are t)"
  shows "leads (marked n t) (with_login env n response k) (threads_are t)"
  unfolding with_login_def
proof (intro leads_bindP marked_threads)
  fix r
  show "leads (marked n t) (case r of Inr aw1 \<Rightarrow> k aw1
     | Inl e \<Rightarrow> thenP (set_stop_task env n ''failed'' (JErr e))
           (bindP response (\<lambda>r. ret (JObj (dict_set ''message'' (JErr e) (dict_set ''status'' (JStr ''failed'') r)))))) (threads_are t)"
    using assms by (cases r) (auto intro!: leads_keeps keeps_intros marked_threads)
qed (intro keeps_intros)+

lemma leads_with_profile:
  assumes "\<And>api a. leads (marked n t) (k api a) (threads_are t)"
  shows "leads (marked n t) (with_profile env rq k) (threads_are t)"
  unfolding with_profile_def
  by (intro marked_intros assms)

text \<open>C17: no second run of the tasks that ask: while the table marks a profile busy, a request to
  change its address or its region starts no thread, whatever else is in the request, the
  file and the system, and whatever the handler ends in.\<close>

theorem busy_starts_nothing:
  assumes "profile_status s (config_name_of rq) = Some ''busy''" and "r \<in> {ChangeIp, ChangeRegion}"
  shows "sv_threads (snd (handle env r rq s)) = sv_threads s"
proof -
  let ?n = "config_name_of rq" and ?t = "sv_threads s"
  have "leads (marked ?n ?t) (handle_change_ip env rq) (threads_are ?t)"
    unfolding handle_change_ip_def Let_def
    by (intro leads_with_profile marked_intros leads_login leads_check) simp_all
  moreover have "leads (marked ?n ?t) (handle_change_region env rq) (threads_are ?t)"
  proof (cases "rq_new_region rq")
    case (Some reg)
    show ?thesis
      unfolding handle_change_region_def Some option.case Let_def
      by (intro leads_with_profile marked_intros leads_login leads_check) simp_all
  qed (simp add: handle_change_region_def marked_threads leads_ret)
  ultimately show ?thesis
    using assms by (auto simp: leads_def marked_def threads_are_def)
qed

subsection \<open>Failed logins\<close>

lemma mk_aws_known:
  assumes "reads_as env c s" and "can_write (e_os env) conf_path" and "i < length (profiles c)"
  obtains aw y d where "mk_aws (e_os env) (profiles c ! i) (sv_sys s) = (Inr aw, y)"
    and "reads_as env d (s\<lparr>sv_sys := y\<rparr>)" and "dict_keys (sections d) = dict_keys (sections c)"
    and "\<forall>x k. k \<noteq> ''order'' \<longrightarrow> effective d x k = effective c x k"
proof -
  have r: "read_conf empty_ini (sv_sys s) = (Inr c, sv_sys s)" "conf_ready c" "wf_ini c"
    using assms(1) by (auto simp: reads_as_def)
  obtain ld y d where ld: "ConfigLoader (e_os env) (sv_sys s) = (Inr ld, y)" "config ld = renumber 1 (dict_keys (sections c)) c"
    "read_conf empty_ini y = (Inr d, y)" "conf_ready d" "wf_ini d" "dict_keys (sections d) = dict_keys (sections c)"
    "\<forall>x k. k \<noteq> ''order'' \<longrightarrow> effective d x k = effective c x k"
    by (rule ConfigLoader_file [OF r assms(2)])
  note l = loaded_profile [OF r(2) assms(3) ld(2) refl]
  obtain aw where "mk_aws (e_os env) (profiles c ! i) (sv_sys s) = (Inr aw, y)"
    using ld(1) l(2) by (simp add: mk_aws_def load_aws_def run_ini_def)
  from that [OF this _ ld(6,7)] show ?thesis using ld(3-5) by (simp add: reads_as_def)
qed

text \<open>A cloud that refuses every login.\<close>

definition refuses :: "'w cloud_api \<Rightarrow> bool" where
  "refuses api \<longleftrightarrow> (\<forall>cr w. isl (fst (c_client api cr w)))"

lemma refused_login:
  assumes "refuses api"
  obtains e z where "login api aw y = (Inl e, z)"
proof -
  obtain e w where "c_client api (creds_of (aw_config aw)) (ext y) = (Inl e, w)"
    using assms by (cases "c_client api (creds_of (aw_config aw)) (ext y)")
      (fastforce simp: refuses_def isl_def dest: spec [of _ "creds_of (aw_config aw)"] spec [of _ "ext y"])
  then have "\<exists>e z. login api aw y = (Inl e, z)"
    by (simp add: login_def connect_ec2_def thenP_def bindP_def tryP_def ext_op_eq)
  with that show ?thesis by blast
qed

lemma with_login_refused:
  assumes "reads_as env c s" and "can_write (e_os env) conf_path" and "i < length (profiles c)"
    and "refuses (e_cloud env)" and "dict_get (sv_tasks s) (profiles c ! i) = Some p"
  obtains e s' p' where "with_login env (profiles c ! i) (ret resp) k s =
      (Inr (JObj (dict_set ''message'' (JErr e) (dict_set ''status'' (JStr ''failed'') resp))), s')"
    and "dict_get (sv_tasks s') (profiles c ! i) = Some p'" and "pf_status p' = ''idle''" and "pf_current_task p' = Some None"
    and "sv_threads s' = sv_threads s"
proof -
  let ?x = "profiles c ! i"
  obtain aw y where aw: "mk_aws (e_os env) ?x (sv_sys s) = (Inr aw, y)" by (rule mk_aws_known [OF assms(1-3)])
  obtain e z where e: "login (e_cloud env) aw y = (Inl e, z)" by (rule refused_login [OF assms(4)])
  let ?s = "s\<lparr>sv_sys := z\<rparr>"
  have g: "dict_get (sv_tasks ?s) ?x = Some p" using assms(5) by simp
  obtain s' p' where s': "set_stop_task env ?x ''failed'' (JErr e) ?s = (Inr (), s')"
    "dict_get (sv_tasks s') ?x = Some p'" "pf_status p' = ''idle''" "pf_current_task p' = Some None"
    "sv_threads s' = sv_threads s"
    by (rule set_stop_known [OF g, of env "''failed''" "JErr e"]) (auto simp: dict_get_set)
  have "with_login env ?x (ret resp) k s =
      (Inr (JObj (dict_set ''message'' (JErr e) (dict_set ''status'' (JStr ''failed'') resp))), s')"
    using s'(1) by (simp add: with_login_def on_sys_def aw e tryP_def bindP_def thenP_def)
  from that [OF this s'(2-5)] show ?thesis .
qed

text \<open>C27: a failed login ends the mark of a task that is still running: on a loadable file, a
  request with the right key to reset a profile, to change its credentials, to list its regions
  or to show it answers \<open>failed\<close> when the cloud refuses the login, starts no
  thread, and leaves the profile idle with no current task, even if it was busy.\<close>

theorem failed_login_clears_busy:
  assumes "reads_as env c s" and "can_write (e_os env) conf_path" and "i < length (profiles c)"
    and "config_name_of rq = profiles c ! i" and "opens c (profiles c ! i) (rq_apikey rq)"
    and "refuses (e_cloud env)" and "dict_get (sv_tasks s) (profiles c ! i) = Some p"
    and "r \<in> {Reset, ChangeAuth, AvailableRegion, GetConfig}"
  shows "\<exists>d s' p'. handle env r rq s = (Inr (JObj d), s') \<and> dict_get d ''status'' = Some (JStr ''failed'') \<and>
    dict_get (sv_tasks s') (profiles c ! i) = Some p' \<and> pf_status p' = ''idle'' \<and> pf_current_task p' = Some None \<and>
    sv_threads s' = sv_threads s"
proof -
  obtain y d api a where w: "\<And>k. with_profile env rq k s = k api a (s\<lparr>sv_sys := y\<rparr>)"
    and d: "reads_as env d (s\<lparr>sv_sys := y\<rparr>)" "dict_keys (sections d) = dict_keys (sections c)"
    by (rule with_profile_known [OF assms(1-4)]) (use assms(5) in auto)
  have pd: "profiles d = profiles c" using d(2) by (simp add: profiles_def)
  let ?x = "profiles c ! i" and ?s = "s\<lparr>sv_sys := y\<rparr>"
  have "\<exists>d s' p'. with_login env ?x (ret (base_response ?x a)) k ?s = (Inr (JObj d), s') \<and>
    dict_get d ''status'' = Some (JStr ''failed'') \<and>
    dict_get (sv_tasks s') ?x = Some p' \<and> pf_status p' = ''idle'' \<and> pf_current_task p' = Some None \<and>
    sv_threads s' = sv_threads s" for k
    by (rule with_login_refused [OF d(1) assms(2), unfolded pd, OF assms(3,6), of p "base_response ?x a" k])
      (use assms(7) in \<open>auto simp: dict_get_set\<close>)
  moreover have "\<exists>k. handle env r rq s = with_login env ?x (ret (base_response ?x a)) k ?s"
    using assms(4,8)
    by (auto simp: handle_reset_def handle_change_auth_def handle_available_region_def handle_get_config_def w Let_def)
  ultimately show ?thesis by metis
qed

subsection \<open>What an answer shows\<close>

definition hides :: "json \<Rightarrow> bool" where
  "hides r \<longleftrightarrow> (\<exists>d. r = JObj d \<and> (\<forall>k \<in> {''accessKey'', ''secretKey'', ''apikey''}. dict_get d k = None))"

lemma dict_get_pop: "dict_get (dict_pop k d) k' = (if k' = k then None else dict_get d k')"
  by (simp add: dict_pop_def delete_conv')

lemma dict_get_rename:
  "dict_get (dict_rename k k' d) j = (if dict_get d k = None then dict_get d j
     else if j = k' then dict_get d k else if j = k then None else dict_get d j)"
  by (auto simp: dict_rename_def dict_get_set dict_get_pop split: option.splits)

lemma hides_detail: "hides (JObj (detail_response api a n regions p resp))"
  by (simp add: hides_def detail_response_def Let_def dict_get_set dict_get_rename dict_get_pop)

lemma hides_base:
  "hides invalid_key"
  "hides (JObj (dict_set ''message'' x (dict_set ''status'' y (base_response n a))))"
  by (simp_all add: hides_def invalid_key_def message_def base_response_def)

lemma returns_with_profile [returns_intros]:
  "P invalid_key \<Longrightarrow> (\<And>api a. returns P (k api a)) \<Longrightarrow> returns P (with_profile env rq k)"
  unfolding with_profile_def by (intro returns_intros)

text \<open>C24: \<open>get_config\<close> never shows a secret: whatever the file, the system and the request are,
  an answer of the handler is an object that has none of the keys \<open>accessKey\<close>,
  \<open>secretKey\<close> and \<open>apikey\<close>.\<close>

theorem get_config_hides_secrets:
  assumes "handle env GetConfig rq s = (Inr r, s')"
  shows "\<exists>d. r = JObj d \<and> dict_get d ''accessKey'' = None \<and> dict_get d ''secretKey'' = None \<and> dict_get d ''apikey'' = None"
proof -
  have l: "returns hides (with_login env n (ret (base_response n a)) k)" if "\<And>aw. returns hides (k aw)" for n a k
    unfolding with_login_def
  proof (intro returns_intros)
    fix x :: "exn + aws"
    show "returns hides (case x of Inr aw1 \<Rightarrow> k aw1
       | Inl e \<Rightarrow> thenP (set_stop_task env n ''failed'' (JErr e)) (bindP (ret (base_response n a))
           (\<lambda>r. ret (JObj (dict_set ''message'' (JErr e) (dict_set ''status'' (JStr ''failed'') r))))))"
      by (cases x) (simp_all only: sum.case bindP_ret that, intro returns_intros hides_base)
  qed
  have "returns hides (handle_get_config env rq)"
    unfolding handle_get_config_def Let_def by (intro returns_intros l hides_base hides_detail)
  then have "hides r" using assms by (simp add: returnsD)
  then show ?thesis by (auto simp: hides_def)
qed

subsection \<open>The hypotheses can hold\<close>

definition demo_request :: "string \<Rightarrow> request" where
  "demo_request key = \<lparr>rq_apikey = Some key, rq_config_name = Some ''acc2'', rq_new_region = None,
     rq_new_whitelist = Some ''10.9.0.0/16'', rq_new_user = None, rq_new_pass = None\<rparr>"

definition busy_server :: "unit server" where
  "busy_server = (demo_server demo_files)\<lparr>sv_tasks := [(''acc2'', demo_profile\<lparr>pf_status := ''busy''\<rparr>)]\<rparr>"

lemma reads_as_demo: "reads_as env demo_ini (demo_server demo_files)" "reads_as env demo_ini busy_server"
  by (simp_all add: reads_as_def busy_server_def demo_server_def read_conf_def demo_files_def ini_read_write)

lemma demo_profiles: "1 < length (profiles demo_ini)" "profiles demo_ini ! 1 = ''acc2''" "profiles demo_ini ! Suc 0 = ''acc2''"
  by code_simp+

lemma demo_keys:
  "visible demo_ini ''api'' ''apikey'' = Some ''s3cret''" "effective demo_ini ''acc2'' ''apikey'' = Some []"
  by code_simp+

lemma can_write_env [simp]: "can_write (e_os (demo_env api)) p"
  by (simp add: demo_env_def)

lemma demo_request_simps [simp]:
  "config_name_of (demo_request key) = ''acc2''" "rq_apikey (demo_request key) = Some key"
  by (simp_all add: demo_request_def config_name_of_def)


theorem wrong_key_refused_witness:
  "\<exists>y. handle (demo_env open_cloud) Reset (demo_request ''guess'') (demo_server demo_files) =
    (Inr (message ''Invalid API key''), (demo_server demo_files)\<lparr>sv_sys := y\<rparr>)"
  by (rule wrong_key_refused [OF reads_as_demo(1) can_write_env demo_profiles(1)])
    (simp_all add: demo_profiles demo_keys)

text \<open>The profile has no key of its own in the file, so the empty key opens it.\<close>

theorem whitelist_request_starts_thread_witness:
  "\<exists>y. handle (demo_env open_cloud) ChangeWhitelist (demo_request []) (demo_server demo_files) =
    (Inr (message ''Process started''), (demo_server demo_files)\<lparr>sv_sys := y,
       sv_threads := [whitelist_job ''acc2'' (demo_request [])]\<rparr>)"
proof -
  have "config_name_of (demo_request []) = profiles demo_ini ! 1"
    "opens demo_ini (profiles demo_ini ! 1) (rq_apikey (demo_request []))"
    by (simp_all add: demo_profiles demo_keys opens_def)
  from whitelist_request_starts_thread [OF reads_as_demo(1) can_write_env demo_profiles(1) this, of open_cloud]
  show ?thesis unfolding demo_profiles by (auto simp: demo_server_def)
qed

theorem busy_starts_nothing_witness:
  "sv_threads (snd (handle (demo_env open_cloud) ChangeIp (demo_request ''s3cret'') busy_server)) = []"
proof -
  have "profile_status busy_server (config_name_of (demo_request ''s3cret'')) = Some ''busy''"
    by (simp add: profile_status_def busy_server_def)
  from busy_starts_nothing [OF this, of ChangeIp "demo_env open_cloud"] show ?thesis
    by (simp add: busy_server_def demo_server_def del: handle.simps)
qed

theorem failed_login_clears_busy_witness:
  "\<exists>d s' p'. handle (demo_env closed_cloud) Reset (demo_request ''s3cret'') busy_server = (Inr (JObj d), s') \<and>
    dict_get d ''status'' = Some (JStr ''failed'') \<and> dict_get (sv_tasks s') ''acc2'' = Some p' \<and> pf_status p' = ''idle''"
proof -
  have "config_name_of (demo_request ''s3cret'') = profiles demo_ini ! 1"
    "opens demo_ini (profiles demo_ini ! 1) (rq_apikey (demo_request ''s3cret''))"
    "refuses (e_cloud (demo_env closed_cloud))"
    "dict_get (sv_tasks busy_server) (profiles demo_ini ! 1) = Some (demo_profile\<lparr>pf_status := ''busy''\<rparr>)"
    by (simp_all add: demo_profiles demo_keys opens_def refuses_def demo_env_def closed_cloud_def busy_server_def)
  from failed_login_clears_busy [OF reads_as_demo(2) can_write_env demo_profiles(1) this, of Reset]
  show ?thesis unfolding demo_profiles by auto
qed

theorem get_config_hides_secrets_witness:
  "\<exists>d s'. handle (demo_env open_cloud) GetConfig (demo_request ''guess'') (demo_server demo_files) = (Inr (JObj d), s') \<and>
    dict_get d ''secretKey'' = None"
proof -
  have "config_name_of (demo_request ''guess'') = profiles demo_ini ! 1" by (simp add: demo_profiles)
  then obtain y where "with_profile (demo_env open_cloud) (demo_request ''guess'') k (demo_server demo_files) =
      (Inr invalid_key, (demo_server demo_files)\<lparr>sv_sys := y\<rparr>)" for k
    by (rule with_profile_known [OF reads_as_demo(1) can_write_env demo_profiles(1)])
      (auto simp: opens_def demo_profiles demo_keys)
  then have "handle (demo_env open_cloud) GetConfig (demo_request ''guess'') (demo_server demo_files) =
      (Inr invalid_key, (demo_server demo_files)\<lparr>sv_sys := y\<rparr>)"
    by (simp add: handle_get_config_def)
  with get_config_hides_secrets [OF this] show ?thesis by auto
qed

end
