(* ===== verification/TaskEffects.thy ===== *)
theory TaskEffects
  imports TaskProps
begin

section \<open>What resetting and changing the credentials leave behind\<close>

text \<open>
  The two tasks that change several settings at once: what the file, the services and the
  generated proxy files are after them.
\<close>

subsection \<open>A cloud account at work\<close>

text \<open>A cloud that accepts every login.\<close>

definition accepts :: "'w cloud_api \<Rightarrow> bool" where
  "accepts api \<longleftrightarrow> (\<forall>aw y. \<exists>aw1 z. login api aw y = (Inr aw1, z))"

lemma files_login: "login api aw y = (r, z) \<Longrightarrow> files z p = files y p"
proof (rule frameD)
  show "keeps (frame p (files y p)) (login api aw)"
    unfolding login_def connect_ec2_def index_list_def Let_def by (intro keeps_intros)
qed

lemma login_object:
  assumes "login api aw y = (Inr aw1, z)"
  shows "aw_ec2 aw1 = Some (creds_of (aw_config aw)) \<and> aw_loader aw1 = aw_loader aw \<and> aw_name aw1 = aw_name aw"
  using assms by (auto simp: login_def connect_ec2_def Let_def bindP_eq_Inr thenP_eq_Inr split: if_splits prod.splits)

lemma read_conf_files:
  "read_conf empty_ini s = (Inr c, s) \<Longrightarrow> files z conf_path = files s conf_path \<Longrightarrow> read_conf empty_ini z = (Inr c, z)"
  by (auto simp: read_conf_def split: option.splits)

text \<open>An object for a profile of a loadable file.\<close>

lemma mk_aws_file:
  assumes "read_conf empty_ini s = (Inr c, s)" and "conf_ready c" and "wf_ini c" and "can_write os conf_path"
    and "i < length (profiles c)"
  obtains aw y d where "mk_aws os (profiles c ! i) s = (Inr aw, y)" and "aw_name aw = profiles c ! i"
    and "config (aw_loader aw) = renumber 1 (dict_keys (sections c)) c"
    and "aw_config aw = profile_of (renumber 1 (dict_keys (sections c)) c) (profiles c ! i)"
    and "ac_order (aw_config aw) = str_nat (Suc i)"
    and "read_conf empty_ini y = (Inr d, y)" and "conf_ready d" and "wf_ini d"
    and "dict_keys (sections d) = dict_keys (sections c)"
    and "\<forall>x k. k \<noteq> ''order'' \<longrightarrow> effective d x k = effective c x k"
proof -
  obtain ld y d where ld: "ConfigLoader os s = (Inr ld, y)" "config ld = renumber 1 (dict_keys (sections c)) c"
    "read_conf empty_ini y = (Inr d, y)" "conf_ready d" "wf_ini d" "dict_keys (sections d) = dict_keys (sections c)"
    "\<forall>x k. k \<noteq> ''order'' \<longrightarrow> effective d x k = effective c x k"
    by (rule ConfigLoader_file [OF assms(1-4)])
  note l = loaded_profile [OF assms(2,5) ld(2) refl]
  let ?a = "profile_of (config ld) (profiles c ! i)"
  let ?aw = "\<lparr>aw_loader = ld, aw_name = profiles c ! i, aw_config = ?a,
     aw_ec2 = None, aw_resource = None, aw_key_pair = None, aw_group = None\<rparr>"
  have "mk_aws os (profiles c ! i) s = (Inr ?aw, y)"
    using ld(1) l(2) by (simp add: mk_aws_def load_aws_def run_ini_def)
  from that [OF this] ld l(3) show ?thesis by simp
qed

text \<open>The same settings but for numbers and defaults, in a file that can be loaded.\<close>

definition same_settings :: "ini \<Rightarrow> 'w sys \<Rightarrow> bool" where
  "same_settings c s \<longleftrightarrow> (\<exists>t. read_conf empty_ini s = (Inr t, s) \<and> conf_ready t \<and> wf_ini t \<and>
     dict_keys (sections t) = dict_keys (sections c) \<and> (\<forall>x k. k \<noteq> ''order'' \<longrightarrow> effective t x k = effective c x k))"

lemma same_settings_files: "same_settings c s \<Longrightarrow> files z conf_path = files s conf_path \<Longrightarrow> same_settings c z"
  unfolding same_settings_def using read_conf_files by blast

lemma login_config: "login api aw y = (Inr aw1, z) \<Longrightarrow> aw_config aw1 = aw_config aw"
  by (auto simp: login_def connect_ec2_def Let_def bindP_eq_Inr thenP_eq_Inr split: if_splits prod.splits)

lemma login_resource: "login api aw y = (Inr aw1, z) \<Longrightarrow> aw_resource aw1 = Some (creds_of (aw_config aw))"
  by (auto simp: login_def connect_ec2_def Let_def bindP_eq_Inr thenP_eq_Inr split: if_splits prod.splits)

text \<open>The object of a profile as the account is entered: it is loaded from the file, whose
  settings are not changed by that.\<close>

lemma account:
  assumes "read_conf empty_ini s = (Inr c, s)" and "conf_ready c" and "wf_ini c" and "can_write os conf_path"
    and "i < length (profiles c)" and "accepts api"
  obtains aw cr z where "bindP (mk_aws os (profiles c ! i)) (login api) s = (Inr aw, z)"
    and "aw_ec2 aw = Some cr" and "aw_resource aw = Some cr" and "aw_name aw = profiles c ! i"
    and "config (aw_loader aw) = renumber 1 (dict_keys (sections c)) c"
    and "\<And>v. effective c (profiles c ! i) ''instanceid'' = Some v \<Longrightarrow> ac_instanceId (aw_config aw) = v"
    and "ac_order (aw_config aw) = str_nat (Suc i)" and "same_settings c z"
proof -
  let ?x = "profiles c ! i" and ?r = "renumber 1 (dict_keys (sections c)) c"
  obtain aw y d where 1: "mk_aws os ?x s = (Inr aw, y)" "aw_name aw = ?x" "config (aw_loader aw) = ?r"
    "aw_config aw = profile_of ?r ?x" "ac_order (aw_config aw) = str_nat (Suc i)"
    "read_conf empty_ini y = (Inr d, y)" "conf_ready d" "wf_ini d"
    "dict_keys (sections d) = dict_keys (sections c)" "\<forall>x k. k \<noteq> ''order'' \<longrightarrow> effective d x k = effective c x k"
    by (rule mk_aws_file [OF assms(1-5)])
  obtain aw1 z where 2: "login api aw y = (Inr aw1, z)" using assms(6) unfolding accepts_def by blast
  have "same_settings c y" using 1(6-10) by (simp add: same_settings_def)
  then have z: "same_settings c z" by (rule same_settings_files) (rule files_login [OF 2])
  have q: "\<forall>y \<in> set (dict_keys (sections c)). proper_section c y" "distinct (dict_keys (sections c))"
    using conf_ready_profiles [OF assms(2)] assms(2) by (auto simp: conf_ready_def names_ok_def)
  have "?x \<in> set (profiles c)" using assms(5) by simp
  then have x: "?x \<in> set (dict_keys (sections c))" "?x \<noteq> ''api''" unfolding profiles_def by auto
  have "ac_instanceId (aw_config aw) = v" if "effective c ?x ''instanceid'' = Some v" for v
    using that visible_renumber [OF x _ q(2,1), of "''instanceid''"] by (simp add: 1(4) profile_of_def option_or_def)
  with login_config [OF 2] have v: "\<And>v. effective c ?x ''instanceid'' = Some v \<Longrightarrow> ac_instanceId (aw_config aw1) = v" by simp
  show ?thesis
    by (rule that [OF _ _ login_resource [OF 2] _ _ v _ z])
      (use 1(1-3,5) 2 login_object [OF 2] login_config [OF 2] in simp_all)
qed

subsection \<open>Resetting a profile\<close>

text \<open>The service lists the instances of the account, at least one for each reservation, and
  accepts their termination.\<close>

definition yields_instances :: "'w cloud_api \<Rightarrow> bool" where
  "yields_instances api \<longleftrightarrow>
     (\<forall>cr w. \<exists>rs w'. c_instances api cr None w = (Inr (Some rs), w') \<and> list_all (\<lambda>r. r \<noteq> []) rs) \<and>
     (\<forall>cr i w. fst (c_terminate api cr i w) = Inr ())"

lemma terminations_run:
  assumes "yields_instances api" and "list_all (\<lambda>r. r \<noteq> []) rs"
  shows "\<exists>z. for_each rs (\<lambda>r. bindP (index_list 0 r) (\<lambda>i. ext_op (c_terminate api cr (in_id i)))) s = (Inr (), z) \<and>
    files z = files s"
  using assms(2)
proof (induction rs arbitrary: s)
  case (Cons r rs)
  obtain x w where x: "c_terminate api cr (in_id (hd r)) (ext s) = (x, w)" by fastforce
  then have "x = Inr ()" using assms(1) unfolding yields_instances_def by (metis fst_conv)
  with Cons.IH [of "s\<lparr>ext := w\<rparr>"] Cons.prems x show ?case by (simp add: ext_op_eq thenP_def)
qed simp

lemma terminate_run:
  assumes "yields_instances api" and "aw_ec2 aw = Some cr"
  obtains z where "terminate_instance os api aw s = store_instance os [] aw z" and "files z = files s"
proof -
  obtain rs w where i: "c_instances api cr None (ext s) = (Inr (Some rs), w)" "list_all (\<lambda>r. r \<noteq> []) rs"
    using assms(1) unfolding yields_instances_def by blast
  obtain z where "for_each rs (\<lambda>r. bindP (index_list 0 r) (\<lambda>i. ext_op (c_terminate api cr (in_id i)))) (s\<lparr>ext := w\<rparr>)
      = (Inr (), z)" "files z = files s"
    using terminations_run [OF assms(1) i(2), of cr "s\<lparr>ext := w\<rparr>"] by auto
  with assms(2) i(1) show ?thesis
    by (intro that [of z]) (simp_all add: terminate_instance_def ext_op_eq)
qed

lemma settable_reset: "list_all settable reset_settings" "list_all settable [(''instanceId'', [])]"
  by code_simp+

lemma last_set_plain:
  "distinct (dict_keys kvs) \<Longrightarrow> \<forall>k \<in> set (dict_keys kvs). py_lower k = k \<Longrightarrow> last_set kvs j = dict_get kvs j"
proof (induction kvs)
  case (Cons kv kvs)
  obtain k v where kv: "kv = (k, v)" by (cases kv)
  have "dict_get kvs k = None" using Cons.prems(1) by (simp add: kv map_of_eq_None_iff)
  with Cons show ?case by (simp add: kv split: option.splits)
qed simp

lemma last_reset: "last_set reset_settings j = dict_get reset_settings j"
proof -
  have "distinct (dict_keys reset_settings)" "list_all (\<lambda>k. py_lower k = k) (dict_keys reset_settings)" by code_simp+
  then show ?thesis by (intro last_set_plain) (simp_all add: list_all_iff)
qed

lemma reset_clears_instance: "dict_get reset_settings ''instanceid'' = Some []"
  by code_simp

lemma last_instance: "last_set [(''instanceId'', [])] j = (if j = ''instanceid'' then Some [] else None)"
proof -
  have "py_lower ''instanceId'' = ''instanceid''" by code_simp
  then show ?thesis by simp
qed

text \<open>Entering the account of a profile and giving up its instances clears the stored identity.\<close>

lemma account_cleared:
  assumes "same_settings c s" and "can_write os conf_path" and "i < length (profiles c)" and "accepts api" and "yields_instances api"
  obtains aw z aw' s' t where "bindP (mk_aws os (profiles c ! i)) (login api) s = (Inr aw, z)"
    and "terminate_instance os api aw z = (Inr aw', s')" and "read_conf empty_ini s' = (Inr t, s')" and "conf_ready t"
    and "wf_ini t" and "dict_keys (sections t) = dict_keys (sections c)"
    and "\<forall>x \<in> set (profiles c). \<forall>j. j \<noteq> ''order'' \<longrightarrow>
      effective t x j = (if x = profiles c ! i \<and> j = ''instanceid'' then Some [] else effective c x j)"
proof -
  let ?x = "profiles c ! i" and ?kv = "(''instanceId'', []) :: string \<times> string"
  from assms(1) obtain b where b: "read_conf empty_ini s = (Inr b, s)" "conf_ready b" "wf_ini b"
    "dict_keys (sections b) = dict_keys (sections c)" "\<forall>x k. k \<noteq> ''order'' \<longrightarrow> effective b x k = effective c x k"
    unfolding same_settings_def by blast
  have p: "profiles b = profiles c" using b(4) by (simp add: profiles_def)
  obtain aw cr z where 1: "bindP (mk_aws os ?x) (login api) s = (Inr aw, z)" "aw_ec2 aw = Some cr" "aw_name aw = ?x"
    "config (aw_loader aw) = renumber 1 (dict_keys (sections b)) b" "same_settings b z"
    by (rule account [OF b(1-3) assms(2) _ assms(4), of i, unfolded p, OF assms(3)])
  obtain u where u: "terminate_instance os api aw z = store_instance os [] aw u" "files u = files z"
    by (rule terminate_run [OF assms(5) 1(2)])
  have "same_settings b u" by (rule same_settings_files [OF 1(5)]) (simp add: u(2))
  then obtain d where d: "read_conf empty_ini u = (Inr d, u)" "conf_ready d" "wf_ini d"
    "dict_keys (sections d) = dict_keys (sections b)" "\<forall>x k. k \<noteq> ''order'' \<longrightarrow> effective d x k = effective b x k"
    unfolding same_settings_def by blast
  have x: "?x \<in> set (profiles b)" using assms(3) by (simp add: p)
  let ?ld = "aw_loader aw"
  let ?ld1 = "?ld\<lparr>config := put_all ?x [?kv] (config ?ld)\<rparr>"
  obtain s' t where 2: "foldP (\<lambda>(k, v) ld. set_value ?x k (Some v) ld) [?kv] ?ld u = (Inr ?ld1, u)"
    "write_changes os ?ld1 ?x u = (Inr (), s')" "read_conf empty_ini s' = (Inr t, s')" "conf_ready t" "wf_ini t"
    "dict_keys (sections t) = dict_keys (sections b)" "\<forall>y \<in> set (profiles b). \<forall>j. j \<noteq> ''order'' \<longrightarrow> effective t y j =
      (case (if y = ?x then last_set [?kv] j else None) of Some v \<Rightarrow> Some v | None \<Rightarrow> effective b y j)"
    by (rule settings_written [OF b(2,3) assms(2) x settable_reset(2) 1(4) d])
  have pr: "proper_section (config ?ld) ?x" by (rule loaded_profile(1) [OF b(2) _ 1(4), of i]) (simp_all add: p assms(3))
  have "set_value ?x ''instanceId'' (Some []) ?ld u = (Inr ?ld1, u)"
    using set_value_eq [OF pr, of "[]" "''instanceId''" u] by simp
  with 2(2) 1(3) u(1) have "terminate_instance os api aw z = (Inr (aw\<lparr>aw_loader := ?ld1\<rparr>), s')"
    by (simp add: store_instance_def)
  then show ?thesis
    by (rule that [OF 1(1) _ 2(3-5)]) (use 2(6,7) b(4,5) in \<open>simp_all add: p last_instance\<close>)
qed


subsection \<open>Changing the credentials\<close>

text \<open>After settings were made in a loaded parser its profile is still complete.\<close>

lemma loaded_after_put:
  assumes "conf_ready c" and "wf_ini c" and "i < length (profiles c)" and "x = profiles c ! i"
    and "cfg = put_all x kvs (renumber 1 (dict_keys (sections c)) c)" and "list_all settable kvs"
  shows "load_aws_config x cfg = (Inr (profile_of cfg x), cfg)"
    and "ac_order (profile_of cfg x) = str_nat (Suc i)" and "proper_section cfg x"
proof -
  let ?r = "renumber 1 (dict_keys (sections c)) c"
  note l = loaded_profile [OF assms(1,3) refl assms(4)]
  have p: "\<forall>y \<in> set (dict_keys (sections c)). proper_section c y" "distinct (dict_keys (sections c))"
    using conf_ready_profiles [OF assms(1)] assms(1) by (auto simp: conf_ready_def names_ok_def)
  have xp: "x \<in> set (profiles c)" using assms(3,4) by simp
  then have x: "x \<in> set (dict_keys (sections c))" "x \<noteq> ''api''" unfolding profiles_def by auto
  have f: "conf_ready cfg" "wf_ini cfg" "proper_section cfg x"
    unfolding assms(5) using put_all_facts [OF assms(6) l(4) wf_renumber [OF assms(2) p(1)] l(1)] by simp_all
  have v: "visible cfg x k = (case last_set kvs k of Some v \<Rightarrow> Some v | None \<Rightarrow> visible ?r x k)" for k
    unfolding assms(5) visible_put_all [OF l(1)] by simp
  have "last_set kvs ''order'' = None" using assms(6)
    by (induction kvs) (auto simp: settable_def)
  moreover have "visible ?r x ''order'' = Some (str_nat (Suc i))"
    using order_renumber_nth [OF _ p(2,1), of i 1] assms(3,4) by (simp add: profiles_def)
  ultimately have o: "visible cfg x ''order'' = Some (str_nat (Suc i))" using v by simp
  have e: "visible ?r x k \<noteq> None \<Longrightarrow> visible cfg x k \<noteq> None" for k using v by (simp split: option.splits)
  have "has_keys c x [''accesskey'', ''secretkey'']" using assms(1) xp by (simp add: conf_ready_def list_all_iff)
  then have "visible ?r x k \<noteq> None" if "k \<in> {''accesskey'', ''secretkey''}" for k
    using that visible_renumber [OF x _ p(2,1)] by (auto simp: has_keys_def effective_def)
  then have h: "has_keys cfg x [''order'', ''accesskey'', ''secretkey'']" using e o by (simp add: has_keys_def)
  have "visible ?r x k \<noteq> None" if "(k, d) \<in> set aws_defaults" for k d
    using that visible_renumber [OF x _ p(2,1), of k] by (auto simp: effective_def aws_defaults_def split: option.splits)
  then have "add_defaults x cfg = cfg" using e by (intro add_defaults_none) blast
  then show "load_aws_config x cfg = (Inr (profile_of cfg x), cfg)"
    using load_aws_config_ok [OF f(3) _ h] f(1) by (simp add: conf_ready_def plain_ini_section)
  show "ac_order (profile_of cfg x) = str_nat (Suc i)" by (simp add: profile_of_def option_or_def o)
  show "proper_section cfg x" by (rule f(3))
qed

definition proxy_path :: "string \<Rightarrow> string" where
  "proxy_path pname = ''profile_config/'' @ pname @ ''/proxy_'' @ pname @ ''.cfg''"

lemma threeproxy_writes:
  assumes "os_fine os" and "complete ld name a" and "py_int (ac_order a) = Inr n"
  obtains s' where "generate_3proxy_config os name ld s = (Inr ld, s')"
    and "files s' = (files s)(proxy_path (profile_name (ac_order a) name) :=
       Some (proxy_text (profile_name (ac_order a) name) n (ac_order a) (ac_user a) (ac_pass a)))"
proof -
  obtain s' where s': "generate_3proxy_config os name ld s = (Inr ld, s')" using threeproxy_total [OF assms] by blast
  then have "files s' = (files s)(proxy_path (profile_name (ac_order a) name) :=
       Some (proxy_text (profile_name (ac_order a) name) n (ac_order a) (ac_user a) (ac_pass a)))"
    using assms(3)
    by (auto simp: generate_3proxy_config_def load_aws_complete [OF assms(2)] Let_def bindP_eq_Inr thenP_eq_Inr
        ext_op_def proxy_path_def split: prod.splits dest!: write_file_Inr)
  with s' that show ?thesis by blast
qed

lemma shadowsocks_writes:
  assumes "os_fine os" and "complete ld name a" and "py_int (ac_order a) = Inr n" and "proper_section (config ld) name"
  obtains s' where "generate_shadowsocks_config os name ld s = (Inr ld, s')"
    and "files s' (opt_path (ac_order a) name @ ''/shadowsocks.json'') =
      Some (dumps (ss_doc (api_interfaceWgPrivateKey (api_cfg ld)) n
        (if ac_user a \<noteq> [] \<and> ac_pass a \<noteq> [] then Some (opt_path (ac_order a) name @ ''/auth.json'') else None)))"
    and "ac_user a \<noteq> [] \<and> ac_pass a \<noteq> [] \<longrightarrow>
      files s' (opt_path (ac_order a) name @ ''/auth.json'') = Some (dumps (auth_doc (ac_user a) (ac_pass a)))"
proof -
  obtain s' where s': "generate_shadowsocks_config os name ld s = (Inr ld, s')" using shadowsocks_total [OF assms] by blast
  then have "files s' (opt_path (ac_order a) name @ ''/shadowsocks.json'') =
      Some (dumps (ss_doc (api_interfaceWgPrivateKey (api_cfg ld)) n
        (if ac_user a \<noteq> [] \<and> ac_pass a \<noteq> [] then Some (opt_path (ac_order a) name @ ''/auth.json'') else None))) \<and>
    (ac_user a \<noteq> [] \<and> ac_pass a \<noteq> [] \<longrightarrow>
      files s' (opt_path (ac_order a) name @ ''/auth.json'') = Some (dumps (auth_doc (ac_user a) (ac_pass a))))"
    using assms(3)
    by (auto simp: generate_shadowsocks_config_def complete_gets [OF assms(2,4)] load_aws_complete [OF assms(2)] Let_def
        bindP_eq_Inr thenP_eq_Inr split: if_splits dest!: write_file_Inr)
  with s' that show ?thesis by blast
qed

text \<open>Services that can be stopped and started.\<close>

definition services_run :: "'w svc_api \<Rightarrow> bool" where
  "services_run api \<longleftrightarrow> (\<forall>n w. fst (sv_stop api n w) = Inr () \<and> fst (sv_start api n w) = Inr ())"

lemma service_runs:
  assumes "services_run api"
  obtains w where "service_stop api n s = (Inr (), s\<lparr>ext := w\<rparr>)"
proof -
  obtain r w where w: "sv_stop api (unit_name n) (ext s) = (r, w)" by fastforce
  with assms have "r = Inr ()" unfolding services_run_def by (metis fst_conv)
  with w that show ?thesis by (simp add: service_stop_def ext_op_eq)
qed

lemma service_starts:
  assumes "services_run api"
  obtains w where "service_start api n s = (Inr (), s\<lparr>ext := w\<rparr>)"
proof -
  obtain r w where w: "sv_start api (unit_name n) (ext s) = (r, w)" by fastforce
  with assms have "r = Inr ()" unfolding services_run_def by (metis fst_conv)
  with w that show ?thesis by (simp add: service_start_def ext_op_eq)
qed

lemma await_returns:
  obtains s' where "await_proxy env p wanted s = (Inr (), s')" and "files s' = files s"
proof -
  obtain s' where s': "await_proxy env p wanted s = (Inr (), s')"
    by (simp add: await_proxy_def bindP_def attempts_spec)
  have f: "files s' q = files s q" for q
  proof -
    have "keeps (frame q (files s q)) (await_proxy env p wanted)"
      unfolding await_proxy_def get_external_ip_def by (intro keeps_intros)
    from frameD [OF this s'] show ?thesis .
  qed
  show ?thesis by (rule that [OF s']) (rule ext, rule f)
qed

lemma settable_auth:
  assumes "wf_val u" and "CHR ''%'' \<notin> set u" and "wf_val p" and "CHR ''%'' \<notin> set p"
  shows "list_all settable [(''user'', u), (''pass'', p)]"
    and "last_set [(''user'', u), (''pass'', p)] j = (if j = ''user'' then Some u else if j = ''pass'' then Some p else None)"
proof -
  have "wf_key ''user''" "wf_key ''pass''" and l: "py_lower ''user'' = ''user''" "py_lower ''pass'' = ''pass''" by code_simp+
  then show "list_all settable [(''user'', u), (''pass'', p)]" using assms by (simp add: settable_def)
  show "last_set [(''user'', u), (''pass'', p)] j = (if j = ''user'' then Some u else if j = ''pass'' then Some p else None)"
    by (simp add: l)
qed

text \<open>What the task has written when it is done.\<close>

definition auth_files :: "string \<Rightarrow> nat \<Rightarrow> string \<Rightarrow> string \<Rightarrow> string \<Rightarrow> 'w sys \<Rightarrow> bool" where
  "auth_files name n u p key s \<longleftrightarrow>
     (let pname = profile_name (str_nat n) name; dir = opt_path (str_nat n) name; auth = u \<noteq> [] \<and> p \<noteq> [] in
      files s (proxy_path pname) = Some (proxy_text pname (int n) (str_nat n) u p) \<and>
      files s (dir @ ''/shadowsocks.json'') = Some (dumps (ss_doc key (int n) (if auth then Some (dir @ ''/auth.json'') else None))) \<and>
      (auth \<longrightarrow> files s (dir @ ''/auth.json'') = Some (dumps (auth_doc u p))))"

lemma auth_files_written:
  assumes "os_fine os" and "complete ld name a" and "ac_order a = str_nat n" and "proper_section (config ld) name"
  obtains s1 s2 where "generate_3proxy_config os name ld s = (Inr ld, s1)"
    and "generate_shadowsocks_config os name ld s1 = (Inr ld, s2)"
    and "auth_files name n (ac_user a) (ac_pass a) (api_interfaceWgPrivateKey (api_cfg ld)) s2"
    and "files s2 conf_path = files s conf_path"
proof -
  let ?pn = "profile_name (ac_order a) name"
  have n: "py_int (ac_order a) = Inr (int n)" by (simp add: assms(3))
  obtain s1 where 1: "generate_3proxy_config os name ld s = (Inr ld, s1)"
    "files s1 = (files s)(proxy_path ?pn := Some (proxy_text ?pn (int n) (ac_order a) (ac_user a) (ac_pass a)))"
    by (rule threeproxy_writes [OF assms(1,2) n])
  obtain s2 where 2: "generate_shadowsocks_config os name ld s1 = (Inr ld, s2)"
    "files s2 (opt_path (ac_order a) name @ ''/shadowsocks.json'') =
      Some (dumps (ss_doc (api_interfaceWgPrivateKey (api_cfg ld)) (int n)
        (if ac_user a \<noteq> [] \<and> ac_pass a \<noteq> [] then Some (opt_path (ac_order a) name @ ''/auth.json'') else None)))"
    "ac_user a \<noteq> [] \<and> ac_pass a \<noteq> [] \<longrightarrow>
      files s2 (opt_path (ac_order a) name @ ''/auth.json'') = Some (dumps (auth_doc (ac_user a) (ac_pass a)))"
    by (rule shadowsocks_writes [OF assms(1,2) n assms(4)])
  have "hd (proxy_path ?pn) \<noteq> CHR ''/''" "hd conf_path \<noteq> CHR ''/''" "proxy_path ?pn \<noteq> conf_path"
    by (simp_all add: proxy_path_def conf_path_def)
  then have "files s2 (proxy_path ?pn) = files s1 (proxy_path ?pn)" "files s2 conf_path = files s conf_path"
    using frame_shadowsocks [OF _ assms(2) 2(1)] 1(2) by simp_all
  with 1 2 that show ?thesis by (simp add: auth_files_def Let_def assms(3))
qed

text \<open>The new credentials are stored, and the loader that stored them has them.\<close>

lemma credentials_stored:
  assumes "read_conf empty_ini s = (Inr c, s)" and "conf_ready c" and "wf_ini c" and "can_write os conf_path"
    and "i < length (profiles c)" and "wf_val u" and "CHR ''%'' \<notin> set u" and "wf_val p" and "CHR ''%'' \<notin> set p"
  obtains aw y ld s1 ldu ldp s2 t a where "mk_aws os (profiles c ! i) s = (Inr aw, y)"
    and "ac_order (aw_config aw) = str_nat (Suc i)" and "ConfigLoader os y = (Inr ld, s1)"
    and "set_value (profiles c ! i) ''user'' (Some u) ld s1 = (Inr ldu, s1)"
    and "set_value (profiles c ! i) ''pass'' (Some p) ldu s1 = (Inr ldp, s1)"
    and "write_changes os ldp (profiles c ! i) s1 = (Inr (), s2)" and "read_conf empty_ini s2 = (Inr t, s2)"
    and "\<forall>x \<in> set (profiles c). \<forall>j. j \<noteq> ''order'' \<longrightarrow> effective t x j =
      (if x = profiles c ! i \<and> j = ''user'' then Some u else if x = profiles c ! i \<and> j = ''pass'' then Some p
       else effective c x j)"
    and "complete ldp (profiles c ! i) a" and "ac_order a = str_nat (Suc i)"
    and "proper_section (config ldp) (profiles c ! i)" and "ac_user a = u" and "ac_pass a = p"
proof -
  let ?x = "profiles c ! i" and ?ns = "dict_keys (sections c)"
  let ?kvs = "[(''user'', u), (''pass'', p)]"
  note st = settable_auth [OF assms(6-9)]
  obtain aw y d where 1: "mk_aws os ?x s = (Inr aw, y)" "ac_order (aw_config aw) = str_nat (Suc i)"
    "read_conf empty_ini y = (Inr d, y)" "conf_ready d" "wf_ini d"
    "dict_keys (sections d) = ?ns" "\<forall>x k. k \<noteq> ''order'' \<longrightarrow> effective d x k = effective c x k"
    by (rule mk_aws_file [OF assms(1-5)])
  have pd: "profiles d = profiles c" using 1(6) by (simp add: profiles_def)
  have xp: "?x \<in> set (profiles d)" and id: "i < length (profiles d)" "?x = profiles d ! i" using assms(5) by (simp_all add: pd)
  obtain ld s1 d1 where 2: "ConfigLoader os y = (Inr ld, s1)" "config ld = renumber 1 (dict_keys (sections d)) d"
    "read_conf empty_ini s1 = (Inr d1, s1)" "conf_ready d1" "wf_ini d1" "dict_keys (sections d1) = dict_keys (sections d)"
    "\<forall>x k. k \<noteq> ''order'' \<longrightarrow> effective d1 x k = effective d x k"
    by (rule ConfigLoader_file [OF 1(3-5) assms(4)])
  let ?ld = "ld\<lparr>config := put_all ?x ?kvs (config ld)\<rparr>"
  obtain s2 t where 3: "foldP (\<lambda>(k, v) ld. set_value ?x k (Some v) ld) ?kvs ld s1 = (Inr ?ld, s1)"
    "write_changes os ?ld ?x s1 = (Inr (), s2)" "read_conf empty_ini s2 = (Inr t, s2)" "conf_ready t" "wf_ini t"
    "dict_keys (sections t) = dict_keys (sections d)"
    "\<forall>x \<in> set (profiles d). \<forall>j. j \<noteq> ''order'' \<longrightarrow> effective t x j =
      (case (if x = ?x then last_set ?kvs j else None) of Some v \<Rightarrow> Some v | None \<Rightarrow> effective d x j)"
    by (rule settings_written [OF 1(4,5) assms(4) xp st(1) 2(2-7)])
  have cfg: "config ?ld = put_all ?x ?kvs (renumber 1 (dict_keys (sections d)) d)" by (simp add: 2(2))
  note l = loaded_after_put [OF 1(4,5) id cfg st(1)]
  let ?a = "profile_of (config ?ld) ?x"
  have co: "complete ?ld ?x ?a" unfolding complete_def by (rule l(1))
  note r = loaded_profile [OF 1(4) id(1) refl id(2)]
  let ?ldu = "ld\<lparr>config := set_raw ?x (py_lower ''user'') u (config ld)\<rparr>"
  have pr: "proper_section (config ld) ?x" unfolding 2(2) by (rule r(1))
  then have pu: "proper_section (config ?ldu) ?x" by (simp add: ini_store.present_store)
  have sv: "set_value ?x ''user'' (Some u) ld s1 = (Inr ?ldu, s1)" "set_value ?x ''pass'' (Some p) ?ldu s1 = (Inr ?ld, s1)"
    using set_value_eq [OF pr assms(7), of "''user''" s1] set_value_eq [OF pu assms(9), of "''pass''" s1] by simp_all
  have up: "ac_user ?a = u" "ac_pass ?a = p"
    unfolding cfg profile_of_def option_or_def visible_put_all [OF r(1)] st(2) by simp_all
  show ?thesis
    by (rule that [OF 1(1,2) 2(1) sv 3(2,3) _ co l(2,3) up]) (use 3(7) 1(7) in \<open>simp add: pd st(2)\<close>)
qed


subsection \<open>The hypotheses can hold\<close>

lemma open_cloud_accepts: "accepts (e_cloud (demo_env open_cloud))"
  by (simp add: accepts_def demo_env_def login_def connect_ec2_def open_cloud_def index_list_def
      thenP_def bindP_def tryP_def ext_op_def Let_def)

lemma open_cloud_yields: "yields_instances (e_cloud (demo_env open_cloud))"
  by (simp add: yields_instances_def demo_env_def open_cloud_def)

lemma demo_env_fine: "os_fine (e_os (demo_env api))" "services_run (e_svc (demo_env api))"
  using os_fine_demo by (simp_all add: demo_env_def services_run_def no_services_def)

definition auth_args :: task_args where
  "auth_args = demo_args\<lparr>ta_new_user := Some ''ann'', ta_new_pass := Some ''n3w''\<rparr>"

lemma demo_second: "1 < length (profiles demo_ini)" "profiles demo_ini ! 1 = ''acc2''" "ta_config_name demo_args = profiles demo_ini ! 1"
  "ta_config_name auth_args = profiles demo_ini ! 1"
  by code_simp+



end
