(* ===== verification/Races.thy ===== *)
theory Races
  imports ServerProps TaskEffects
begin

section \<open>Handlers and threads together\<close>

text \<open>
  The running program: requests are handled, the threads that handlers start begin, work
  and end, in any order. A handler, the marks of a start, and the work of a task with
  the marks of its end are one step each; the work of two tasks is not interleaved
  further. From the start of the server, every reachable table is well-formed;
  and because the mark is set by the thread and not by the handler that asks for it, two
  tasks of one profile can run at once.
\<close>

subsection \<open>The steps\<close>

record 'w program =
  pr_server :: "'w server"
  pr_running :: "job list"

inductive step :: "'w env \<Rightarrow> 'w program \<Rightarrow> 'w program \<Rightarrow> bool" for env where
  request: "handle env r rq (pr_server y) = (a, s) \<Longrightarrow> step env y (y\<lparr>pr_server := s\<rparr>)"
| begins: "sv_threads (pr_server y) = js @ j # ks \<Longrightarrow>
     mark_start env j ((pr_server y)\<lparr>sv_threads := js @ ks\<rparr>) = (Inr (), s) \<Longrightarrow>
     step env y \<lparr>pr_server = s, pr_running = j # pr_running y\<rparr>"
| lost: "sv_threads (pr_server y) = js @ j # ks \<Longrightarrow>
     mark_start env j ((pr_server y)\<lparr>sv_threads := js @ ks\<rparr>) = (Inl e, s) \<Longrightarrow>
     step env y \<lparr>pr_server = s, pr_running = pr_running y\<rparr>"
| ends: "pr_running y = js @ j # ks \<Longrightarrow> on_sys (run_job env j) (pr_server y) = (Inr r, s1) \<Longrightarrow>
     mark_end env j r s1 = (a, s) \<Longrightarrow> step env y \<lparr>pr_server = s, pr_running = js @ ks\<rparr>"
| crashes: "pr_running y = js @ j # ks \<Longrightarrow> on_sys (run_job env j) (pr_server y) = (Inl e, s) \<Longrightarrow>
     step env y \<lparr>pr_server = s, pr_running = js @ ks\<rparr>"

inductive reachable :: "'w env \<Rightarrow> 'w program \<Rightarrow> bool" for env where
  starts: "startup env y = (Inr (table, port), y') \<Longrightarrow>
     reachable env \<lparr>pr_server = \<lparr>sv_sys = y', sv_tasks = table, sv_threads = []\<rparr>, pr_running = []\<rparr>"
| goes_on: "reachable env y \<Longrightarrow> step env y z \<Longrightarrow> reachable env z"

inductive_cases stepE: "step env y z"

subsection \<open>The invariant\<close>

definition task_types :: "string set" where
  "task_types = {''change_region'', ''change_ip'', ''change_whitelist'', ''reset'', ''change_auth''}"

definition profile_ok :: "string \<Rightarrow> profile \<Rightarrow> bool" where
  "profile_ok n p \<longleftrightarrow> pf_config_name p = n \<and>
     (pf_status p = ''busy'' \<and> (\<exists>t \<in> task_types. pf_current_task p = Some (Some t)) \<or>
      pf_status p = ''idle'' \<and> (\<forall>t. pf_current_task p \<noteq> Some (Some t)))"

definition server_ok :: "'w server \<Rightarrow> bool" where
  "server_ok s \<longleftrightarrow> (\<forall>n p. dict_get (sv_tasks s) n = Some p \<longrightarrow> profile_ok n p) \<and>
     (\<forall>j \<in> set (sv_threads s). jb_type j \<in> task_types)"

definition program_ok :: "'w program \<Rightarrow> bool" where
  "program_ok y \<longleftrightarrow> server_ok (pr_server y) \<and> (\<forall>j \<in> set (pr_running y). jb_type j \<in> task_types)"

lemma server_ok_sys [simp]: "server_ok (s\<lparr>sv_sys := y\<rparr>) = server_ok s"
  by (simp add: server_ok_def)

lemma server_ok_set:
  "server_ok s \<Longrightarrow> profile_ok n p \<Longrightarrow> server_ok (s\<lparr>sv_tasks := dict_set n p (sv_tasks s)\<rparr>)"
  by (simp add: server_ok_def dict_get_set)

lemma server_ok_get: "server_ok s \<Longrightarrow> dict_get (sv_tasks s) n = Some p \<Longrightarrow> profile_ok n p"
  by (simp add: server_ok_def)

lemma ok_on_sys [keeps_intros]: "keeps server_ok (on_sys m)"
  by (intro keeps_intros) simp

lemma ok_fresh: "ac_configName a = n \<Longrightarrow> profile_ok n (fresh_profile a)"
  by (simp add: profile_ok_def fresh_profile_def)

lemma ok_stop [keeps_intros]: "keeps server_ok (set_stop_task env n outcome d)"
  unfolding keeps_def
proof (intro allI impI)
  fix s :: "'a server" assume s: "server_ok s"
  show "server_ok (snd (set_stop_task env n outcome d s))"
  proof (cases "dict_get (sv_tasks s) n")
    case None
    then show ?thesis using s by (simp add: set_stop_task_def update_unknown)
  next
    case (Some p)
    obtain t y where e: "set_stop_task env n outcome d s = (Inr (), s\<lparr>sv_sys := y, sv_tasks := dict_set n
        (p\<lparr>pf_status := ''idle'', pf_current_task := Some None, pf_last_task := dict_set ''data'' d
          (dict_set ''status'' (JStr outcome) (dict_set ''end_time'' (JStr t) (pf_last_task p)))\<rparr>) (sv_tasks s)\<rparr>)"
      by (rule set_stop_known [OF Some])
    have "profile_ok n p" by (rule server_ok_get [OF s Some])
    then show ?thesis unfolding e using s by (auto simp: server_ok_def dict_get_set profile_ok_def)
  qed
qed

lemma ok_start:
  assumes "jb_type j \<in> task_types"
  shows "keeps server_ok (mark_start env j)"
  unfolding keeps_def
proof (intro allI impI)
  fix s :: "'a server" assume s: "server_ok s"
  show "server_ok (snd (mark_start env j s))"
  proof (cases "dict_get (sv_tasks s) (ta_config_name (jb_args j))")
    case None
    then show ?thesis using s by (simp add: mark_start_def update_unknown Let_def)
  next
    case (Some p)
    obtain t1 t2 y where e: "mark_start env j s = (Inr (), s\<lparr>sv_sys := y, sv_tasks :=
      dict_set (ta_config_name (jb_args j))
        (p\<lparr>pf_status := ''busy'', pf_start_time := Some (Some t1), pf_current_task := Some (Some (jb_type j)),
           pf_last_task := dict_set ''task_type'' (JStr (jb_type j)) (dict_set ''start_time'' (JStr t2) (pf_last_task p))\<rparr>)
        (sv_tasks s)\<rparr>)"
      by (rule mark_start_known [OF Some])
    have "profile_ok (ta_config_name (jb_args j)) p" by (rule server_ok_get [OF s Some])
    then show ?thesis unfolding e using s assms by (auto simp: server_ok_def dict_get_set profile_ok_def)
  qed
qed

text \<open>Loading a profile returns one of that name.\<close>

lemma load_aws_name: "load_aws n ld s = (Inr (a, ld'), s') \<Longrightarrow> ac_configName a = n"
  by (auto simp: load_aws_def load_aws_config_def run_ini_def bindP_eq_Inr thenP_eq_Inr
      split: prod.splits sum.splits)

lemma ok_set_profile: "profile_ok n p \<Longrightarrow> keeps server_ok (set_profile n p)"
  unfolding set_profile_def by (intro keeps_intros) (simp add: server_ok_set)

lemma keeps_bindP_value:
  assumes "keeps I m" and "returns P m" and "\<And>x. P x \<Longrightarrow> keeps I (f x)"
  shows "keeps I (bindP m f)"
  unfolding keeps_def
proof (intro allI impI)
  fix s assume s: "I s"
  obtain r s' where m: "m s = (r, s')" by (cases "m s")
  have "I s'" by (rule keepsD [OF assms(1) s m])
  then show "I (snd (bindP m f s))"
    using assms(2,3) m by (cases r) (auto simp: keeps_def bindP_def dest: returnsD)
qed

lemma returns_on_sys: "returns P m \<Longrightarrow> returns P (on_sys m)"
  by (fastforce simp: returns_def on_sys_eq)

lemma ok_register [keeps_intros]: "keeps server_ok (register_profile env n)"
proof -
  have "returns (\<lambda>(a, ld). ac_configName a = n) (on_sys (bindP (ConfigLoader (e_os env)) (load_aws n)))"
    by (intro returns_on_sys returns_bindP) (auto simp: returns_def dest: load_aws_name)
  then have "keeps server_ok (bindP (on_sys (bindP (ConfigLoader (e_os env)) (load_aws n)))
      (\<lambda>(a, _). set_profile n (fresh_profile a)))"
    by (rule keeps_bindP_value [OF ok_on_sys]) (auto intro!: ok_set_profile ok_fresh)
  then show ?thesis
    unfolding register_profile_def by (intro keeps_bindP [OF keeps_asks] keeps_if keeps_ret)
qed

lemma ok_reload [keeps_intros]: "keeps server_ok (reload_profile env n)"
proof -
  have "returns (\<lambda>a. ac_configName a = n) (attr ''get'' (find (\<lambda>a. ac_configName a = n) as) :: ('a server, aws_config) prog)" for as
    by (auto simp: attr_def find_Some_iff intro!: returns_intros split: option.split)
  then have "keeps server_ok (bindP (attr ''get'' (find (\<lambda>a. ac_configName a = n) as))
     (\<lambda>a. set_profile n ((fresh_profile a)\<lparr>pf_current_task := Some None, pf_last_task := pf_last_task p\<rparr>)) :: ('a server, unit) prog)"
    for as p
    by (rule keeps_bindP_value [rotated]) (auto intro!: keeps_intros ok_set_profile simp: profile_ok_def fresh_profile_def)
  then show ?thesis
    unfolding reload_profile_def by (intro keeps_bindP [OF ok_on_sys] keeps_bindP [OF keeps_get_profile])
qed

lemma ok_mark_end: "keeps server_ok (mark_end env j r)"
  unfolding mark_end_def Let_def by (intro keeps_intros)

lemma ok_thread: "jb_type j \<in> task_types \<Longrightarrow> keeps server_ok (start_thread j)"
  unfolding start_thread_def by (intro keeps_intros) (simp add: server_ok_def)

lemma ok_check [keeps_intros]: "keeps server_ok (check_task_status env n)"
  unfolding check_task_status_def by (intro keeps_intros)

lemma ok_with_profile [keeps_intros]:
  "(\<And>api a. keeps server_ok (k api a)) \<Longrightarrow> keeps server_ok (with_profile env rq k)"
  unfolding with_profile_def by (intro keeps_intros) simp_all

lemma ok_with_login [keeps_intros]:
  assumes "keeps server_ok response" and "\<And>aw. keeps server_ok (k aw)"
  shows "keeps server_ok (with_login env n response k)"
  unfolding with_login_def
proof (intro keeps_intros)
  fix r :: "exn + aws"
  show "keeps server_ok (case r of Inr aw1 \<Rightarrow> k aw1
     | Inl e \<Rightarrow> thenP (set_stop_task env n ''failed'' (JErr e))
           (bindP response (\<lambda>r. ret (JObj (dict_set ''message'' (JErr e) (dict_set ''status'' (JStr ''failed'') r))))))"
    using assms by (cases r) (auto intro!: keeps_intros)
qed simp_all

lemma ok_jobs:
  "keeps server_ok (start_thread (named_job ''change_ip'' n))" "keeps server_ok (start_thread (named_job ''reset'' n))"
  "keeps server_ok (start_thread (auth_job n rq))" "keeps server_ok (start_thread (region_job n r))"
  "keeps server_ok (start_thread (whitelist_job n rq))"
  by (intro ok_thread, simp add: named_job_def auth_job_def region_job_def whitelist_job_def task_types_def)+

lemma ok_handlers:
  "keeps server_ok (handle_change_ip env rq)" "keeps server_ok (handle_reset env rq)"
  "keeps server_ok (handle_change_auth env rq)" "keeps server_ok (handle_change_region env rq)"
  "keeps server_ok (handle_available_region env rq)" "keeps server_ok (handle_get_config env rq)"
  "keeps server_ok (handle_change_whitelist env rq)" "keeps server_ok (handle_get_task env rq)"
  unfolding handle_change_ip_def handle_reset_def handle_change_auth_def handle_change_region_def
    handle_available_region_def handle_get_config_def handle_change_whitelist_def handle_get_task_def Let_def
  by (intro ok_jobs keeps_intros; simp)+

lemma ok_handle: "keeps server_ok (handle env r rq)"
  by (cases r) (simp_all add: ok_handlers)

lemma step_ok:
  assumes "step env y z" and "program_ok y"
  shows "program_ok z"
  using assms(1)
proof (rule stepE)
  fix r rq a s assume 1: "z = y\<lparr>pr_server := s\<rparr>" "handle env r rq (pr_server y) = (a, s)"
  have "server_ok s" by (rule keepsD [OF ok_handle _ 1(2)]) (use assms(2) in \<open>simp add: program_ok_def\<close>)
  with 1(1) show ?thesis using assms(2) by (simp add: program_ok_def)
next
  fix js j ks s assume 1: "z = \<lparr>pr_server = s, pr_running = j # pr_running y\<rparr>"
    "sv_threads (pr_server y) = js @ j # ks" "mark_start env j ((pr_server y)\<lparr>sv_threads := js @ ks\<rparr>) = (Inr (), s)"
  have j: "jb_type j \<in> task_types" "server_ok ((pr_server y)\<lparr>sv_threads := js @ ks\<rparr>)"
    using assms(2) 1(2) by (auto simp: program_ok_def server_ok_def)
  have "server_ok s" by (rule keepsD [OF ok_start [OF j(1)] j(2) 1(3)])
  with 1(1) j(1) show ?thesis using assms(2) by (simp add: program_ok_def)
next
  fix js j ks e s assume 1: "z = \<lparr>pr_server = s, pr_running = pr_running y\<rparr>"
    "sv_threads (pr_server y) = js @ j # ks" "mark_start env j ((pr_server y)\<lparr>sv_threads := js @ ks\<rparr>) = (Inl e, s)"
  have j: "jb_type j \<in> task_types" "server_ok ((pr_server y)\<lparr>sv_threads := js @ ks\<rparr>)"
    using assms(2) 1(2) by (auto simp: program_ok_def server_ok_def)
  have "server_ok s" by (rule keepsD [OF ok_start [OF j(1)] j(2) 1(3)])
  with 1(1) show ?thesis using assms(2) by (simp add: program_ok_def)
next
  fix js j ks r s1 a s assume 1: "z = \<lparr>pr_server = s, pr_running = js @ ks\<rparr>" "pr_running y = js @ j # ks"
    "on_sys (run_job env j) (pr_server y) = (Inr r, s1)" "mark_end env j r s1 = (a, s)"
  have "server_ok s1" by (rule keepsD [OF ok_on_sys _ 1(3)]) (use assms(2) in \<open>simp add: program_ok_def\<close>)
  then have "server_ok s" by (rule keepsD [OF ok_mark_end _ 1(4)])
  with 1(1,2) show ?thesis using assms(2) by (auto simp: program_ok_def)
next
  fix js j ks e s assume 1: "z = \<lparr>pr_server = s, pr_running = js @ ks\<rparr>" "pr_running y = js @ j # ks"
    "on_sys (run_job env j) (pr_server y) = (Inl e, s)"
  have "server_ok s" by (rule keepsD [OF ok_on_sys _ 1(3)]) (use assms(2) in \<open>simp add: program_ok_def\<close>)
  with 1(1,2) show ?thesis using assms(2) by (auto simp: program_ok_def)
qed

lemma startup_ok:
  assumes "startup env y = (Inr (table, port), y')"
  shows "server_ok \<lparr>sv_sys = y', sv_tasks = table, sv_threads = []\<rparr>"
proof -
  obtain as where "table = fold (\<lambda>a. dict_set (ac_configName a) (fresh_profile a)) as []"
    using assms by (auto simp: startup_def mk_manager_def bindP_eq_Inr thenP_eq_Inr split: prod.splits)
  then show ?thesis
    by (auto simp: server_ok_def dest!: dict_get_table intro: ok_fresh)
qed

lemma reachable_ok: "reachable env y \<Longrightarrow> program_ok y"
  by (induction rule: reachable.induct) (auto simp: program_ok_def [of "\<lparr>pr_server = s, pr_running = t\<rparr>" for s t]
      intro: startup_ok step_ok)


subsection \<open>Two tasks at once\<close>

lemma reads_as_files: "reads_as env c s \<Longrightarrow> files (sv_sys t) conf_path = files (sv_sys s) conf_path \<Longrightarrow> reads_as env c t"
  by (auto simp: reads_as_def read_conf_def split: option.splits)

lemma opens_same:
  assumes "reads_as env c s" and "reads_as env d t" and "\<forall>x k. k \<noteq> ''order'' \<longrightarrow> effective d x k = effective c x k"
  shows "opens d x key \<longleftrightarrow> opens c x key"
proof -
  have "visible e ''api'' ''apikey'' = effective e ''api'' ''apikey''" if "conf_ready e" for e
    using api_visible [OF that] by (simp add: effective_def)
  then have "visible d ''api'' ''apikey'' = visible c ''api'' ''apikey''"
    using assms by (simp add: reads_as_def)
  then show ?thesis using assms(3) by (simp add: opens_def)
qed

lemma change_ip_starts:
  assumes "reads_as env c s" and "can_write (e_os env) conf_path" and "i < length (profiles c)"
    and "config_name_of rq = profiles c ! i" and "opens c (profiles c ! i) (rq_apikey rq)"
    and "accepts (e_cloud env)" and "profile_status s (profiles c ! i) = Some ''idle''"
  obtains d s' d' where "handle env ChangeIp rq s = (Inr (JObj d), s')" and "dict_get d ''message'' = Some (JStr ''Process started'')"
    and "sv_tasks s' = sv_tasks s" and "sv_threads s' = sv_threads s @ [named_job ''change_ip'' (profiles c ! i)]"
    and "reads_as env d' s'" and "profiles d' = profiles c" and "opens d' (profiles c ! i) (rq_apikey rq)"
proof -
  let ?x = "profiles c ! i"
  obtain y c1 api a where w: "\<And>k. with_profile env rq k s = k api a (s\<lparr>sv_sys := y\<rparr>)"
    and 1: "reads_as env c1 (s\<lparr>sv_sys := y\<rparr>)" "dict_keys (sections c1) = dict_keys (sections c)"
      "\<forall>x k. k \<noteq> ''order'' \<longrightarrow> effective c1 x k = effective c x k" and a: "ac_order a = str_nat (Suc i)"
    by (rule with_profile_known [OF assms(1-4)]) (use assms(5) in auto)
  have p1: "profiles c1 = profiles c" using 1(2) by (simp add: profiles_def)
  obtain aw z d' where 2: "mk_aws (e_os env) ?x y = (Inr aw, z)" "reads_as env d' (s\<lparr>sv_sys := z\<rparr>)"
    "dict_keys (sections d') = dict_keys (sections c1)" "\<forall>x k. k \<noteq> ''order'' \<longrightarrow> effective d' x k = effective c1 x k"
    by (rule mk_aws_known [OF 1(1) assms(2), of i, unfolded p1]) (use assms(3) in auto)
  obtain aw1 u where 3: "login (e_cloud env) aw z = (Inr aw1, u)" using assms(6) unfolding accepts_def by blast
  let ?s = "s\<lparr>sv_sys := u\<rparr>" and ?j = "named_job ''change_ip'' ?x"
  let ?s' = "?s\<lparr>sv_threads := sv_threads s @ [?j]\<rparr>"
  obtain p where p: "dict_get (sv_tasks s) ?x = Some p" using assms(7) by (auto simp: profile_status_def)
  have st: "check_task_status env ?x ?s = (Inr ''idle'', ?s)"
    using assms(7) by (intro check_known) (simp add: profile_status_def)
  have reg: "register_profile env ?x t = (Inr (), t)" if "sv_tasks t = sv_tasks s" for t
    using that p by (intro register_known) (simp add: profile_status_def)
  have get: "get_profile ?x t = (Inr p, t)" if "sv_tasks t = sv_tasks s" for t
    using that p by (simp add: get_profile_def key_of_def bindP_def)
  have "\<exists>d. handle env ChangeIp rq s = (Inr (JObj d), ?s') \<and> dict_get d ''message'' = Some (JStr ''Process started'')"
    using assms(4) 2(1) 3
    by (simp add: handle_change_ip_def w a Let_def py_int_str_nat thenP_def bindP_def reg get with_login_def
        on_sys_def tryP_def st start_thread_def dict_get_set)
  then obtain d where d: "handle env ChangeIp rq s = (Inr (JObj d), ?s')" "dict_get d ''message'' = Some (JStr ''Process started'')"
    by blast
  have sv: "reads_as env d' ?s'" by (rule reads_as_files [OF 2(2)]) (simp add: files_login [OF 3])
  have pd: "profiles d' = profiles c" using 1(2) 2(3) by (simp add: profiles_def)
  have "\<forall>x k. k \<noteq> ''order'' \<longrightarrow> effective d' x k = effective c x k" using 1(3) 2(4) by simp
  then have "opens d' ?x (rq_apikey rq)" using opens_same [OF assms(1) sv] assms(5) by simp
  with that [OF d _ _ sv pd] show ?thesis by simp
qed

text \<open>C8: two tasks of one profile can run at once. Whenever a profile of a loadable file is idle and
  the cloud accepts its login, two requests with its key to change its address, one after the
  other, are both answered \<open>Process started\<close>, because only the started thread marks the profile
  busy; both threads can then begin, and the program is in a state where both are running.\<close>

theorem two_tasks_one_profile:
  assumes "reads_as env c s" and "can_write (e_os env) conf_path" and "i < length (profiles c)"
    and "config_name_of rq = profiles c ! i" and "opens c (profiles c ! i) (rq_apikey rq)"
    and "accepts (e_cloud env)" and "profile_status s (profiles c ! i) = Some ''idle''" and "sv_threads s = []"
  shows "\<exists>d1 s1 d2 s2 y. handle env ChangeIp rq s = (Inr (JObj d1), s1) \<and> handle env ChangeIp rq s1 = (Inr (JObj d2), s2) \<and>
    dict_get d1 ''message'' = Some (JStr ''Process started'') \<and> dict_get d2 ''message'' = Some (JStr ''Process started'') \<and>
    (step env)\<^sup>*\<^sup>* \<lparr>pr_server = s, pr_running = []\<rparr> y \<and>
    pr_running y = [named_job ''change_ip'' (profiles c ! i), named_job ''change_ip'' (profiles c ! i)]"
proof -
  let ?x = "profiles c ! i" and ?j = "named_job ''change_ip'' (profiles c ! i)"
  have n: "ta_config_name (jb_args ?j) = ?x" by (simp add: named_job_def)
  obtain d1 s1 c1 where 1: "handle env ChangeIp rq s = (Inr (JObj d1), s1)"
    "dict_get d1 ''message'' = Some (JStr ''Process started'')" "sv_tasks s1 = sv_tasks s" "sv_threads s1 = [?j]"
    "reads_as env c1 s1" "profiles c1 = profiles c" "opens c1 ?x (rq_apikey rq)"
    by (rule change_ip_starts [OF assms(1-7)]) (use assms(8) in auto)
  have i1: "profile_status s1 ?x = Some ''idle''" using assms(7) 1(3) by (simp add: profile_status_def)
  obtain d2 s2 where 2: "handle env ChangeIp rq s1 = (Inr (JObj d2), s2)"
    "dict_get d2 ''message'' = Some (JStr ''Process started'')" "sv_tasks s2 = sv_tasks s" "sv_threads s2 = [?j, ?j]"
    by (rule change_ip_starts [OF 1(5) assms(2), of i rq, unfolded 1(6)])
      (use assms(3,4,6) 1(3,4,7) i1 in auto)
  obtain p where p: "dict_get (sv_tasks (s2\<lparr>sv_threads := [?j]\<rparr>)) (ta_config_name (jb_args ?j)) = Some p"
    using assms(7) 2(3) by (auto simp: profile_status_def n)
  obtain s3 p3 where 3: "mark_start env ?j (s2\<lparr>sv_threads := [] @ [?j]\<rparr>) = (Inr (), s3)" "sv_threads s3 = [] @ ?j # []"
    "dict_get (sv_tasks (s3\<lparr>sv_threads := [] @ []\<rparr>)) (ta_config_name (jb_args ?j)) = Some p3"
    by (rule mark_start_known [OF p, of env]) (auto simp: dict_get_set)
  obtain s4 where 4: "mark_start env ?j (s3\<lparr>sv_threads := [] @ []\<rparr>) = (Inr (), s4)"
    by (rule mark_start_known [OF 3(3), of env]) auto
  let ?y = "\<lambda>s js. \<lparr>pr_server = s, pr_running = js\<rparr>"
  have "step env (?y s []) (?y s1 [])" "step env (?y s1 []) (?y s2 [])"
    using step.request [of env ChangeIp rq "?y s []"] step.request [of env ChangeIp rq "?y s1 []"] 1(1) 2(1) by simp_all
  moreover have "step env (?y s2 []) (?y s3 [?j])"
    using step.begins [of "?y s2 []" "[]" ?j "[?j]" env] 2(4) 3(1) by simp
  moreover have "step env (?y s3 [?j]) (?y s4 [?j, ?j])"
    using step.begins [of "?y s3 [?j]" "[]" ?j "[]" env] 3(2) 4 by simp
  ultimately have "(step env)\<^sup>*\<^sup>* (?y s []) (?y s4 [?j, ?j])"
    by (meson converse_rtranclp_into_rtranclp rtranclp.rtrancl_refl)
  then show ?thesis using 1(1,2) 2(1,2) by (intro exI [of _ d1] exI [of _ s1] exI [of _ d2] exI [of _ s2] exI [of _ "?y s4 [?j, ?j]"]) simp
qed

subsection \<open>The hypotheses can hold\<close>


theorem two_tasks_one_profile_witness:
  "\<exists>y. (step (demo_env open_cloud))\<^sup>*\<^sup>* \<lparr>pr_server = demo_server demo_files, pr_running = []\<rparr> y \<and>
    pr_running y = [named_job ''change_ip'' ''acc2'', named_job ''change_ip'' ''acc2'']"
proof -
  have "config_name_of (demo_request ''s3cret'') = profiles demo_ini ! 1"
    "opens demo_ini (profiles demo_ini ! 1) (rq_apikey (demo_request ''s3cret''))"
    "profile_status (demo_server demo_files) (profiles demo_ini ! 1) = Some ''idle''"
    "sv_threads (demo_server demo_files) = []"
    by (simp_all add: demo_profiles demo_keys opens_def profile_status_def demo_server_def demo_profile_def)
  from two_tasks_one_profile [OF reads_as_demo(1) can_write_env demo_profiles(1) this(1,2) open_cloud_accepts this(3,4)]
  show ?thesis unfolding demo_profiles by blast
qed

end
