(* ===== verification/AddressEffect.thy ===== *)
theory AddressEffect
  imports TaskEffects
begin

section \<open>What changing the address leaves behind\<close>

text \<open>
  The task \<open>change_ip\<close> from one end to the other: the elastic addresses of the account,
  the two files of the tunnel, the settings and the answer. What the other services do
  may change the outside world, but not the observation of it that the statement is
  about; this is followed through the whole task.
\<close>

subsection \<open>Observations of the outside\<close>

text \<open>\<open>obs_is obs x\<close>: what \<open>obs\<close> observes of the outside is \<open>x\<close>.\<close>

definition obs_is :: "('w \<Rightarrow> 'o) \<Rightarrow> 'o \<Rightarrow> 'w sys \<Rightarrow> bool" where
  "obs_is obs x s \<longleftrightarrow> obs (ext s) = x"

definition apart_os :: "'w os_api \<Rightarrow> ('w \<Rightarrow> 'o) \<Rightarrow> bool" where
  "apart_os os obs \<longleftrightarrow>
     (\<forall>p w. obs (snd (os_open_w os p w)) = obs w) \<and> (\<forall>p w. obs (snd (os_makedirs os p w)) = obs w) \<and>
     (\<forall>c w. obs (snd (os_system os c w)) = obs w)"

definition apart_login :: "'w cloud_api \<Rightarrow> ('w \<Rightarrow> 'o) \<Rightarrow> bool" where
  "apart_login api obs \<longleftrightarrow>
     (\<forall>cr w. obs (snd (c_client api cr w)) = obs w) \<and> (\<forall>cr r w. obs (snd (c_regions api cr r w)) = obs w) \<and>
     (\<forall>cr w. obs (snd (c_resource api cr w)) = obs w)"

definition apart_ssh :: "'w ssh_api \<Rightarrow> ('w \<Rightarrow> 'o) \<Rightarrow> bool" where
  "apart_ssh api obs \<longleftrightarrow>
     (\<forall>c w. obs (snd (sh_connect api c w)) = obs w) \<and> (\<forall>c w. obs (snd (sh_transport api c w)) = obs w) \<and>
     (\<forall>c x w. obs (snd (sh_exec api c x w)) = obs w) \<and> (\<forall>h w. obs (snd (sh_read api h w)) = obs w) \<and>
     (\<forall>h w. obs (snd (sh_status api h w)) = obs w) \<and> (\<forall>c x y w. obs (snd (sh_put api c x y w)) = obs w) \<and>
     (\<forall>c w. obs (snd (sh_close api c w)) = obs w)"

definition apart :: "'w env \<Rightarrow> ('w \<Rightarrow> 'o) \<Rightarrow> bool" where
  "apart env obs \<longleftrightarrow>
     apart_os (e_os env) obs \<and> apart_login (e_cloud env) obs \<and> apart_ssh (e_ssh env) obs \<and>
     (\<forall>w. obs (snd (ufw_status (e_ufw env) w)) = obs w) \<and> (\<forall>n w. obs (snd (ufw_delete (e_ufw env) n w)) = obs w) \<and>
     (\<forall>h p u x w. obs (snd (net_socks_get (e_net env) h p u x w)) = obs w) \<and>
     (\<forall>n w. obs (snd (sv_restart (e_svc env) n w)) = obs w) \<and> (\<forall>n w. obs (snd (sv_stop (e_svc env) n w)) = obs w)"

lemma obs_isD: "keeps (obs_is obs (obs (ext s))) m \<Longrightarrow> m s = (r, s') \<Longrightarrow> obs (ext s') = obs (ext s)"
  using keepsD [of "obs_is obs (obs (ext s))" m s r s'] by (simp add: obs_is_def)

lemma obs_ext_op: "(\<And>w. obs (snd (f w)) = obs w) \<Longrightarrow> keeps (obs_is obs x) (ext_op f)"
  unfolding keeps_def obs_is_def ext_op_def by (auto split: prod.splits) (metis snd_conv)

named_theorems obs_intros

lemma obs_os:
  assumes "apart_os os obs"
  shows "keeps (obs_is obs x) (ext_op (os_open_w os p))" "keeps (obs_is obs x) (ext_op (os_makedirs os p))"
    "keeps (obs_is obs x) (ext_op (os_system os c))"
  by (rule obs_ext_op; use assms in \<open>simp add: apart_os_def\<close>)+

lemma obs_write [obs_intros]: "apart_os os obs \<Longrightarrow> keeps (obs_is obs x) (write_file os p t)"
  unfolding write_file_def by (intro keeps_thenP obs_os keeps_modify) (simp_all add: obs_is_def)

lemma obs_run_ini [obs_intros]: "keeps (obs_is obs x) (run_ini m c)"
  by (auto simp: keeps_def run_ini_def split: prod.splits sum.splits)

lemma obs_read [obs_intros]: "keeps (obs_is obs x) (read_conf c)" "keeps (obs_is obs x) (read_text p)"
  by (auto simp: keeps_def read_conf_def read_text_def split: option.splits)

lemma obs_load_aws [obs_intros]: "keeps (obs_is obs x) (load_aws name ld)"
  unfolding load_aws_def by (intro obs_intros keeps_intros)

lemma obs_loop:
  "apart_os os obs \<Longrightarrow> keeps (obs_is obs x) (load_all_loop os n names c)"
proof (induction os n names c rule: load_all_loop.induct)
  case (2 os n name names c)
  then show ?case
    by (simp add: reset_aws_config_order_def reorder_aws_config_def)
      (intro impI obs_intros keeps_intros; simp)
qed (simp add: keeps_ret)

lemma obs_loader [obs_intros]: "apart_os os obs \<Longrightarrow> keeps (obs_is obs x) (ConfigLoader os)"
  unfolding ConfigLoader_def load_into_def load_all_aws_config_def
  by (intro obs_intros obs_loop keeps_intros)

lemma obs_mk_aws [obs_intros]: "apart_os os obs \<Longrightarrow> keeps (obs_is obs x) (mk_aws os name)"
  unfolding mk_aws_def by (intro obs_intros keeps_intros)

lemma obs_index [obs_intros]: "keeps (obs_is obs x) (index_list n xs)"
  unfolding index_list_def by (intro keeps_intros)

lemma obs_login [obs_intros]: "apart_login api obs \<Longrightarrow> keeps (obs_is obs x) (login api aw)"
  unfolding login_def connect_ec2_def Let_def apart_login_def
  by (intro obs_intros obs_ext_op keeps_tryP keeps_bindP keeps_thenP keeps_ret keeps_raise keeps_prod_case keeps_if; simp)


lemma obs_install [obs_intros]:
  assumes "apart env obs"
  shows "keeps (obs_is obs x) (install_firewall (e_os env) (e_ufw env) name)"
proof -
  have os: "apart_os (e_os env) obs" and u: "\<And>w. obs (snd (ufw_status (e_ufw env) w)) = obs w"
    "\<And>n w. obs (snd (ufw_delete (e_ufw env) n w)) = obs w"
    using assms by (simp_all add: apart_def)
  have run: "keeps (obs_is obs x) (run_cmd (e_os env) c)" for c
    unfolding run_cmd_def by (intro keeps_bindP obs_os [OF os] keeps_ret)
  have "keeps (obs_is obs x) (mk_firewall (e_os env) name)"
    unfolding mk_firewall_def
    by (intro obs_loader obs_run_ini obs_write os keeps_bindP keeps_thenP keeps_attempt keeps_for_each run keeps_ret
        keeps_of_sum keeps_prod_case)
  moreover have "keeps (obs_is obs x) (delete_rules (e_ufw env) fw)" for fw
    unfolding delete_rules_def
    by (intro obs_ext_op u keeps_bindP keeps_ret keeps_raise keeps_option_case keeps_for_each keeps_if keeps_Let
        keeps_prod_case)
  moreover have "keeps (obs_is obs x) (apply_whitelist (e_os env) fw)" for fw
    unfolding apply_whitelist_def
    by (intro run keeps_bindP keeps_thenP keeps_ret keeps_raise keeps_option_case keeps_for_each keeps_attempt keeps_if keeps_Let)
  ultimately show ?thesis unfolding install_firewall_def by (intro keeps_bindP keeps_thenP)
qed

lemma obs_generated [obs_intros]:
  assumes "apart_os os obs"
  shows "keeps (obs_is obs x) (generate_profile_config os name ip ld)"
proof -
  note w = obs_write [OF assms] obs_os(2) [OF assms] obs_load_aws obs_run_ini
  have "keeps (obs_is obs x) (generate_3proxy_config os name ld)" for ld
    unfolding generate_3proxy_config_def Let_def
    by (intro w keeps_bindP keeps_thenP keeps_of_sum keeps_ret keeps_prod_case)
  moreover have "keeps (obs_is obs x) (generate_shadowsocks_config os name ld)" for ld
    unfolding generate_shadowsocks_config_def Let_def
    by (intro w keeps_bindP keeps_thenP keeps_of_sum keeps_ret keeps_prod_case keeps_if)
  ultimately show ?thesis
    unfolding generate_profile_config_def Let_def
    by (intro w keeps_bindP keeps_thenP keeps_of_sum keeps_prod_case)
qed

lemma obs_peer [obs_intros]:
  assumes "apart env obs"
  shows "keeps (obs_is obs x) (generate_peer_config (e_os env) (e_ufw env) name ld)"
proof -
  have os: "apart_os (e_os env) obs" using assms by (simp add: apart_def)
  show ?thesis
    unfolding generate_peer_config_def Let_def
    by (intro obs_install [OF assms] obs_write [OF os] obs_os(2) [OF os] obs_load_aws obs_run_ini obs_read
        keeps_bindP keeps_thenP keeps_attempt keeps_ret keeps_prod_case)
qed

lemma obs_host [obs_intros]:
  assumes "apart env obs"
  shows "keeps (obs_is obs x) (prepare_host env h)"
proof -
  have a: "apart_ssh (e_ssh env) obs" using assms by (simp add: apart_def)
  note o = a [unfolded apart_ssh_def]
  have e: "keeps (obs_is obs x) (ext_op (sh_connect (e_ssh env) c))" "keeps (obs_is obs x) (ext_op (sh_transport (e_ssh env) c))"
    "keeps (obs_is obs x) (ext_op (sh_exec (e_ssh env) c t))" "keeps (obs_is obs x) (ext_op (sh_read (e_ssh env) n))"
    "keeps (obs_is obs x) (ext_op (sh_status (e_ssh env) n))" "keeps (obs_is obs x) (ext_op (sh_put (e_ssh env) c t u))"
    "keeps (obs_is obs x) (ext_op (sh_close (e_ssh env) c))" for c t u n
    by (rule obs_ext_op; use o in simp)+
  have r: "keeps (obs_is obs x) (run_read (e_ssh env) c t)" for c t
    unfolding run_read_def by (intro e keeps_bindP keeps_ret)
  show ?thesis
    unfolding prepare_host_def host_login_def host_setup_def connect_def is_package_installed_def remove_package_def
      install_package_def copy_to_host_def is_file_exists_def allow_ipv4_forwarding_def execute_script_def
      enable_service_def restart_service_def Let_def
    by (intro e r keeps_bindP keeps_thenP keeps_ret keeps_raise keeps_if keeps_attempts keeps_option_case)
qed

lemma obs_services [obs_intros]:
  assumes "apart env obs"
  shows "keeps (obs_is obs x) (restart_iprotate_service (e_svc env) n)" "keeps (obs_is obs x) (service_stop (e_svc env) n)"
    "keeps (obs_is obs x) (await_proxy env p wanted)"
  unfolding restart_iprotate_service_def service_stop_def await_proxy_def get_external_ip_def
  using assms unfolding apart_def
  by (intro obs_ext_op keeps_bindP keeps_attempts keeps_tryP keeps_if keeps_ret keeps_raise; simp)+


subsection \<open>A new address\<close>

text \<open>
  The service of an account with running instances: describing an instance reports its
  public address \<open>at i\<close>. Besides there is the list of elastic addresses; allocating and
  associating are accepted. What the public address is after that, is left open.
\<close>

definition describes :: "'w cloud_api \<Rightarrow> (string \<Rightarrow> 'w \<Rightarrow> string) \<Rightarrow> bool" where
  "describes api at \<longleftrightarrow>
     (\<forall>cr i w. \<exists>r rs rss w'. c_instances api cr (Some i) w = (Inr (Some ((r # rs) # rss)), w') \<and>
        in_public_ip r = Some (at i w) \<and> at i w' = at i w) \<and>
     (\<forall>i w. plain_text (at i w) \<and> at i w \<noteq> [])"

definition renews :: "'w cloud_api \<Rightarrow> ('w \<Rightarrow> ec2_address list) \<Rightarrow> (string \<Rightarrow> 'w \<Rightarrow> string) \<Rightarrow> bool" where
  "renews api addrs at \<longleftrightarrow> address_service api addrs \<and> describes api at \<and>
     (\<forall>cr i w. \<exists>x. fst (c_allocate api cr i w) = Inr x) \<and>
     (\<forall>cr i x w. fst (c_associate api cr i x w) = Inr ())"

lemma described_address:
  assumes "describes api at" and "aw_ec2 aw = Some cr"
  obtains w where "get_instance_address api aw s = (Inr (at (ac_instanceId (aw_config aw)) (ext s)), s\<lparr>ext := w\<rparr>)"
    and "at (ac_instanceId (aw_config aw)) w = at (ac_instanceId (aw_config aw)) (ext s)"
proof -
  let ?i = "ac_instanceId (aw_config aw)"
  obtain r rs rss w where i: "c_instances api cr (Some ?i) (ext s) = (Inr (Some ((r # rs) # rss)), w)"
    "in_public_ip r = Some (at ?i (ext s))" "at ?i w = at ?i (ext s)"
    using assms(1) unfolding describes_def by blast
  then have "get_instance_address api aw s = (Inr (at ?i (ext s)), s\<lparr>ext := w\<rparr>)"
    using assms(2) by (simp add: get_instance_address_def get_instance_info_def ext_op_eq)
  then show ?thesis by (rule that) (rule i(3))
qed

lemma address_now:
  assumes "renews api addrs at" and "aw_ec2 aw = Some cr"
  obtains w where "get_instance_address api aw s = (Inr (at (ac_instanceId (aw_config aw)) (ext s)), s\<lparr>ext := w\<rparr>)"
    and "at (ac_instanceId (aw_config aw)) w = at (ac_instanceId (aw_config aw)) (ext s)" and "addrs w = addrs (ext s)"
proof -
  have a: "address_service api addrs" "describes api at" using assms(1) by (simp_all add: renews_def)
  obtain w where g: "get_instance_address api aw s = (Inr (at (ac_instanceId (aw_config aw)) (ext s)), s\<lparr>ext := w\<rparr>)"
    "at (ac_instanceId (aw_config aw)) w = at (ac_instanceId (aw_config aw)) (ext s)"
    by (rule described_address [OF a(2) assms(2)])
  from keepsD [OF keeps_addrs_address [OF a(1), of "addrs (ext s)" "files s" aw] _ g(1)] have "addrs w = addrs (ext s)" by simp
  with g show ?thesis by (rule that)
qed

lemma allocate_runs:
  assumes "renews api addrs at" and "aw_ec2 aw = Some cr"
  obtains s' where "allocate_and_associate_ip api aw s = (Inr (), s')"
proof -
  let ?i = "ac_instanceId (aw_config aw)"
  have a: "address_service api addrs" using assms(1) by (simp add: renews_def)
  obtain x w where x: "c_allocate api cr ?i (ext s) = (Inr x, w)"
    using assms(1) unfolding renews_def by (metis prod.collapse)
  obtain w1 where w1: "c_associate api cr ?i x w = (Inr (), w1)"
    using assms(1) unfolding renews_def by (metis prod.collapse)
  obtain w2 where w2: "c_addresses api cr w1 = (Inr (addrs w1), w2)"
    using a unfolding address_service_def by (metis prod.collapse)
  obtain s' where "disassociate_and_release_ip api aw (s\<lparr>ext := w1\<rparr>) = (Inr (), s')"
    using address_loop [OF a, of "addrs w1" ?i cr "s\<lparr>ext := w2\<rparr>"] assms(2) w2
    by (auto simp: disassociate_and_release_ip_def ext_op_eq)
  with x w1 assms(2) show ?thesis
    by (intro that [of s']) (simp add: allocate_and_associate_ip_def ext_op_eq)
qed

lemma new_ip_runs:
  assumes "renews api addrs at" and "aw_ec2 aw = Some cr" and "ac_instanceId (aw_config aw) = i" and "i \<noteq> []"
    and "distinct (map ad_allocation (addrs (ext s)))"
  obtains s' where "get_new_ip n os api aw s = (Inr ((Some (at i (ext s)), at i (ext s')), aw), s')"
    and "files s' = files s" and "addrs (ext s') = others i (addrs (ext s))"
proof -
  have a: "address_service api addrs" using assms(1) by (simp add: renews_def)
  note now = address_now [OF assms(1,2), unfolded assms(3)]
  obtain w where 1: "get_instance_address api aw s = (Inr (at i (ext s)), s\<lparr>ext := w\<rparr>)" "addrs w = addrs (ext s)"
    by (rule now [of s])
  have "distinct (map ad_allocation (addrs (ext (s\<lparr>ext := w\<rparr>))))" using assms(5) 1(2) by simp
  then obtain s2 where 2: "disassociate_and_release_ip api aw (s\<lparr>ext := w\<rparr>) = (Inr (), s2)" "files s2 = files s"
    "addrs (ext s2) = others i (addrs (ext s))"
    using release_exact [OF a assms(2)] assms(3) 1(2) by fastforce
  obtain s3 where 3: "allocate_and_associate_ip api aw s2 = (Inr (), s3)" by (rule allocate_runs [OF assms(1,2)])
  have "distinct (map ad_allocation (addrs (ext s2)))"
    using assms(5) by (simp add: 2(3) others_def distinct_map_filter)
  from allocate_exact [OF a assms(2) this 3]
  have 4: "addrs (ext s3) = others i (addrs (ext s))" "files s3 = files s"
    using assms(3) 2(2,3) by (auto simp: others_def)
  obtain w4 where 5: "get_instance_address api aw s3 = (Inr (at i (ext s3)), s3\<lparr>ext := w4\<rparr>)"
    "at i w4 = at i (ext s3)" "addrs w4 = addrs (ext s3)"
    by (rule now [of s3])
  show ?thesis
    by (rule that [of "s3\<lparr>ext := w4\<rparr>"])
      (use assms(3,4) 1(1) 2(1) 3 4 5 in \<open>simp_all add: get_new_ip_def\<close>)
qed


subsection \<open>The generated files and the settings\<close>

lemma settings_loader:
  fixes os :: "'w os_api"
  assumes "can_write os conf_path"
  shows "keeps (same_settings c) (ConfigLoader os)"
  unfolding keeps_def
proof (intro allI impI)
  fix s :: "'w sys" assume "same_settings c s"
  then obtain t where t: "read_conf empty_ini s = (Inr t, s)" "conf_ready t" "wf_ini t"
    "dict_keys (sections t) = dict_keys (sections c)" "\<forall>x k. k \<noteq> ''order'' \<longrightarrow> effective t x k = effective c x k"
    unfolding same_settings_def by blast
  obtain ld s' d where "ConfigLoader os s = (Inr ld, s')" "read_conf empty_ini s' = (Inr d, s')" "conf_ready d" "wf_ini d"
    "dict_keys (sections d) = dict_keys (sections t)" "\<forall>x k. k \<noteq> ''order'' \<longrightarrow> effective d x k = effective t x k"
    by (rule ConfigLoader_file [OF t(1-3) assms])
  with t(4,5) show "same_settings c (snd (ConfigLoader os s))" by (simp add: same_settings_def)
qed

lemma settings_ext_op: "keeps (same_settings c) (ext_op f)"
  by (rule keeps_ext_op) (erule same_settings_files, simp)

lemma settings_write: "p \<noteq> conf_path \<Longrightarrow> keeps (same_settings c) (write_file os p t)"
  by (rule keeps_write_file) (erule same_settings_files, simp)+

lemma settings_run_ini: "keeps (same_settings c) (run_ini m d)"
  by (auto simp: keeps_def run_ini_def split: prod.splits sum.splits)

lemma settings_read_text: "keeps (same_settings c) (read_text p)"
  by (auto simp: keeps_def read_text_def split: option.splits)

lemmas settings_intros = settings_ext_op settings_run_ini settings_read_text

lemma settings_firewall:
  assumes "can_write os conf_path"
  shows "keeps (same_settings c) (install_firewall os ufw name)"
proof -
  have w: "keeps (same_settings c) (write_file os (app_path n) t)" for n t
    by (rule settings_write) (simp add: conf_path_def app_path_def)
  have run: "keeps (same_settings c) (run_cmd os x)" for x
    unfolding run_cmd_def by (intro settings_ext_op keeps_bindP keeps_ret)
  have "keeps (same_settings c) (mk_firewall os name)"
    unfolding mk_firewall_def
    by (intro settings_loader [OF assms] settings_intros w run keeps_bindP keeps_thenP keeps_attempt keeps_for_each keeps_ret
        keeps_of_sum keeps_prod_case)
  moreover have "keeps (same_settings c) (delete_rules ufw fw)" for fw
    unfolding delete_rules_def
    by (intro settings_intros keeps_bindP keeps_ret keeps_raise keeps_option_case keeps_for_each keeps_if keeps_Let
        keeps_prod_case)
  moreover have "keeps (same_settings c) (apply_whitelist os fw)" for fw
    unfolding apply_whitelist_def
    by (intro run keeps_bindP keeps_thenP keeps_ret keeps_raise keeps_option_case keeps_for_each keeps_attempt keeps_if keeps_Let)
  ultimately show ?thesis unfolding install_firewall_def by (intro keeps_bindP keeps_thenP)
qed

lemma settings_generated:
  assumes "can_write os conf_path"
  shows "keeps (same_settings c) (generate_profile_config os name ip ld)"
    and "keeps (same_settings c) (generate_peer_config os ufw name ld)"
proof -
  have paths: "opt_path order name @ f \<noteq> conf_path" "near_path order name \<noteq> conf_path"
    "''profile_config/'' @ f \<noteq> conf_path" for order f
    by (simp_all add: near_path_def conf_path_def opt_path_def)
  note gen = settings_intros settings_write [OF paths(1)] settings_write [OF paths(2)] settings_write [OF paths(3)]
    keeps_bindP keeps_thenP keeps_of_sum keeps_ret keeps_prod_case keeps_if keeps_attempt settings_firewall [OF assms]
  have l: "keeps (same_settings c) (load_aws name ld)" for ld
    unfolding load_aws_def by (intro gen)
  have p: "keeps (same_settings c) (generate_3proxy_config os name ld)"
    and ss: "keeps (same_settings c) (generate_shadowsocks_config os name ld)" for ld
    unfolding generate_3proxy_config_def generate_shadowsocks_config_def Let_def by (intro gen l)+
  show "keeps (same_settings c) (generate_profile_config os name ip ld)"
    and "keeps (same_settings c) (generate_peer_config os ufw name ld)"
    unfolding generate_profile_config_def generate_peer_config_def Let_def by (intro gen l p ss)+
qed

text \<open>What the \<open>api\<close> section of a loadable file says about the keys of the tunnel.\<close>

lemma loaded_keys:
  assumes "conf_ready c" and "wf_ini c" and "load_api_config c = (Inr api, c1)"
  shows "wf_api api"
    and "visible c ''api'' ''interfacewgprivatekey'' = Some (api_interfaceWgPrivateKey api)"
    and "visible c ''api'' ''peerwgprivatekey'' = Some (api_peerWgPrivateKey api)"
    and "visible c ''api'' ''interfacewgpublickey'' = Some (api_interfaceWgPublicKey api)"
    and "visible c ''api'' ''peerwgpublickey'' = Some (api_peerWgPublicKey api)"
proof -
  have g: "visible c ''api'' (py_lower k) = Some v \<and> plain_text v"
    if "ini_get c ''api'' k = Inr v" and "visible c ''api'' (py_lower k) \<noteq> None" for k v
  proof -
    from that(2) obtain u where u: "visible c ''api'' (py_lower k) = Some u" by blast
    then have p: "CHR ''%'' \<notin> set u"
      using assms(1) plain_ini_section plain_visible unfolding conf_ready_def by blast
    have h: "has_section c ''api''" using assms(1) by (simp add: conf_ready_def proper_section_def)
    then have "u = v" using that(1) ini_get_visible [OF h u p] by simp
    moreover have "wf_val u" by (rule conjunct2 [OF wf_visible [OF assms(2) u]])
    ultimately show ?thesis using u p by (simp add: plain_text_def)
  qed
  have keys: "\<forall>k \<in> {''interfacewgprivatekey'', ''interfacewgpublickey'', ''peerwgpublickey'', ''peerwgprivatekey''}.
      visible c ''api'' k \<noteq> None"
    using assms(1) by (simp add: conf_ready_def has_keys_def)
  have "ini_get c ''api'' ''interfacewgPrivateKey'' = Inr (api_interfaceWgPrivateKey api)"
    "ini_get c ''api'' ''interfacewgPublicKey'' = Inr (api_interfaceWgPublicKey api)"
    "ini_get c ''api'' ''peerwgPublicKey'' = Inr (api_peerWgPublicKey api)"
    "ini_get c ''api'' ''peerwgPrivateKey'' = Inr (api_peerWgPrivateKey api)"
    using assms(3) by (auto simp: load_api_config_def cget_def bindP_eq_Inr)
  note a = this [THEN g]
  show "wf_api api" and "visible c ''api'' ''interfacewgprivatekey'' = Some (api_interfaceWgPrivateKey api)"
    and "visible c ''api'' ''peerwgprivatekey'' = Some (api_peerWgPrivateKey api)"
    and "visible c ''api'' ''interfacewgpublickey'' = Some (api_interfaceWgPublicKey api)"
    and "visible c ''api'' ''peerwgpublickey'' = Some (api_peerWgPublicKey api)"
    using a keys by (simp_all add: wf_api_def)
qed


lemma loaded_api:
  assumes "ConfigLoader os s = (Inr ld, s')" and "read_conf empty_ini s = (Inr c, s)"
  obtains c1 where "load_api_config c = (Inr (api_cfg ld), c1)"
  using assms by (auto simp: ConfigLoader_def load_into_def bindP_eq_Inr run_ini_eq_Inr)

text \<open>The keys of the \<open>api\<close> section, and an object loaded with them.\<close>

definition has_wg_keys :: "ini \<Rightarrow> api_config \<Rightarrow> bool" where
  "has_wg_keys c api \<longleftrightarrow>
     effective c ''api'' ''interfacewgprivatekey'' = Some (api_interfaceWgPrivateKey api) \<and>
     effective c ''api'' ''peerwgprivatekey'' = Some (api_peerWgPrivateKey api) \<and>
     effective c ''api'' ''interfacewgpublickey'' = Some (api_interfaceWgPublicKey api) \<and>
     effective c ''api'' ''peerwgpublickey'' = Some (api_peerWgPublicKey api)"

lemma loader_from_settings:
  assumes "same_settings c s" and "can_write os conf_path" and "i < length (profiles c)"
  obtains ld s' a where "ConfigLoader os s = (Inr ld, s')" and "same_settings c s'"
    and "complete ld (profiles c ! i) a" and "ac_order a = str_nat (Suc i)" and "proper_section (config ld) (profiles c ! i)"
    and "wf_api (api_cfg ld)" and "has_wg_keys c (api_cfg ld)"
    and "\<And>v. effective c (profiles c ! i) ''region'' = Some v \<Longrightarrow> ac_region a = v"
proof -
  from assms(1) obtain t where t: "read_conf empty_ini s = (Inr t, s)" "conf_ready t" "wf_ini t"
    "dict_keys (sections t) = dict_keys (sections c)" "\<forall>x k. k \<noteq> ''order'' \<longrightarrow> effective t x k = effective c x k"
    unfolding same_settings_def by blast
  have p: "profiles t = profiles c" using t(4) by (simp add: profiles_def)
  obtain ld s' where ld: "ConfigLoader os s = (Inr ld, s')" "config ld = renumber 1 (dict_keys (sections t)) t"
    "\<forall>x \<in> set (profiles t). \<forall>k. k \<noteq> ''order'' \<longrightarrow> visible (config ld) x k = effective t x k"
    using ConfigLoader_ok [OF t(1,2) assms(2)] by blast
  have "same_settings c s'" by (rule keepsD [OF settings_loader [OF assms(2)] assms(1) ld(1)])
  note l = loaded_profile [OF t(2) _ ld(2) refl, of i, unfolded p, OF assms(3)]
  obtain c1 where c1: "load_api_config t = (Inr (api_cfg ld), c1)" by (rule loaded_api [OF ld(1) t(1)])
  note k = loaded_keys [OF t(2,3) c1]
  have e: "k \<noteq> ''order'' \<Longrightarrow> visible t x k = Some v \<Longrightarrow> effective c x k = Some v" for x k v
    using t(5) [THEN spec [of _ x], THEN spec [of _ k]] by (simp add: effective_def)
  have "has_wg_keys c (api_cfg ld)"
    unfolding has_wg_keys_def by (intro conjI e [OF _ k(2)] e [OF _ k(3)] e [OF _ k(4)] e [OF _ k(5)]) simp_all
  moreover have "complete ld (profiles c ! i) (profile_of (config ld) (profiles c ! i))"
    unfolding complete_def by (rule l(2))
  moreover have "ac_region (profile_of (config ld) (profiles c ! i)) = v"
    if "effective c (profiles c ! i) ''region'' = Some v" for v
    using that ld(3) t(5) assms(3) by (simp add: p profile_of_def option_or_def)
  ultimately show ?thesis using that [OF ld(1) \<open>same_settings c s'\<close> _ l(3) l(1) k(1)] by blast
qed

text \<open>
  The two files of the tunnel of profile \<open>n\<close>: they are read back as the near end, which
  dials \<open>ip\<close>, and the far end, with each other's addresses and the keys of the file.
\<close>

definition tunnel_files :: "ini \<Rightarrow> string \<Rightarrow> nat \<Rightarrow> string \<Rightarrow> 'w sys \<Rightarrow> bool" where
  "tunnel_files c name n ip s \<longleftrightarrow> (\<exists>tn tf near far.
     files s (near_path (str_nat n) name) = Some tn \<and> ini_read empty_ini tn = Inr near \<and>
     files s (local_wg_path (str_nat n) name) = Some tf \<and> ini_read empty_ini tf = Inr far \<and>
     visible near ''Peer'' ''endpoint'' = Some (ip @ '':'' @ peer_wg_port) \<and>
     visible far ''Interface'' ''listenport'' = Some peer_wg_port \<and>
     visible near ''Interface'' ''address'' = visible far ''Peer'' ''allowedips'' \<and>
     visible near ''Peer'' ''allowedips'' = visible far ''Interface'' ''address'' \<and>
     visible near ''Interface'' ''privatekey'' = effective c ''api'' ''interfacewgprivatekey'' \<and>
     visible far ''Peer'' ''publickey'' = effective c ''api'' ''interfacewgpublickey'' \<and>
     visible far ''Interface'' ''privatekey'' = effective c ''api'' ''peerwgprivatekey'' \<and>
     visible near ''Peer'' ''publickey'' = effective c ''api'' ''peerwgpublickey'')"

lemma tunnel_filesI:
  assumes "wf_api api" and "has_wg_keys c api" and "plain_text ip" and "ip \<noteq> []" and "one_line name" and "CHR ''%'' \<notin> set name"
    and "files s (near_path (str_nat n) name) = Some (ini_write (near_ini api (str_nat n) name (int n) ip))"
    and "files s (opt_path (str_nat n) name @ ''/wg0.conf'') = Some (ini_write (far_ini api (str_nat n)))"
  shows "tunnel_files c name n ip s"
proof -
  have "visible (far_ini api (str_nat n)) ''Interface'' ''listenport'' = Some peer_wg_port"
    by (simp add: far_ini_def wg_ini_def visible_def section_dict_def lower_keys_def far_interface_def far_peer_def)
  with assms near_ini_ok(2) [OF assms(1,3,5,6)] far_ini_ok(2) [OF assms(1)] ends_meet [OF assms(4)] show ?thesis
    unfolding tunnel_files_def has_wg_keys_def local_wg_path_def
    by (intro exI [of _ "ini_write (near_ini api (str_nat n) name (int n) ip)"]
        exI [of _ "ini_write (far_ini api (str_nat n))"]
        exI [of _ "near_ini api (str_nat n) name (int n) ip"] exI [of _ "far_ini api (str_nat n)"]) simp
qed

subsection \<open>A host and services that answer\<close>

definition answers :: "'w ssh_api \<Rightarrow> bool" where
  "answers api \<longleftrightarrow> (\<forall>c w. \<exists>b. fst (sh_transport api c w) = Inr b) \<and> (\<forall>c x w. \<exists>h. fst (sh_exec api c x w) = Inr h) \<and>
     (\<forall>h w. \<exists>t. fst (sh_read api h w) = Inr t) \<and> (\<forall>h w. \<exists>n. fst (sh_status api h w) = Inr n) \<and>
     (\<forall>c x y w. fst (sh_put api c x y w) = Inr ()) \<and> (\<forall>c w. fst (sh_close api c w) = Inr ())"

definition restarts :: "'w svc_api \<Rightarrow> bool" where
  "restarts api \<longleftrightarrow> (\<forall>n w. fst (sv_restart api n w) = Inr ())"

text \<open>\<open>calls P m\<close>: \<open>m\<close> returns a value with \<open>P\<close> and touches no file.\<close>

definition calls :: "('a \<Rightarrow> bool) \<Rightarrow> ('w sys, 'a) prog \<Rightarrow> bool" where
  "calls P m \<longleftrightarrow> (\<forall>s. \<exists>x s'. m s = (Inr x, s') \<and> files s' = files s \<and> P x)"

lemma callsE:
  assumes "calls P m"
  obtains x s' where "m s = (Inr x, s')" and "files s' = files s" and "P x"
  using assms unfolding calls_def by blast

lemma calls_bindP:
  assumes "calls Q m" and "\<And>x. Q x \<Longrightarrow> calls P (f x)"
  shows "calls P (bindP m f)"
  unfolding calls_def
proof
  fix s
  obtain x t where 1: "m s = (Inr x, t)" "files t = files s" "Q x" by (rule callsE [OF assms(1)])
  obtain y s' where "f x t = (Inr y, s')" "files s' = files t" "P y" by (rule callsE [OF assms(2) [OF 1(3)]])
  with 1 show "\<exists>y s'. bindP m f s = (Inr y, s') \<and> files s' = files s \<and> P y" by simp
qed

lemma calls_thenP: "calls Q m \<Longrightarrow> calls P n \<Longrightarrow> calls P (thenP m n)"
  unfolding thenP_def by (rule calls_bindP)

lemma calls_ret: "P x \<Longrightarrow> calls P (ret x)"
  by (simp add: calls_def)

lemma calls_tryP: "calls P m \<Longrightarrow> calls P (tryP m h)"
  unfolding calls_def tryP_def by (metis (mono_tags, lifting) case_prod_conv sum.case(2))

lemma calls_if: "(b \<Longrightarrow> calls P m) \<Longrightarrow> (\<not> b \<Longrightarrow> calls P n) \<Longrightarrow> calls P (if b then m else n)"
  by simp

lemma calls_ext_op: "(\<And>w. \<exists>x. fst (f w) = Inr x \<and> P x) \<Longrightarrow> calls P (ext_op f)"
  unfolding calls_def by (metis files_ext_op fst_ext_op prod.collapse)

lemma calls_weaken: "calls Q m \<Longrightarrow> (\<And>x. Q x \<Longrightarrow> P x) \<Longrightarrow> calls P m"
  unfolding calls_def by blast

lemma calls_attempts: "calls (\<lambda>_. True) (attempts n (ext_op f))"
proof -
  have "files (snd (attempts n (ext_op f) s)) = files s" for s
  proof -
    have "keeps (\<lambda>t. files t = files s) (attempts n (ext_op f))"
      by (intro keeps_attempts keeps_ext_op) simp
    then show ?thesis by (simp add: keeps_def)
  qed
  then show ?thesis unfolding calls_def using attempts_spec by (metis snd_conv)
qed

text \<open>The value is often of no interest.\<close>

abbreviation passes :: "('w sys, 'a) prog \<Rightarrow> bool" where
  "passes \<equiv> calls (\<lambda>_. True)"

lemma passes_run_read: "answers api \<Longrightarrow> passes (run_read api c cmd)"
  unfolding run_read_def answers_def
  by (intro calls_bindP [where Q = "\<lambda>_. True"] calls_ext_op calls_ret) simp_all

lemma prepare_runs:
  assumes "answers (e_ssh env)"
  obtains s' where "prepare_host env h s = (Inr (), s')" and "files s' = files s"
proof -
  note a = assms [unfolded answers_def]
  have e: "passes (ext_op (sh_transport (e_ssh env) c))" "passes (ext_op (sh_exec (e_ssh env) c t))"
    "passes (ext_op (sh_read (e_ssh env) n))" "passes (ext_op (sh_status (e_ssh env) n))"
    "passes (ext_op (sh_put (e_ssh env) c t u))" "passes (ext_op (sh_close (e_ssh env) c))" for c t u n
    by (rule calls_ext_op; use a in simp)+
  note bind = calls_bindP [where Q = "\<lambda>_. True"] calls_thenP [where Q = "\<lambda>_. True"]
  let ?c = "\<lparr>ssh_host = h_host h, ssh_user = h_user h, ssh_key = h_key h\<rparr>"
  have "passes (host_setup (e_ssh env) (h\<lparr>h_ssh := Some ?c\<rparr>))"
    unfolding host_setup_def is_package_installed_def remove_package_def install_package_def copy_to_host_def
      is_file_exists_def allow_ipv4_forwarding_def execute_script_def enable_service_def restart_service_def Let_def
    by (simp, intro e passes_run_read [OF assms] bind calls_if calls_ret TrueI)
  moreover have "passes (connect (e_ssh env) 10 ?c)"
    unfolding connect_def by (intro e bind calls_attempts calls_if calls_ret TrueI)
  ultimately have "passes (prepare_host env h)"
    unfolding prepare_host_def host_login_def Let_def
    by (intro calls_bindP [where Q = "\<lambda>x. x = h\<lparr>h_ssh := Some ?c\<rparr>"] calls_bindP [where Q = "\<lambda>_. True"] calls_ret) simp_all
  then show ?thesis by (rule callsE) (use that in simp)
qed

subsection \<open>Changing the address\<close>

text \<open>The tunnel of a loaded profile is generated for a new address.\<close>

lemma tunnel_set_up:
  assumes "os_fine (e_os env)" and "complete ld x a" and "ac_order a = str_nat n" and "proper_section (config ld) x"
    and "wf_api (api_cfg ld)" and "has_wg_keys c (api_cfg ld)" and "plain_text ip" and "ip \<noteq> []" and "one_line x"
    and "CHR ''%'' \<notin> set x" and "same_settings t s" and "apart env obs"
  obtains s1 u s2 where "generate_profile_config (e_os env) x (Some ip) ld s = (Inr ld, s1)"
    and "generate_peer_config (e_os env) (e_ufw env) x ld s1 = (Inr (u, ld), s2)"
    and "tunnel_files c x n ip s2" and "same_settings t s2" and "obs (ext s2) = obs (ext s)"
proof -
  have w: "can_write (e_os env) conf_path" using assms(1) by (simp add: os_fine_def)
  have os: "apart_os (e_os env) obs" using assms(12) by (simp add: apart_def)
  obtain s1 u s2 where 1: "generate_profile_config (e_os env) x (Some ip) ld s = (Inr ld, s1)"
    "generate_peer_config (e_os env) (e_ufw env) x ld s1 = (Inr (u, ld), s2)"
    "files s2 (near_path (str_nat n) x) = Some (ini_write (near_ini (api_cfg ld) (str_nat n) x (int n) ip))"
    "files s2 (opt_path (str_nat n) x @ ''/wg0.conf'') = Some (ini_write (far_ini (api_cfg ld) (str_nat n)))"
    by (rule tunnel_generated [OF assms(1,2,4,3,5,7,9,10)])
  have "same_settings t s1" by (rule keepsD [OF settings_generated(1) [OF w] assms(11) 1(1)])
  then have "same_settings t s2" by (rule keepsD [OF settings_generated(2) [OF w] _ 1(2)])
  moreover have "obs (ext s2) = obs (ext s)"
    using obs_isD [OF obs_generated [OF os] 1(1)] obs_isD [OF obs_peer [OF assms(12)] 1(2)] by simp
  ultimately show ?thesis
    by (rule that [OF 1(1,2) tunnel_filesI [OF assms(5-10) 1(3,4)]])
qed

lemma tunnel_files_cong: "tunnel_files c x n ip s \<Longrightarrow> files z = files s \<Longrightarrow> tunnel_files c x n ip z"
  by (simp add: tunnel_files_def)

lemma wf_profile_name: "wf_ini c \<Longrightarrow> i < length (profiles c) \<Longrightarrow> one_line (profiles c ! i)"
proof -
  assume c: "wf_ini c" and i: "i < length (profiles c)"
  have "profiles c ! i \<in> set (dict_keys (sections c))" using nth_mem [OF i] unfolding profiles_def by simp
  then show "one_line (profiles c ! i)" using c by (auto simp: wf_ini_def wf_name_def list_all_iff)
qed

text \<open>The last steps of the task: the host is prepared, the local service is restarted and the
  proxy is waited for. They return, whatever stopping the service says, and touch no file.\<close>

lemma restart_and_wait:
  assumes "restarts (e_svc env)" and "apart env obs"
  obtains s1 s' where "restart_iprotate_service (e_svc env) n s = (Inr (), s1)"
    and "await_proxy env p wanted s1 = (Inr (), s')" and "files s' = files s" and "obs (ext s') = obs (ext s)"
proof -
  obtain u w where "sv_restart (e_svc env) (unit_name n) (ext s) = (u, w)" by fastforce
  moreover from this have "u = Inr ()" using assms(1) unfolding restarts_def by (metis fst_conv)
  ultimately have 1: "restart_iprotate_service (e_svc env) n s = (Inr (), s\<lparr>ext := w\<rparr>)"
    by (simp add: restart_iprotate_service_def ext_op_eq)
  obtain s' where 2: "await_proxy env p wanted (s\<lparr>ext := w\<rparr>) = (Inr (), s')" "files s' = files (s\<lparr>ext := w\<rparr>)"
    by (rule await_returns)
  have "obs (ext s') = obs (ext s)"
    using obs_isD [OF obs_services(1) [OF assms(2)] 1] obs_isD [OF obs_services(3) [OF assms(2)] 2(1)] by simp
  then show ?thesis by (intro that [OF 1 2(1)]) (simp_all add: 2(2))
qed

lemma last_steps:
  assumes "answers (e_ssh env)" and "restarts (e_svc env)" and "apart env obs"
  obtains s1 r s2 s3 s' where "prepare_host env h s = (Inr (), s1)" and "service_stop (e_svc env) n s1 = (r, s2)"
    and "restart_iprotate_service (e_svc env) n s2 = (Inr (), s3)" and "await_proxy env p wanted s3 = (Inr (), s')"
    and "files s' = files s" and "obs (ext s') = obs (ext s)"
proof -
  obtain s1 where 1: "prepare_host env h s = (Inr (), s1)" "files s1 = files s" by (rule prepare_runs [OF assms(1)])
  obtain r s2 where 2: "service_stop (e_svc env) n s1 = (r, s2)" by fastforce
  have f2: "files s2 = files s1" using 2 by (auto simp: service_stop_def ext_op_def split: prod.splits)
  obtain s3 s' where 3: "restart_iprotate_service (e_svc env) n s2 = (Inr (), s3)" "await_proxy env p wanted s3 = (Inr (), s')"
    "files s' = files s2" "obs (ext s') = obs (ext s2)"
    by (rule restart_and_wait [OF assms(2,3)])
  have "obs (ext s') = obs (ext s)"
    using obs_isD [OF obs_host [OF assms(3)] 1(1)] obs_isD [OF obs_services(2) [OF assms(3)] 2] 3(4) by simp
  then show ?thesis by (intro that [OF 1(1) 2 3(1,2)]) (simp_all add: 1(2) f2 3(3))
qed

text \<open>C1: changing the address does what it is for. From a loadable file and for a profile with an
  instance, when nothing refuses a write and the cloud, the host and the services answer, the
  task succeeds whatever the firewall and the probe of the proxy say. It reports the public
  address of the instance before and after; no elastic address of the instance is left and
  those of other instances are as they were; the two files of the tunnel meet at the new address
  with the keys of the file; and no setting has changed but for numbers and defaults.\<close>

theorem change_ip_effect:
  assumes "read_conf empty_ini s = (Inr c, s)" and "conf_ready c" and "wf_ini c" and "os_fine (e_os env)"
    and "i < length (profiles c)" and "ta_config_name args = profiles c ! i"
    and "CHR ''%'' \<notin> set (profiles c ! i)" and "effective c (profiles c ! i) ''instanceid'' = Some inst" and "inst \<noteq> []"
    and "accepts (e_cloud env)" and "renews (e_cloud env) addrs at" and "distinct (map ad_allocation (addrs (ext s)))"
    and "apart env (\<lambda>w. (addrs w, at inst w))" and "answers (e_ssh env)" and "restarts (e_svc env)"
  shows "\<exists>s' t. change_ip env rt args s =
      (Inr (result ''success'' (new_ip_json (Some (at inst (ext s)), at inst (ext s')))), s') \<and>
    addrs (ext s') = others inst (addrs (ext s)) \<and>
    tunnel_files c (profiles c ! i) (Suc i) (at inst (ext s')) s' \<and>
    read_conf empty_ini s' = (Inr t, s') \<and> conf_ready t \<and> (\<forall>x k. k \<noteq> ''order'' \<longrightarrow> effective t x k = effective c x k)"
proof -
  let ?x = "profiles c ! i" and ?os = "e_os env" and ?obs = "\<lambda>w. (addrs w, at inst w)"
  let ?pn = "profile_name (str_nat (Suc i)) ?x"
  have w: "can_write ?os conf_path" using assms(4) by (simp add: os_fine_def)
  have os: "apart_os ?os ?obs" using assms(13) by (simp add: apart_def)
  obtain aw cr z where 1: "bindP (mk_aws ?os ?x) (login (e_cloud env)) s = (Inr aw, z)" "aw_ec2 aw = Some cr"
    "ac_instanceId (aw_config aw) = inst" "ac_order (aw_config aw) = str_nat (Suc i)" "same_settings c z"
    by (rule account [OF assms(1-3) w assms(5,10)]) (use assms(8) in blast)
  have "keeps (obs_is ?obs x) (bindP (mk_aws ?os ?x) (login (e_cloud env)))" for x
    using assms(13) by (intro keeps_bindP obs_mk_aws obs_login) (simp_all add: apart_def)
  from obs_isD [OF this 1(1)] have o0: "?obs (ext z) = ?obs (ext s)" .
  obtain ld s1 a where 2: "ConfigLoader ?os z = (Inr ld, s1)" "same_settings c s1" "complete ld ?x a"
    "ac_order a = str_nat (Suc i)" "proper_section (config ld) ?x" "wf_api (api_cfg ld)" "has_wg_keys c (api_cfg ld)"
    by (rule loader_from_settings [OF 1(5) w assms(5)])
  have o1: "?obs (ext s1) = ?obs (ext s)" using obs_isD [OF obs_loader [OF os] 2(1)] o0 by simp
  then have "distinct (map ad_allocation (addrs (ext s1)))" using assms(12) by simp
  from new_ip_runs [OF assms(11) 1(2,3) assms(9) this] obtain s2 where
    3: "get_new_ip (e_rounds env) ?os (e_cloud env) aw s1 = (Inr ((Some (at inst (ext s1)), at inst (ext s2)), aw), s2)"
    "files s2 = files s1" "addrs (ext s2) = others inst (addrs (ext s1))" by blast
  let ?ip = "at inst (ext s2)"
  have ip: "plain_text ?ip" "?ip \<noteq> []" using assms(11) by (simp_all add: renews_def describes_def)
  have "same_settings c s2" by (rule same_settings_files [OF 2(2)]) (simp add: 3(2))
  then obtain s3 t3 s4 where 4: "generate_profile_config ?os ?x (Some ?ip) ld s2 = (Inr ld, s3)"
    "generate_peer_config ?os (e_ufw env) ?x ld s3 = (Inr (t3, ld), s4)"
    "tunnel_files c ?x (Suc i) ?ip s4" "same_settings c s4" "?obs (ext s4) = ?obs (ext s2)"
    by (rule tunnel_set_up [OF assms(4) 2(3-7) ip wf_profile_name [OF assms(3,5)] assms(7) _ assms(13)])
  let ?p = "mk_socks5 (api_publicip (api_cfg ld)) (basesocks_port + int (Suc i)) (ac_user (aw_config aw)) (ac_pass (aw_config aw))"
  obtain s5 r s6 s7 s' where 5: "prepare_host env (mk_host rt ?ip (str_nat (Suc i)) ?x) s4 = (Inr (), s5)"
    "service_stop (e_svc env) ?pn s5 = (r, s6)" "restart_iprotate_service (e_svc env) ?pn s6 = (Inr (), s7)"
    "await_proxy env ?p (\<lambda>ip. ip = ?ip) s7 = (Inr (), s')" "files s' = files s4" "?obs (ext s') = ?obs (ext s4)"
    by (rule last_steps [OF assms(14,15,13)])
  have o: "at inst (ext s') = ?ip" "addrs (ext s') = others inst (addrs (ext s))" using o1 3(3) 4(5) 5(6) by simp_all
  have "change_ip env rt args s = (Inr (result ''success'' (new_ip_json (Some (at inst (ext s)), ?ip))), s')"
    using 1(1,4) 2(1) 3(1) 4(1,2) 5(1-4) o1 assms(6)
    by (simp add: change_ip_def task_body_def Let_def thenP_def attempt_apply py_int_str_nat)
  moreover have "tunnel_files c ?x (Suc i) ?ip s'" by (rule tunnel_files_cong [OF 4(3) 5(5)])
  moreover from same_settings_files [OF 4(4), of s'] 5(5) obtain t where "read_conf empty_ini s' = (Inr t, s')" "conf_ready t"
    "\<forall>x k. k \<noteq> ''order'' \<longrightarrow> effective t x k = effective c x k" unfolding same_settings_def by auto
  ultimately show ?thesis using o by auto
qed


subsection \<open>The hypotheses can hold\<close>

text \<open>A profile with an instance, whose public address changes when an elastic address is allocated;
  the second part of the world is a log.\<close>

definition rotating_ini :: ini where
  "rotating_ini = set_raw ''acc1'' ''instanceid'' ''i-1'' demo_ini"

definition rotating_ip :: "string \<Rightarrow> demo_world \<Rightarrow> string" where
  "rotating_ip i w = (if snd w = [] then ''5.6.7.8'' else ''5.6.7.9'')"

definition rotating_cloud :: "demo_world cloud_api" where
  "rotating_cloud = demo_cloud\<lparr>
     c_instances := \<lambda>cr i w. (Inr (Some [[demo_instance\<lparr>in_public_ip := Some (rotating_ip ''i-1'' w)\<rparr>]]), w),
     c_allocate := \<lambda>cr i (ads, log). (Inr (fresh_name ads), (ads @ [\<lparr>ad_allocation = fresh_name ads,
       ad_association = None, ad_tags = Some [(''instance'', i)]\<rparr>], log @ [''allocate'']))\<rparr>"

definition rotating_env :: "demo_world env" where
  "rotating_env = \<lparr>e_os = cloud_os,
     e_ufw = \<lparr>ufw_status = \<lambda>w. (Inr (Some []), w), ufw_delete = \<lambda>i w. (Inr (), w)\<rparr>,
     e_net = \<lparr>net_socks_get = \<lambda>h p u x w. (Inl (External ''unreachable''), w)\<rparr>, e_cloud = rotating_cloud,
     e_ssh = \<lparr>sh_connect = \<lambda>c w. (Inr (), w), sh_transport = \<lambda>c w. (Inr True, w), sh_exec = \<lambda>c x w. (Inr 0, w),
       sh_read = \<lambda>n w. (Inr [], w), sh_status = \<lambda>n w. (Inr 0, w), sh_put = \<lambda>c x y w. (Inr (), w), sh_close = \<lambda>c w. (Inr (), w)\<rparr>,
     e_svc = \<lparr>sv_restart = \<lambda>n w. (Inr (), w), sv_stop = \<lambda>n w. (Inl (External ''not loaded''), w),
       sv_start = \<lambda>n w. (Inr (), w), sv_units = \<lambda>w. (Inr [], w)\<rparr>,
     e_rounds = 3\<rparr>"

definition rotating_sys :: "demo_world sys" where
  "rotating_sys = \<lparr>files = [conf_path \<mapsto> ini_write rotating_ini], ext = (demo_addresses, [])\<rparr>"

lemma rotating_renews: "renews rotating_cloud fst rotating_ip"
proof -
  have "address_service rotating_cloud fst"
    using fresh_name_new by (fastforce simp: address_service_def rotating_cloud_def demo_cloud_def)
  moreover have "plain_text ''5.6.7.8''" "plain_text ''5.6.7.9''" by code_simp+
  ultimately show ?thesis
    by (simp add: renews_def describes_def rotating_cloud_def demo_cloud_def rotating_ip_def split_beta)
qed

lemma rotating_accepts: "accepts rotating_cloud"
  by (simp add: accepts_def login_def connect_ec2_def rotating_cloud_def demo_cloud_def index_list_def
      thenP_def bindP_def tryP_def ext_op_def Let_def)

lemma rotating_apart: "apart rotating_env (\<lambda>w. (fst w, rotating_ip i w))"
  by (simp add: apart_def apart_os_def apart_login_def apart_ssh_def rotating_env_def rotating_cloud_def demo_cloud_def
      cloud_os_def)

lemma rotating_fine: "os_fine (e_os rotating_env)" "answers (e_ssh rotating_env)" "restarts (e_svc rotating_env)"
  by (auto simp: os_fine_def can_write_def rotating_env_def cloud_os_def answers_def restarts_def)

theorem change_ip_effect_witness:
  "\<exists>s'. change_ip rotating_env demo_run (demo_args\<lparr>ta_config_name := ''acc1''\<rparr>) rotating_sys =
      (Inr (result ''success'' (new_ip_json (Some ''5.6.7.8'', rotating_ip ''i-1'' (ext s')))), s') \<and>
    map ad_allocation (fst (ext s')) = [''e-2''] \<and> tunnel_files rotating_ini ''acc1'' 1 (rotating_ip ''i-1'' (ext s')) s'"
proof -
  have w: "wf_ini rotating_ini" "conf_ready rotating_ini" "0 < length (profiles rotating_ini)"
    "profiles rotating_ini ! 0 = ''acc1''" "CHR ''%'' \<notin> set (profiles rotating_ini ! 0)"
    "effective rotating_ini (profiles rotating_ini ! 0) ''instanceid'' = Some ''i-1''" "''i-1'' \<noteq> []"
    by code_simp+
  have r: "read_conf empty_ini rotating_sys = (Inr rotating_ini, rotating_sys)"
    using w(1) by (simp add: read_conf_def rotating_sys_def ini_read_write)
  have n: "ta_config_name (demo_args\<lparr>ta_config_name := ''acc1''\<rparr>) = profiles rotating_ini ! 0" by (simp add: w(4))
  have d: "distinct (map ad_allocation (fst (ext rotating_sys)))"
    by (simp add: rotating_sys_def demo_addresses_def)
  have c: "e_cloud rotating_env = rotating_cloud" by (simp add: rotating_env_def)
  have o: "map ad_allocation (others ''i-1'' (fst (ext rotating_sys))) = [''e-2'']"
    "rotating_ip ''i-1'' (ext rotating_sys) = ''5.6.7.8''"
    by (simp_all add: others_def tagged_def rotating_sys_def demo_addresses_def rotating_ip_def)
  from change_ip_effect [OF r w(2,1) rotating_fine(1) w(3) n w(5-7) rotating_accepts [folded c] rotating_renews [folded c] d
      rotating_apart rotating_fine(2,3), of demo_run]
  show ?thesis unfolding w(4) o(2) using o(1) by fastforce
qed

end
