(* ===== verification/RegionEffect.thy ===== *)
theory RegionEffect
  imports AddressEffect
begin

section \<open>What changing the region leaves behind\<close>

text \<open>
  The task \<open>change_region\<close> from one end to the other, after the launch of an instance on
  which it rests: the old instance is given up, the new region is stored, an instance is
  launched there and the tunnel is generated for it.
\<close>

subsection \<open>A service that launches\<close>

text \<open>
  What launching needs of the service: it has or creates the security group, whose rules
  can be read; among its types, listed on finitely many pages, there is one of a single
  core; it takes or has the key; it has an image; and it creates an instance.
\<close>

definition readable :: "ip_permission \<Rightarrow> bool" where
  "readable p \<longleftrightarrow> pm_protocol p \<noteq> ''-1'' \<or> (\<exists>c d rs. pm_ranges p = (c, Some d) # rs)"

definition has_group :: "'w cloud_api \<Rightarrow> bool" where
  "has_group api \<longleftrightarrow>
     (\<forall>cr w. \<exists>gs. fst (c_role_groups api cr w) = Inr gs) \<and> (\<forall>cr w. \<exists>g. fst (c_create_group api cr w) = Inr g) \<and>
     (\<forall>cr i w. \<exists>d ds. fst (c_group api cr i w) = Inr (d # ds) \<and> list_all readable (sg_permissions d)) \<and>
     (\<forall>cr i w. fst (c_authorize api cr i w) = Inr ())"

definition has_type :: "nat \<Rightarrow> 'w cloud_api \<Rightarrow> bool" where
  "has_type n api \<longleftrightarrow> (\<forall>cr w. \<exists>page ps w'. c_types api cr None w = (Inr page, w') \<and> serves api cr page ps w' \<and>
     length ps \<le> n \<and> list_all (\<lambda>t. it_cores t \<noteq> None) (concat (map tp_types (page # ps))) \<and>
     find (\<lambda>t. it_cores t = Some 1) (concat (map tp_types (page # ps))) \<noteq> None)"

definition has_key :: "'w cloud_api \<Rightarrow> bool" where
  "has_key api \<longleftrightarrow>
     (\<forall>p w. \<exists>k. fst (c_read_key api p w) = Inr k) \<and> (\<forall>k w. \<exists>d. fst (c_key_digest api k w) = Inr d) \<and>
     (\<forall>cr w. \<exists>ks. fst (c_key_pairs api cr w) = Inr ks) \<and> (\<forall>cr n k w. \<exists>m. fst (c_import_key api cr n k w) = Inr m)"

definition offers :: "nat \<Rightarrow> 'w cloud_api \<Rightarrow> bool" where
  "offers n api \<longleftrightarrow> accepts api \<and> has_group api \<and> has_type n api \<and> has_key api \<and>
     (\<forall>cr w. \<exists>im ims. fst (c_images api cr w) = Inr (im # ims)) \<and>
     (\<forall>cr im ty k w. \<exists>i is. fst (c_create api cr im ty k w) = Inr (i # is) \<and> plain_text i) \<and>
     (\<forall>cr i w. fst (c_wait_running api cr i w) = Inr ())"

lemma calls_attr: "x = Some v \<Longrightarrow> P v \<Longrightarrow> calls P (attr k x)"
  by (simp add: attr_def calls_ret)

lemma calls_hd: "xs \<noteq> [] \<Longrightarrow> P (hd xs) \<Longrightarrow> calls P (index_list 0 xs)"
  by (simp add: calls_ret)

lemma calls_any: "calls P m \<Longrightarrow> passes m"
  by (rule calls_weaken) simp_all

lemma allow_all_passes: "list_all readable ps \<Longrightarrow> passes (has_allow_all ps)"
proof (induction ps)
  case (Cons p ps)
  show ?case
  proof (cases "pm_protocol p = ''-1''")
    case False
    with Cons show ?thesis by simp
  next
    case True
    with Cons.prems obtain c d rs where "pm_ranges p = (c, Some d) # rs" by (auto simp: readable_def)
    with True Cons show ?thesis
      by (auto simp: index_list_def calls_ret intro!: calls_bindP [where Q = "\<lambda>x. x = (c, Some d)"] calls_bindP [where Q = "\<lambda>x. x = d"])
  qed
qed (simp add: calls_ret)

lemma group_runs:
  assumes "has_group api" and "aw_ec2 aw = Some cr"
  shows "calls (\<lambda>aw1. \<exists>g. aw1 = aw\<lparr>aw_group := g\<rparr>) (create_security_group api aw)"
proof -
  note a = assms(1) [unfolded has_group_def]
  have pick: "passes (foldP (pick_group api cr) gs g)" for gs g
  proof (induction gs arbitrary: g)
    case (Cons x gs)
    have "passes (pick_group api cr x g)"
      unfolding pick_group_def using a
      by (intro calls_if calls_ret TrueI calls_bindP [where Q = "\<lambda>_. True"] calls_ext_op) simp_all
    with Cons show ?case by (auto intro: calls_bindP)
  qed (simp add: calls_ret)
  have group: "calls (\<lambda>ds. \<exists>d ds'. ds = d # ds' \<and> list_all readable (sg_permissions d)) (ext_op (c_group api cr i))" for i
    using a by (intro calls_ext_op) (metis (no_types, lifting))
  have made: "passes (case found of Some g \<Rightarrow> ret g | None \<Rightarrow> ext_op (c_create_group api cr))" for found
    using a by (cases found) (simp_all add: calls_ret, intro calls_ext_op, simp)
  have auth: "passes (if b then ret () else ext_op (c_authorize api cr i))" for b i
    using a by (intro calls_if calls_ret TrueI calls_ext_op) simp
  have last: "calls (\<lambda>aw1. \<exists>g. aw1 = aw\<lparr>aw_group := g\<rparr>) (bindP (index_list 0 ds) (\<lambda>d.
      bindP (has_allow_all (sg_permissions d)) (\<lambda>open.
      thenP (if open then ret () else ext_op (c_authorize api cr i)) (ret (aw\<lparr>aw_group := Some g\<rparr>)))))"
    if "\<exists>d ds'. ds = d # ds' \<and> list_all readable (sg_permissions d)" for ds i g
    using that by (auto simp: bindP_ret intro!: calls_bindP [OF allow_all_passes] calls_thenP [OF auth] calls_ret)
  have cr: "passes (ext_op (c_role_groups api cr))" using a by (intro calls_ext_op) simp
  show ?thesis
    unfolding create_security_group_def assms(2) attr_Some bindP_ret
    by (intro calls_bindP [OF cr] calls_bindP [OF pick] calls_bindP [OF made] calls_bindP [OF group] last)
qed


lemma more_types_files: "keeps (\<lambda>t. files t = f) (more_types n api cr page)"
proof (induction n arbitrary: page)
  case 0
  show ?case by (subst more_types.simps) (auto intro!: keeps_option_case keeps_ret keeps_raise)
next
  case (Suc n)
  then show ?case
    by (subst more_types.simps) (auto intro!: keeps_option_case keeps_ret keeps_if keeps_bindP keeps_ext_op)
qed

lemma type_runs:
  fixes api :: "'w cloud_api"
  assumes "has_type n api" and "aw_ec2 aw = Some cr"
  shows "calls (\<lambda>x. \<exists>ty. x = Some ty) (get_instance_type_free_tier n api aw)"
  unfolding calls_def
proof
  fix s :: "'w sys"
  obtain page ps w where a: "c_types api cr None (ext s) = (Inr page, w)" "serves api cr page ps w" "length ps \<le> n"
    "list_all (\<lambda>t. it_cores t \<noteq> None) (concat (map tp_types (page # ps)))"
    "find (\<lambda>t. it_cores t = Some 1) (concat (map tp_types (page # ps))) \<noteq> None"
    using assms(1) unfolding has_type_def by blast
  obtain s' where s': "more_types n api cr page (s\<lparr>ext := w\<rparr>) = (Inr (concat (map tp_types ps)), s')"
    using more_types_serves [of api cr page ps "s\<lparr>ext := w\<rparr>" n] a(2,3) by auto
  have "files s' = files s" using keepsD [OF more_types_files [of "files s"] _ s'] by simp
  with a s' assms(2)
  show "\<exists>x s'. get_instance_type_free_tier n api aw s = (Inr x, s') \<and> files s' = files s \<and> (\<exists>ty. x = Some ty)"
    by (auto simp: get_instance_type_free_tier_def ext_op_eq first_one_core_find)
qed

lemma key_runs:
  assumes "has_key api" and "aw_ec2 aw = Some cr"
  shows "calls (\<lambda>aw1. \<exists>k. aw1 = aw\<lparr>aw_key_pair := Some k\<rparr>) (set_keypair os api aw)"
proof -
  note a = assms(1) [unfolded has_key_def]
  have read: "passes (tryP (ext_op (c_read_key api p)) h)" for p h
    using a by (intro calls_tryP calls_ext_op) simp
  have digest: "passes (ext_op (c_key_digest api k))" "passes (ext_op (c_key_pairs api cr))"
    "passes (ext_op (c_import_key api cr m k))" for k m
    using a by (intro calls_ext_op; simp)+
  have "passes (now os)" by (auto simp: calls_def now_def split: prod.splits)
  then have imp: "passes (tryP (bindP (now os) (\<lambda>d. ext_op (c_import_key api cr (f d) k))) h)" for f k h
    using digest(3) by (intro calls_tryP calls_bindP)
  show ?thesis
    unfolding set_keypair_def assms(2) attr_Some bindP_ret
    by (intro calls_bindP [OF read] calls_bindP [OF digest(1)] calls_bindP [OF digest(2)])
      (auto split: option.split intro!: calls_bindP [OF imp] calls_ret)
qed

lemma connect_runs:
  assumes "accepts api"
  shows "calls (\<lambda>aw1. aw1 = aw\<lparr>aw_ec2 := Some (creds_of (aw_config aw))\<rparr>) (connect_ec2 api aw)"
proof -
  have "\<exists>x. fst (c_client api (creds_of (aw_config aw)) w) = Inr x" for w
  proof -
    obtain aw1 z where "login api aw \<lparr>files = Map.empty, ext = w\<rparr> = (Inr aw1, z)"
      using assms unfolding accepts_def by blast
    then show ?thesis
      by (auto simp: login_def connect_ec2_def bindP_eq_Inr thenP_eq_Inr tryP_eq_Inr ext_op_def split: prod.splits)
  qed
  then have "passes (ext_op (c_client api (creds_of (aw_config aw))))" by (intro calls_ext_op) simp
  then show ?thesis unfolding connect_ec2_def by (intro calls_thenP calls_tryP calls_ret) simp_all
qed


subsection \<open>Launching\<close>

text \<open>Up to the new instance no file is touched; then its identity is stored, twice.\<close>

definition store_new :: "'w os_api \<Rightarrow> 'w cloud_api \<Rightarrow> creds \<Rightarrow> string \<Rightarrow> aws \<Rightarrow> ('w sys, aws) prog" where
  "store_new os api cr i aw =
     bindP (store_instance os i aw) (\<lambda>aw5.
     bindP (reload_aws_config aw5) (\<lambda>aw6.
     bindP (store_instance os i (aw6\<lparr>aw_config := (aw_config aw6)\<lparr>ac_instanceId := i\<rparr>\<rparr>)) (\<lambda>aw7.
     thenP (ext_op (c_instances api cr (Some i))) (ret aw7))))"

lemma launch_start:
  assumes "offers n api" and "aw_ec2 aw = Some cr0" and "aw_resource aw = Some rs"
  obtains aw' cr i s' where "launch_new n os api aw s = store_new os api cr i aw' s'" and "files s' = files s"
    and "plain_text i" and "aw_loader aw' = aw_loader aw" and "aw_name aw' = aw_name aw" and "aw_ec2 aw' = Some cr"
proof -
  note o = assms(1) [unfolded offers_def]
  obtain g s1 where 1: "create_security_group api aw s = (Inr (aw\<lparr>aw_group := g\<rparr>), s1)" "files s1 = files s"
    by (rule callsE [OF group_runs [OF _ assms(2)], of api s]) (use o in auto)
  let ?cr = "creds_of (aw_config aw)"
  obtain ty s2 where 2: "get_instance_type_free_tier n api (aw\<lparr>aw_group := g\<rparr>) s1 = (Inr (Some ty), s2)" "files s2 = files s1"
    by (rule callsE [OF type_runs [of n api "aw\<lparr>aw_group := g\<rparr>" cr0], of s1]) (use o assms(2) in auto)
  let ?aw2 = "aw\<lparr>aw_group := g, aw_ec2 := Some ?cr\<rparr>"
  obtain s3 where 3: "connect_ec2 api (aw\<lparr>aw_group := g\<rparr>) s2 = (Inr ?aw2, s3)" "files s3 = files s2"
    by (rule callsE [OF connect_runs [of api "aw\<lparr>aw_group := g\<rparr>"], of s2]) (use o in auto)
  obtain k s4 where 4: "set_keypair os api ?aw2 s3 = (Inr (?aw2\<lparr>aw_key_pair := Some k\<rparr>), s4)" "files s4 = files s3"
    by (rule callsE [OF key_runs [of api ?aw2 ?cr os], of s3]) (use o in auto)
  let ?aw3 = "?aw2\<lparr>aw_key_pair := Some k\<rparr>"
  have im: "calls (\<lambda>x. \<exists>im ims. x = im # ims) (ext_op (c_images api ?cr))"
    using o by (intro calls_ext_op) (metis (no_types, lifting))
  have "calls (\<lambda>x. \<exists>im ims. x = (im # ims, ?aw3)) (describe_images api ?aw3)"
    unfolding describe_images_def
    by (intro calls_bindP [OF connect_runs] calls_ret) (use o im in \<open>auto intro!: calls_bindP [OF im] calls_ret\<close>)
  then obtain im ims s5 where 5: "describe_images api ?aw3 s4 = (Inr (im # ims, ?aw3), s5)" "files s5 = files s4"
    by (rule callsE [of _ _ s4]) auto
  have "calls (\<lambda>is. \<exists>i is'. is = i # is' \<and> plain_text i) (ext_op (c_create api rs im (it_name ty) k))"
    using o by (intro calls_ext_op) (metis (no_types, lifting))
  then obtain i "is" s6 where 6: "ext_op (c_create api rs im (it_name ty) k) s5 = (Inr (i # is), s6)" "files s6 = files s5" "plain_text i"
    by (rule callsE [of _ _ s5]) auto
  have "passes (ext_op (c_wait_running api ?cr i))" using o by (intro calls_ext_op) simp
  then obtain s7 where 7: "ext_op (c_wait_running api ?cr i) s6 = (Inr (), s7)" "files s7 = files s6"
    by (rule callsE [of _ _ s6]) auto
  have "launch_new n os api aw s = store_new os api ?cr i ?aw3 s7"
    using 1(1) 2(1) 3(1) 4(1) 5(1) 6(1) 7(1) assms(3)
    by (simp add: launch_new_def store_new_def)
  then show ?thesis by (rule that) (use 1(2) 2(2) 3(2) 4(2) 5(2) 6(2,3) 7(2) in simp_all)
qed


lemma last_identity:
  "last_set [(''instanceId'', i)] j = (if j = ''instanceid'' then Some i else None)"
  "last_set [(''instanceId'', i), (''instanceId'', i)] j = (if j = ''instanceid'' then Some i else None)"
proof -
  have "py_lower ''instanceId'' = ''instanceid''" by code_simp
  then show "last_set [(''instanceId'', i)] j = (if j = ''instanceid'' then Some i else None)"
    and "last_set [(''instanceId'', i), (''instanceId'', i)] j = (if j = ''instanceid'' then Some i else None)" by simp_all
qed

lemma settable_identity: "plain_text i \<Longrightarrow> settable (''instanceId'', i)"
proof -
  have "wf_key (py_lower ''instanceId'')" "py_lower ''instanceId'' \<noteq> ''order''" by code_simp+
  then show "plain_text i \<Longrightarrow> settable (''instanceId'', i)" by (simp add: settable_def plain_text_def)
qed

lemma effective_identity: "effective c x ''instanceid'' \<noteq> None"
  by (simp add: effective_def aws_defaults_def split: option.splits)

text \<open>The new identity is stored twice, with the profile loaded again in between: the file has
  it then, and every other setting is as it was.\<close>

lemma store_new_runs:
  assumes "conf_ready c" and "wf_ini c" and "can_write os conf_path" and "i < length (profiles c)"
    and "aw_name aw = profiles c ! i" and "config (aw_loader aw) = renumber 1 (dict_keys (sections c)) c"
    and "same_settings c s" and "plain_text inst" and "describes api at" and "aw_ec2 aw = Some cr"
  obtains aw' s' t where "store_new os api cr' inst aw s = (Inr aw', s')" and "ac_instanceId (aw_config aw') = inst"
    and "ac_order (aw_config aw') = str_nat (Suc i)" and "aw_ec2 aw' = Some cr"
    and "read_conf empty_ini s' = (Inr t, s')" and "conf_ready t" and "wf_ini t"
    and "dict_keys (sections t) = dict_keys (sections c)"
    and "\<forall>x \<in> set (profiles c). \<forall>j. j \<noteq> ''order'' \<longrightarrow> effective t x j =
      (if x = profiles c ! i \<and> j = ''instanceid'' then Some inst else effective c x j)"
proof -
  let ?x = "profiles c ! i" and ?ns = "dict_keys (sections c)" and ?ld = "aw_loader aw"
  let ?kv = "(''instanceId'', inst)"
  let ?ld1 = "?ld\<lparr>config := put_all ?x [?kv] (config ?ld)\<rparr>" and ?ld2 = "?ld\<lparr>config := put_all ?x [?kv, ?kv] (config ?ld)\<rparr>"
  have x: "?x \<in> set (profiles c)" using assms(4) by simp
  have k: "list_all settable [?kv]" "list_all settable [?kv, ?kv]" using settable_identity [OF assms(8)] by simp_all
  from assms(7) obtain d where d: "read_conf empty_ini s = (Inr d, s)" "conf_ready d" "wf_ini d"
    "dict_keys (sections d) = ?ns" "\<forall>x k. k \<noteq> ''order'' \<longrightarrow> effective d x k = effective c x k"
    unfolding same_settings_def by blast
  obtain s1 t1 where 1: "foldP (\<lambda>(k, v) ld. set_value ?x k (Some v) ld) [?kv] ?ld s = (Inr ?ld1, s)"
    "write_changes os ?ld1 ?x s = (Inr (), s1)" "read_conf empty_ini s1 = (Inr t1, s1)" "conf_ready t1" "wf_ini t1"
    "dict_keys (sections t1) = ?ns" "\<forall>y \<in> set (profiles c). \<forall>j. j \<noteq> ''order'' \<longrightarrow> effective t1 y j =
      (case (if y = ?x then last_set [?kv] j else None) of Some v \<Rightarrow> Some v | None \<Rightarrow> effective c y j)"
    by (rule settings_written [OF assms(1-3) x k(1) assms(6) d])
  have kept: "\<forall>y \<in> set (profiles c). \<forall>j. j \<noteq> ''order'' \<longrightarrow>
      effective t1 y j = effective c y j \<or> y = ?x \<and> effective c y j \<noteq> None"
    using 1(7) effective_identity by (auto simp: last_identity)
  obtain s2 t2 where 2: "foldP (\<lambda>(k, v) ld. set_value ?x k (Some v) ld) [?kv, ?kv] ?ld s1 = (Inr ?ld2, s1)"
    "write_changes os ?ld2 ?x s1 = (Inr (), s2)" "read_conf empty_ini s2 = (Inr t2, s2)" "conf_ready t2" "wf_ini t2"
    "dict_keys (sections t2) = ?ns" "\<forall>y \<in> set (profiles c). \<forall>j. j \<noteq> ''order'' \<longrightarrow> effective t2 y j =
      (case (if y = ?x then last_set [?kv, ?kv] j else None) of Some v \<Rightarrow> Some v | None \<Rightarrow> effective c y j)"
    by (rule settings_rewritten [OF assms(1-3) x k(2) assms(6) 1(3-6) kept])
  let ?a = "profile_of (config ?ld1) ?x"
  have cfg: "config ?ld1 = put_all ?x [?kv] (renumber 1 ?ns c)" by (simp add: assms(6))
  note l = loaded_after_put [OF assms(1,2,4) refl cfg k(1)]
  have pct: "CHR ''%'' \<notin> set inst" using assms(8) by (simp add: plain_text_def)
  have pr: "proper_section (config ?ld) ?x" by (rule loaded_profile(1) [OF assms(1,4,6) refl])
  have set1: "set_value ?x ''instanceId'' (Some inst) ?ld s = (Inr ?ld1, s)"
    using set_value_eq [OF pr pct, of "''instanceId''" s] by simp
  have set2: "set_value ?x ''instanceId'' (Some inst) ?ld1 s1 = (Inr ?ld2, s1)"
    using set_value_eq [OF l(3) pct, of "''instanceId''" s1] by simp
  obtain y w where w: "c_instances api cr' (Some inst) (ext s2) = (Inr y, w)"
    using assms(9) unfolding describes_def by blast
  let ?aw = "aw\<lparr>aw_loader := ?ld2, aw_config := ?a\<lparr>ac_instanceId := inst\<rparr>\<rparr>"
  have run: "store_new os api cr' inst aw s = (Inr ?aw, s2\<lparr>ext := w\<rparr>)"
    using set1 set2 1(2) 2(2) l(1) w assms(5)
    by (simp add: store_new_def store_instance_def reload_aws_config_def load_aws_def run_ini_def ext_op_eq)
  have rd: "read_conf empty_ini (s2\<lparr>ext := w\<rparr>) = (Inr t2, s2\<lparr>ext := w\<rparr>)"
    by (rule read_conf_files [OF 2(3)]) simp
  show ?thesis
    by (rule that [OF run _ _ _ rd 2(4-6)]) (use l(2) assms(10) 2(7) in \<open>simp_all add: last_identity\<close>)
qed


text \<open>Launching for a profile just entered: the file then has the identity of the new instance.\<close>

lemma launch_runs:
  assumes "conf_ready c" and "wf_ini c" and "can_write os conf_path" and "i < length (profiles c)"
    and "aw_name aw = profiles c ! i" and "config (aw_loader aw) = renumber 1 (dict_keys (sections c)) c"
    and "same_settings c s" and "aw_ec2 aw = Some cr" and "aw_resource aw = Some rs"
    and "offers n api" and "yields_instances api" and "describes api at"
  obtains aw' cr' inst s' t where "launch_instance n os api aw s = (Inr aw', s')" and "ac_instanceId (aw_config aw') = inst"
    and "ac_order (aw_config aw') = str_nat (Suc i)" and "aw_ec2 aw' = Some cr'"
    and "read_conf empty_ini s' = (Inr t, s')" and "conf_ready t" and "wf_ini t"
    and "dict_keys (sections t) = dict_keys (sections c)"
    and "\<forall>x \<in> set (profiles c). \<forall>j. j \<noteq> ''order'' \<longrightarrow> effective t x j =
      (if x = profiles c ! i \<and> j = ''instanceid'' then Some inst else effective c x j)"
proof -
  obtain rss w where w: "c_instances api cr None (ext s) = (Inr (Some rss), w)" "list_all (\<lambda>r. r \<noteq> []) rss"
    using assms(11) unfolding yields_instances_def by blast
  have new: "launch_instance n os api aw s = launch_new n os api aw (s\<lparr>ext := w\<rparr>)"
    using w assms(8) by (simp add: launch_instance_def ext_op_eq find_reusable_None)
  obtain cr1 inst aw1 s1 where 1: "launch_new n os api aw (s\<lparr>ext := w\<rparr>) = store_new os api cr1 inst aw1 s1"
    "files s1 = files (s\<lparr>ext := w\<rparr>)" "plain_text inst" "aw_loader aw1 = aw_loader aw" "aw_name aw1 = aw_name aw"
    "aw_ec2 aw1 = Some cr1"
    by (rule launch_start [OF assms(10,8,9)])
  have s1: "same_settings c s1" by (rule same_settings_files [OF assms(7)]) (simp add: 1(2))
  show ?thesis
    by (rule store_new_runs [OF assms(1-4) _ _ s1 1(3) assms(12) 1(6), of cr1])
      (use that new 1(1,4,5) assms(5,6) in simp_all)
qed


subsection \<open>Changing the region\<close>

lemma settable_region: "wf_val r \<Longrightarrow> CHR ''%'' \<notin> set r \<Longrightarrow> settable (''region'', r)"
proof -
  have "wf_key (py_lower ''region'')" "py_lower ''region'' \<noteq> ''order''" by code_simp+
  then show "wf_val r \<Longrightarrow> CHR ''%'' \<notin> set r \<Longrightarrow> settable (''region'', r)" by (simp add: settable_def)
qed

lemma last_region: "last_set [(''region'', r)] j = (if j = ''region'' then Some r else None)"
proof -
  have "py_lower ''region'' = ''region''" by code_simp
  then show ?thesis by simp
qed

text \<open>After the identity was cleared, the region is stored through the loader that the task was
  built with, which writes all it knows of the profile.\<close>

lemma region_stored:
  assumes "conf_ready c" and "wf_ini c" and "can_write os conf_path" and "i < length (profiles c)"
    and "config ld = renumber 1 (dict_keys (sections c)) c"
    and "read_conf empty_ini s = (Inr d, s)" and "conf_ready d" and "wf_ini d"
    and "dict_keys (sections d) = dict_keys (sections c)"
    and "\<forall>x \<in> set (profiles c). \<forall>j. j \<noteq> ''order'' \<longrightarrow>
      effective d x j = (if x = profiles c ! i \<and> j = ''instanceid'' then Some [] else effective c x j)"
    and "wf_val r" and "CHR ''%'' \<notin> set r"
  obtains ld' s' t where "loader_change_region os (profiles c ! i) r ld s = (Inr ld', s')"
    and "read_conf empty_ini s' = (Inr t, s')" and "conf_ready t" and "wf_ini t"
    and "dict_keys (sections t) = dict_keys (sections c)"
    and "\<forall>x \<in> set (profiles c). \<forall>j. j \<noteq> ''order'' \<longrightarrow>
      effective t x j = (if x = profiles c ! i \<and> j = ''region'' then Some r else effective c x j)"
proof -
  let ?x = "profiles c ! i" and ?kv = "(''region'', r)"
  let ?ld = "ld\<lparr>config := put_all ?x [?kv] (config ld)\<rparr>"
  have x: "?x \<in> set (profiles c)" using assms(4) by simp
  have k: "list_all settable [?kv]" using settable_region [OF assms(11,12)] by simp
  have kept: "\<forall>y \<in> set (profiles c). \<forall>j. j \<noteq> ''order'' \<longrightarrow>
      effective d y j = effective c y j \<or> y = ?x \<and> effective c y j \<noteq> None"
    using assms(10) effective_identity by auto
  obtain s' t where 1: "foldP (\<lambda>(k, v) ld. set_value ?x k (Some v) ld) [?kv] ld s = (Inr ?ld, s)"
    "write_changes os ?ld ?x s = (Inr (), s')" "read_conf empty_ini s' = (Inr t, s')" "conf_ready t" "wf_ini t"
    "dict_keys (sections t) = dict_keys (sections c)" "\<forall>y \<in> set (profiles c). \<forall>j. j \<noteq> ''order'' \<longrightarrow> effective t y j =
      (case (if y = ?x then last_set [?kv] j else None) of Some v \<Rightarrow> Some v | None \<Rightarrow> effective c y j)"
    by (rule settings_rewritten [OF assms(1-3) x k assms(5-9) kept])
  note l = loaded_profile [OF assms(1,4,5) refl]
  have "set_value ?x ''region'' (Some r) ld s = (Inr ?ld, s)"
    using set_value_eq [OF l(1) assms(12), of "''region''" s] by simp
  moreover have "complete ld ?x (profile_of (config ld) ?x)" unfolding complete_def by (rule l(2))
  ultimately have "loader_change_region os ?x r ld s = (Inr ?ld, s')"
    using 1(2) by (simp add: loader_change_region_def load_aws_complete)
  then show ?thesis by (rule that [OF _ 1(3-6)]) (use 1(7) in \<open>simp add: last_region\<close>)
qed


text \<open>From the loader of the task to the new instance: all that happens to the file.\<close>

lemma region_moved:
  assumes "conf_ready c" and "wf_ini c" and "can_write os conf_path" and "i < length (profiles c)"
    and "config ld = renumber 1 (dict_keys (sections c)) c" and "same_settings c s" and "wf_val r" and "CHR ''%'' \<notin> set r"
    and "offers n api" and "yields_instances api" and "describes api at"
  obtains aw z aw' s1 ld' s2 aw1 z1 aw2 cr inst s3 t
    where "bindP (mk_aws os (profiles c ! i)) (login api) s = (Inr aw, z)" and "terminate_instance os api aw z = (Inr aw', s1)"
    and "loader_change_region os (profiles c ! i) r ld s1 = (Inr ld', s2)"
    and "bindP (mk_aws os (profiles c ! i)) (login api) s2 = (Inr aw1, z1)"
    and "launch_instance n os api aw1 z1 = (Inr aw2, s3)" and "ac_instanceId (aw_config aw2) = inst"
    and "ac_order (aw_config aw2) = str_nat (Suc i)" and "aw_ec2 aw2 = Some cr"
    and "read_conf empty_ini s3 = (Inr t, s3)" and "same_settings t s3"
    and "\<forall>x \<in> set (profiles c). \<forall>j. j \<noteq> ''order'' \<longrightarrow> effective t x j =
      (if x = profiles c ! i \<and> j = ''region'' then Some r
       else if x = profiles c ! i \<and> j = ''instanceid'' then Some inst else effective c x j)"
proof -
  let ?x = "profiles c ! i"
  have ac: "accepts api" using assms(9) by (simp add: offers_def)
  obtain aw z aw' s1 t1 where 1: "bindP (mk_aws os ?x) (login api) s = (Inr aw, z)"
    "terminate_instance os api aw z = (Inr aw', s1)" "read_conf empty_ini s1 = (Inr t1, s1)" "conf_ready t1" "wf_ini t1"
    "dict_keys (sections t1) = dict_keys (sections c)" "\<forall>x \<in> set (profiles c). \<forall>j. j \<noteq> ''order'' \<longrightarrow>
      effective t1 x j = (if x = ?x \<and> j = ''instanceid'' then Some [] else effective c x j)"
    by (rule account_cleared [OF assms(6,3,4) ac assms(10)])
  obtain ld' s2 t2 where 2: "loader_change_region os ?x r ld s1 = (Inr ld', s2)" "read_conf empty_ini s2 = (Inr t2, s2)"
    "conf_ready t2" "wf_ini t2" "dict_keys (sections t2) = dict_keys (sections c)" "\<forall>x \<in> set (profiles c). \<forall>j. j \<noteq> ''order'' \<longrightarrow>
      effective t2 x j = (if x = ?x \<and> j = ''region'' then Some r else effective c x j)"
    by (rule region_stored [OF assms(1-5) 1(3-7) assms(7,8)])
  have p: "profiles t2 = profiles c" using 2(5) by (simp add: profiles_def)
  have it: "i < length (profiles t2)" using assms(4) by (simp add: p)
  obtain aw1 cr1 z1 where 3: "bindP (mk_aws os (profiles t2 ! i)) (login api) s2 = (Inr aw1, z1)" "aw_ec2 aw1 = Some cr1"
    "aw_resource aw1 = Some cr1" "aw_name aw1 = profiles t2 ! i" "config (aw_loader aw1) = renumber 1 (dict_keys (sections t2)) t2"
    "same_settings t2 z1"
    by (rule account [OF 2(2-4) assms(3) it ac])
  obtain aw2 cr inst s3 t3 where 4: "launch_instance n os api aw1 z1 = (Inr aw2, s3)"
    "ac_instanceId (aw_config aw2) = inst" "ac_order (aw_config aw2) = str_nat (Suc i)" "aw_ec2 aw2 = Some cr"
    "read_conf empty_ini s3 = (Inr t3, s3)" "conf_ready t3" "wf_ini t3" "dict_keys (sections t3) = dict_keys (sections t2)"
    "\<forall>x \<in> set (profiles t2). \<forall>j. j \<noteq> ''order'' \<longrightarrow> effective t3 x j =
      (if x = profiles t2 ! i \<and> j = ''instanceid'' then Some inst else effective t2 x j)"
    by (rule launch_runs [OF 2(3,4) assms(3) it 3(4-6,2,3) assms(9-11)])
  have "same_settings t3 s3" using 4(5-7) by (simp add: same_settings_def)
  then show ?thesis
    by (rule that [OF 1(1,2) 2(1) 3(1) [unfolded p] 4(1-5)]) (use 2(6) 4(9) nth_mem [OF assms(4)] in \<open>simp add: p\<close>)
qed



subsection \<open>The hypotheses can hold\<close>

definition moving_args :: task_args where
  "moving_args = demo_args\<lparr>ta_config_name := ''acc1'', ta_new_region := Some ''eu-west-1''\<rparr>"

lemma rotating_offers: "offers 3 rotating_cloud"
proof -
  have "has_group rotating_cloud" "has_key rotating_cloud"
    by (simp_all add: has_group_def has_key_def rotating_cloud_def demo_cloud_def)
  moreover have "has_type 3 rotating_cloud"
    unfolding has_type_def
    by (intro allI exI [of _ "demo_page None"] exI [of _ "[demo_page (Some ''t'')]"] exI)
      (simp add: rotating_cloud_def demo_cloud_def demo_page_def)
  moreover have "plain_text ''i-2''" by code_simp
  ultimately show ?thesis
    using rotating_accepts by (simp add: offers_def) (simp add: rotating_cloud_def demo_cloud_def)
qed

lemma rotating_yields: "yields_instances rotating_cloud"
  by (simp add: yields_instances_def rotating_cloud_def demo_cloud_def split_beta)

lemma rotating_apart_ip: "apart rotating_env (rotating_ip j)"
  by (simp add: apart_def apart_os_def apart_login_def apart_ssh_def rotating_env_def rotating_cloud_def demo_cloud_def
      cloud_os_def)


end
