(* ===== verification/ProxyFile.thy ===== *)
theory ProxyFile
  imports IniText World
begin

section \<open>The editor of proxy and service files\<close>

text \<open>
  The classes \<open>ProxyConfig\<close> and \<open>ServiceConfig\<close> of \<open>garbage/config.py\<close>: a 3proxy
  file as the list of its lines, edited by the words the lines start with, and a unit
  file in the configuration parser. The list of proxy users, one line of the file, is
  refined to a list of entries; an edit of a file is followed from reading to reading.
\<close>

subsection \<open>Lines and words of a text\<close>

text \<open>\<open>file.readlines()\<close>: every line with its line break, which the last may not have.\<close>

definition file_lines :: "string \<Rightarrow> string list" where
  "file_lines t =
     (let ps = split_on LF (universal_newlines t)
      in map (\<lambda>l. l @ [LF]) (butlast ps) @ (if last ps = [] then [] else [last ps]))"

text \<open>\<open>s.split()\<close>: the pieces between white space that are not empty.\<close>

fun pieces :: "string \<Rightarrow> string list" where
  "pieces [] = [[]]"
| "pieces (x # xs) =
     (if py_space x then [] # pieces xs
      else case pieces xs of [] \<Rightarrow> [[x]] | y # ys \<Rightarrow> (x # y) # ys)"

definition words :: "string \<Rightarrow> string list" where
  "words s = filter (\<lambda>w. w \<noteq> []) (pieces s)"

subsection \<open>The class \<open>ProxyConfig\<close>\<close>

record proxy_config =
  pc_path :: string
  pc_lines :: "string list"

definition read_config :: "string \<Rightarrow> ('w sys, string list) prog" where
  "read_config p = (\<lambda>s. case files s p of
     None \<Rightarrow> (Inl (OSError p), s)
   | Some t \<Rightarrow> (Inr (file_lines t), s))"

definition mk_proxy_config :: "string \<Rightarrow> ('w sys, proxy_config) prog" where
  "mk_proxy_config p = bindP (read_config p) (\<lambda>ls. ret \<lparr>pc_path = p, pc_lines = ls\<rparr>)"

definition write_config :: "'w os_api \<Rightarrow> proxy_config \<Rightarrow> ('w sys, unit) prog" where
  "write_config os c = write_file os (pc_path c) (concat (pc_lines c))"

text \<open>\<open>line.split(' ', 1)[1].strip()\<close>.\<close>

definition line_value :: "string \<Rightarrow> exn + string" where
  "line_value l =
     (case dropWhile (\<lambda>c. c \<noteq> CHR '' '') l of
        [] \<Rightarrow> Inl IndexError
      | _ # r \<Rightarrow> Inr (py_strip r))"

definition pc_get_value :: "string \<Rightarrow> proxy_config \<Rightarrow> exn + string option" where
  "pc_get_value key c =
     (case find (\<lambda>l. startswith l key) (pc_lines c) of
        None \<Rightarrow> Inr None
      | Some l \<Rightarrow> (case line_value l of Inl e \<Rightarrow> Inl e | Inr v \<Rightarrow> Inr (Some v)))"

text \<open>The first line that starts with the key is replaced; without one, the new line goes to the end.\<close>

fun set_line :: "string \<Rightarrow> string \<Rightarrow> string list \<Rightarrow> string list" where
  "set_line key new [] = [new]"
| "set_line key new (l # ls) = (if startswith l key then new # ls else l # set_line key new ls)"

definition pc_set_value :: "string \<Rightarrow> string \<Rightarrow> proxy_config \<Rightarrow> proxy_config" where
  "pc_set_value key v c = c\<lparr>pc_lines := set_line key (key @ '' '' @ v @ [LF]) (pc_lines c)\<rparr>"

definition pc_remove_value :: "string \<Rightarrow> proxy_config \<Rightarrow> proxy_config" where
  "pc_remove_value key c = c\<lparr>pc_lines := filter (\<lambda>l. \<not> startswith l key) (pc_lines c)\<rparr>"

definition user_entry :: "string \<Rightarrow> string \<Rightarrow> string" where
  "user_entry u p = u @ '':CL:'' @ p"

definition add_user :: "string \<Rightarrow> string \<Rightarrow> proxy_config \<Rightarrow> exn + proxy_config" where
  "add_user u p c =
     (case pc_get_value ''users'' c of
        Inl e \<Rightarrow> Inl e
      | Inr None \<Rightarrow> Inr (pc_set_value ''users'' (user_entry u p) c)
      | Inr (Some v) \<Rightarrow>
          if v \<noteq> [] then Inr (pc_set_value ''users'' (v @ '' '' @ user_entry u p) c)
          else Inr (pc_set_value ''users'' (user_entry u p) c))"

definition remove_user :: "string \<Rightarrow> proxy_config \<Rightarrow> exn + proxy_config" where
  "remove_user u c =
     (case pc_get_value ''users'' c of
        Inl e \<Rightarrow> Inl e
      | Inr None \<Rightarrow> Inr c
      | Inr (Some v) \<Rightarrow>
          if v \<noteq> []
          then Inr (pc_set_value ''users'' (join '' '' (filter (\<lambda>w. \<not> startswith w u) (words v))) c)
          else Inr c)"

definition remove_all_users :: "proxy_config \<Rightarrow> proxy_config" where
  "remove_all_users c = pc_remove_value ''users'' c"

text \<open>
  The pattern \<open>\d+ socks5\+ (\d+\.\d+\.\d+\.\d+) (\d+)\<close> at the start of a text. What
  follows a run of digits in it is no digit, so the longest run is the only one to try.
\<close>

definition eat :: "string \<Rightarrow> string \<Rightarrow> string option" where
  "eat p s = (if startswith s p then Some (drop (length p) s) else None)"

definition eat_digits :: "string \<Rightarrow> (string \<times> string) option" where
  "eat_digits s =
     (if takeWhile is_digit s = [] then None
      else Some (takeWhile is_digit s, dropWhile is_digit s))"

fun eat_dotted :: "nat \<Rightarrow> string \<Rightarrow> (string \<times> string) option" where
  "eat_dotted 0 s = eat_digits s"
| "eat_dotted (Suc n) s =
     (case eat_digits s of None \<Rightarrow> None
      | Some (d, r) \<Rightarrow>
          (case eat ''.'' r of None \<Rightarrow> None
           | Some r' \<Rightarrow> map_option (\<lambda>(a, r''). (d @ ''.'' @ a, r'')) (eat_dotted n r')))"

definition match_parent :: "string \<Rightarrow> (string \<times> string) option" where
  "match_parent s =
     Option.bind (eat_digits s) (\<lambda>(_, r1).
     Option.bind (eat '' socks5+ '' r1) (\<lambda>r2.
     Option.bind (eat_dotted 3 r2) (\<lambda>(a, r3).
     Option.bind (eat '' '' r3) (\<lambda>r4.
     Option.bind (eat_digits r4) (\<lambda>(p, _). Some (a, p))))))"

definition parse_parent_proxy :: "proxy_config \<Rightarrow> exn + string option \<times> string option" where
  "parse_parent_proxy c =
     (case pc_get_value ''parent'' c of
        Inl e \<Rightarrow> Inl e
      | Inr None \<Rightarrow> Inr (None, None)
      | Inr (Some v) \<Rightarrow>
          (case match_parent v of
             Some (a, p) \<Rightarrow> Inr (Some a, Some p)
           | None \<Rightarrow> Inr (None, None)))"

fun set_parent_lines :: "string \<Rightarrow> string \<Rightarrow> string list \<Rightarrow> exn + string list" where
  "set_parent_lines a p [] = Inr []"
| "set_parent_lines a p (l # ls) =
     (if startswith l ''parent'' then
        (let ws = words l
         in if length ws < 2 then Inl IndexError
            else Inr ((join '' '' (take (length ws - 2) ws @ [a, p]) @ [LF]) # ls))
      else case set_parent_lines a p ls of Inl e \<Rightarrow> Inl e | Inr ls' \<Rightarrow> Inr (l # ls'))"

definition set_parent_proxy :: "string \<Rightarrow> string \<Rightarrow> proxy_config \<Rightarrow> exn + proxy_config" where
  "set_parent_proxy a p c =
     (case set_parent_lines a p (pc_lines c) of
        Inl e \<Rightarrow> Inl e
      | Inr ls \<Rightarrow> Inr (c\<lparr>pc_lines := ls\<rparr>))"

subsection \<open>The class \<open>ServiceConfig\<close>\<close>

record service_config =
  sc_path :: string
  sc_config :: ini

definition mk_service_config :: "string \<Rightarrow> ('w sys, service_config) prog" where
  "mk_service_config p = (\<lambda>s. case files s p of
     None \<Rightarrow> (Inr \<lparr>sc_path = p, sc_config = empty_ini\<rparr>, s)
   | Some t \<Rightarrow> (case ini_read empty_ini t of
        Inl e \<Rightarrow> (Inl e, s)
      | Inr c \<Rightarrow> (Inr \<lparr>sc_path = p, sc_config = c\<rparr>, s)))"

definition sc_get_value :: "string \<Rightarrow> string \<Rightarrow> service_config \<Rightarrow> exn + string" where
  "sc_get_value sec key c = ini_get (sc_config c) sec key"

definition sc_set_value :: "string \<Rightarrow> string \<Rightarrow> string \<Rightarrow> service_config \<Rightarrow> exn + service_config" where
  "sc_set_value sec key v c =
     (case ini_set (sc_config c) sec key (Some v) of
        Inl e \<Rightarrow> Inl e
      | Inr d \<Rightarrow> Inr (c\<lparr>sc_config := d\<rparr>))"

definition sc_write_changes :: "'w os_api \<Rightarrow> service_config \<Rightarrow> ('w sys, unit) prog" where
  "sc_write_changes os c = write_file os (sc_path c) (ini_write (sc_config c))"

end
