(* ===== verification/ProxyFileProps.thy ===== *)
theory ProxyFileProps
  imports ProxyFile Demo
begin

section \<open>What the edits of a proxy file mean\<close>

text \<open>
  A value that was set is read back, and keys that share no prefix do not disturb each
  other, in memory and through the file. The users are a list of entries that
  \<open>add_user\<close> extends and \<open>remove_user\<close> filters by a prefix.
\<close>

subsection \<open>Words\<close>

lemma pieces_nonempty [simp]: "pieces s \<noteq> []"
  by (cases s) (auto split: list.splits)

lemma pieces_split: "py_space c \<Longrightarrow> pieces (a @ c # b) = pieces a @ pieces b"
  by (induction a) (auto split: list.splits)

lemma words_split: "py_space c \<Longrightarrow> words (a @ c # b) = words a @ words b"
  by (simp add: words_def pieces_split)

lemma words_Nil [simp]: "words [] = []"
  by (simp add: words_def)

lemma words_Cons_space [simp]: "py_space c \<Longrightarrow> words (c # s) = words s"
  by (simp add: words_def)

lemma words_snoc_space [simp]: "py_space c \<Longrightarrow> words (s @ [c]) = words s"
  by (simp add: words_split)

text \<open>A text that is one word.\<close>

definition one_word :: "string \<Rightarrow> bool" where
  "one_word w \<longleftrightarrow> w \<noteq> [] \<and> list_all (\<lambda>c. \<not> py_space c) w"

lemma pieces_one: "list_all (\<lambda>c. \<not> py_space c) w \<Longrightarrow> pieces w = [w]"
  by (induction w) auto

lemma words_one: "one_word w \<Longrightarrow> words w = [w]"
  by (simp add: words_def one_word_def pieces_one)

lemma pieces_one_word: "w \<in> set (pieces s) \<Longrightarrow> list_all (\<lambda>c. \<not> py_space c) w"
proof (induction s arbitrary: w)
  case (Cons x xs)
  obtain y ys where "pieces xs = y # ys" by (cases "pieces xs") auto
  with Cons show ?case by (auto split: if_splits)
qed simp

lemma words_one_word: "w \<in> set (words s) \<Longrightarrow> one_word w"
  by (auto simp: words_def one_word_def dest: pieces_one_word)

lemma words_lstrip [simp]: "words (py_lstrip s) = words s"
proof (induction s)
  case (Cons c s)
  then show ?case by (cases "py_space c") simp_all
qed (simp add: py_lstrip_def)

lemma words_rstrip [simp]: "words (py_rstrip s) = words s"
proof (induction s rule: rev_induct)
  case (snoc c s)
  then show ?case by (cases "py_space c") (simp_all add: py_rstrip_last)
qed simp

lemma words_strip [simp]: "words (py_strip s) = words s"
  by (simp add: py_strip_def)

lemma words_join: "\<forall>w \<in> set ws. one_word w \<Longrightarrow> words (join '' '' ws) = ws"
proof (induction ws)
  case (Cons w ws)
  then show ?case
    by (cases ws) (simp_all add: words_one words_split)
qed simp

lemma one_word_stripped: "one_word w \<Longrightarrow> stripped w"
  by (cases w) (auto simp: one_word_def stripped_def list_all_iff dest: bspec [OF _ last_in_set])

lemma one_word_no_space: "one_word w \<Longrightarrow> CHR '' '' \<notin> set w"
  by (auto simp: one_word_def list_all_iff)

lemma last_join: "ws \<noteq> [] \<Longrightarrow> \<forall>w \<in> set ws. w \<noteq> [] \<Longrightarrow> last (join sep ws) = last (last ws)"
proof (induction ws)
  case (Cons w ws)
  then show ?case
    by (cases ws) (auto simp: join_Cons)
qed simp

lemma hd_join: "ws \<noteq> [] \<Longrightarrow> hd ws \<noteq> [] \<Longrightarrow> hd (join sep ws) = hd (hd ws)"
  by (cases ws rule: list.exhaust; cases "tl ws") auto

lemma stripped_join_words:
  assumes "\<forall>w \<in> set ws. one_word w"
  shows "stripped (join '' '' ws)"
proof (cases "ws = []")
  case False
  have ne: "\<forall>w \<in> set ws. w \<noteq> []" using assms by (auto simp: one_word_def)
  have "one_word (hd ws)" "one_word (last ws)" using False assms by auto
  then have "\<not> py_space (hd (hd ws))" "\<not> py_space (last (last ws))"
    by (auto simp: one_word_def list_all_iff)
  moreover have "hd ws \<noteq> []" using False ne by auto
  ultimately show ?thesis
    using False ne by (simp add: stripped_def hd_join last_join)
qed simp

subsection \<open>Prefixes\<close>

lemma startswith_append [simp]: "startswith (k @ s) k"
  by (simp add: startswith_def)

text \<open>Neither of the two is the beginning of the other.\<close>

definition unrelated :: "string \<Rightarrow> string \<Rightarrow> bool" where
  "unrelated a b \<longleftrightarrow> \<not> startswith a b \<and> \<not> startswith b a"

lemma startswith_both: "startswith l a \<Longrightarrow> startswith l b \<Longrightarrow> \<not> unrelated a b"
  unfolding unrelated_def startswith_def
  by (metis linorder_le_cases min.absorb1 min.absorb2 take_take)

lemma unrelated_line: "unrelated a b \<Longrightarrow> startswith l a \<Longrightarrow> \<not> startswith l b"
  using startswith_both by blast

subsection \<open>Get after set\<close>

lemma find_set_line:
  "startswith new key \<Longrightarrow> find (\<lambda>l. startswith l key) (set_line key new ls) = Some new"
  by (induction ls) auto

lemma find_set_line_other:
  "startswith new key \<Longrightarrow> unrelated key k \<Longrightarrow>
     find (\<lambda>l. startswith l k) (set_line key new ls) = find (\<lambda>l. startswith l k) ls"
  by (induction ls) (auto dest: unrelated_line)

lemma line_value_key:
  assumes "CHR '' '' \<notin> set key"
  shows "line_value (key @ '' '' @ v @ [LF]) = Inr (py_strip v)"
proof -
  have "dropWhile (\<lambda>c. c \<noteq> CHR '' '') (key @ '' '' @ v @ [LF]) = '' '' @ v @ [LF]"
    using assms by (subst dropWhile_append2) auto
  moreover have "py_strip (v @ [LF]) = py_strip v"
  proof (cases "py_lstrip v = []")
    case True
    then have "\<forall>c \<in> set v. py_space c" by (simp add: py_lstrip_def dropWhile_eq_Nil_conv)
    then have "py_lstrip (v @ [LF]) = []"
      by (simp add: py_lstrip_def dropWhile_eq_Nil_conv)
    with True show ?thesis by (simp add: py_strip_def)
  next
    case False
    then have "py_lstrip (v @ [LF]) = py_lstrip v @ [LF]"
      by (auto simp: py_lstrip_def dropWhile_eq_Nil_conv dropWhile_append1)
    then show ?thesis by (simp add: py_strip_def)
  qed
  ultimately show ?thesis by (simp add: line_value_def)
qed

lemma get_set_same:
  "CHR '' '' \<notin> set key \<Longrightarrow> pc_get_value key (pc_set_value key v c) = Inr (Some (py_strip v))"
  using find_set_line [of "key @ '' '' @ v @ [LF]" key]
  by (simp add: pc_get_value_def pc_set_value_def line_value_key [unfolded append.simps])

lemma get_set_other:
  "unrelated key k \<Longrightarrow> pc_get_value k (pc_set_value key v c) = pc_get_value k c"
  by (simp add: pc_get_value_def pc_set_value_def find_set_line_other)

lemma get_none: "\<forall>l \<in> set (pc_lines c). \<not> startswith l key \<Longrightarrow> pc_get_value key c = Inr None"
  using find_None_iff2 [of "\<lambda>l. startswith l key" "pc_lines c"] by (auto simp: pc_get_value_def)

lemma get_remove_same: "pc_get_value key (pc_remove_value key c) = Inr None"
proof -
  have "find (\<lambda>l. startswith l key) (filter (\<lambda>l. \<not> startswith l key) ls) = None" for ls
    by (simp add: find_None_iff)
  then show ?thesis by (simp add: pc_get_value_def pc_remove_value_def)
qed

lemma get_remove_other:
  assumes "unrelated key k"
  shows "pc_get_value k (pc_remove_value key c) = pc_get_value k c"
proof -
  have "find (\<lambda>l. startswith l k) (filter (\<lambda>l. \<not> startswith l key) ls) = find (\<lambda>l. startswith l k) ls" for ls
    using assms by (induction ls) (auto dest: unrelated_line)
  then show ?thesis by (simp add: pc_get_value_def pc_remove_value_def)
qed

subsection \<open>The contract of a store of lines\<close>

text \<open>
  What the operations on users and on the parent proxy need of the file: an assigned key
  reads as its value, and keys apart from it read as before. From this follows what a
  series of assignments does.
\<close>

locale line_store =
  fixes get :: "string \<Rightarrow> 'c \<Rightarrow> exn + string option"
    and assign :: "string \<Rightarrow> string \<Rightarrow> 'c \<Rightarrow> 'c"
    and proper :: "string \<Rightarrow> bool"
    and apart :: "string \<Rightarrow> string \<Rightarrow> bool"
  assumes get_assign: "proper k \<Longrightarrow> get k (assign k v c) = Inr (Some (py_strip v))"
    and get_apart: "apart k k' \<Longrightarrow> get k' (assign k v c) = get k' c"
    and apart_sym: "apart k k' \<Longrightarrow> apart k' k"
begin

lemma get_assigns_apart:
  "\<forall>kv \<in> set kvs. apart (fst kv) k \<Longrightarrow> get k (fold (\<lambda>kv. assign (fst kv) (snd kv)) kvs c) = get k c"
  by (induction kvs arbitrary: c) (simp_all add: get_apart)

lemma get_assigns:
  assumes "sorted_wrt (\<lambda>a b. apart (fst a) (fst b)) kvs" and "(k, v) \<in> set kvs" and "proper k"
  shows "get k (fold (\<lambda>kv. assign (fst kv) (snd kv)) kvs c) = Inr (Some (py_strip v))"
  using assms
proof (induction kvs arbitrary: c)
  case (Cons kv kvs)
  show ?case
  proof (cases "kv = (k, v)")
    case True
    with Cons.prems(1) have "\<forall>kv \<in> set kvs. apart (fst kv) k" by (auto intro: apart_sym)
    then show ?thesis using True Cons.prems(3) by (simp add: get_assigns_apart get_assign)
  next
    case False
    with Cons show ?thesis by auto
  qed
qed simp

end

lemma unrelated_sym: "unrelated a b \<Longrightarrow> unrelated b a"
  by (simp add: unrelated_def)

interpretation file_store: line_store pc_get_value pc_set_value "\<lambda>k. CHR '' '' \<notin> set k" unrelated
  by unfold_locales (simp_all add: get_set_same get_set_other unrelated_sym)

text \<open>A series of assignments to the file.\<close>

definition set_values :: "(string \<times> string) list \<Rightarrow> proxy_config \<Rightarrow> proxy_config" where
  "set_values kvs = fold (\<lambda>kv. pc_set_value (fst kv) (snd kv)) kvs"

lemma path_set_values: "pc_path (set_values kvs c) = pc_path c"
  by (induction kvs arbitrary: c) (simp_all add: set_values_def pc_set_value_def)

subsection \<open>The users as a list\<close>

text \<open>The entries of the users line: none without one, undefined where the code raises.\<close>

definition users_in :: "proxy_config \<Rightarrow> string list option" where
  "users_in c =
     (case pc_get_value ''users'' c of
        Inl e \<Rightarrow> None
      | Inr None \<Rightarrow> Some []
      | Inr (Some v) \<Rightarrow> Some (words v))"

text \<open>The operation \<open>f\<close> of the file does what \<open>g\<close> does to the list of its users.\<close>

definition on_users :: "(proxy_config \<Rightarrow> exn + proxy_config) \<Rightarrow> (string list \<Rightarrow> string list) \<Rightarrow> bool" where
  "on_users f g \<longleftrightarrow>
     (\<forall>c us. users_in c = Some us \<longrightarrow>
        (\<exists>c'. f c = Inr c' \<and> users_in c' = Some (g us) \<and>
          (\<forall>k. unrelated ''users'' k \<longrightarrow> pc_get_value k c' = pc_get_value k c)))"

lemma users_in_set: "users_in (pc_set_value ''users'' v c) = Some (words v)"
  by (simp add: users_in_def file_store.get_assign)

lemma users_in_cases:
  assumes "users_in c = Some us"
  obtains (none) "pc_get_value ''users'' c = Inr None" and "us = []"
  | (some) v where "pc_get_value ''users'' c = Inr (Some v)" and "us = words v"
  using assms by (auto simp: users_in_def split: sum.splits option.splits)

lemma one_word_entry: "one_word u \<Longrightarrow> one_word p \<Longrightarrow> one_word (user_entry u p)"
  by (simp add: one_word_def user_entry_def py_space_def)

lemma add_user_on_users:
  assumes "one_word u" and "one_word p"
  shows "on_users (add_user u p) (\<lambda>us. us @ [user_entry u p])"
  unfolding on_users_def
proof (intro allI impI)
  fix c us assume us: "users_in c = Some us"
  let ?e = "user_entry u p"
  have e: "words ?e = [?e]" by (rule words_one [OF one_word_entry [OF assms]])
  have two: "words (v @ CHR '' '' # ?e) = words v @ [?e]" for v
    by (simp add: words_split e)
  show "\<exists>c'. add_user u p c = Inr c' \<and> users_in c' = Some (us @ [?e]) \<and>
      (\<forall>k. unrelated ''users'' k \<longrightarrow> pc_get_value k c' = pc_get_value k c)"
    using us
  proof (cases rule: users_in_cases)
    case none
    then show ?thesis by (simp add: add_user_def users_in_set file_store.get_apart e)
  next
    case (some v)
    then show ?thesis by (simp add: add_user_def users_in_set file_store.get_apart e two)
  qed
qed

lemma remove_user_on_users: "on_users (remove_user u) (filter (\<lambda>w. \<not> startswith w u))"
  unfolding on_users_def
proof (intro allI impI)
  fix c us assume us: "users_in c = Some us"
  have w: "words (join '' '' (filter P (words v))) = filter P (words v)" for P v
    by (rule words_join) (auto dest: words_one_word)
  show "\<exists>c'. remove_user u c = Inr c' \<and> users_in c' = Some (filter (\<lambda>w. \<not> startswith w u) us) \<and>
      (\<forall>k. unrelated ''users'' k \<longrightarrow> pc_get_value k c' = pc_get_value k c)"
    using us
  proof (cases rule: users_in_cases)
    case none
    with us show ?thesis by (simp add: remove_user_def)
  next
    case (some v)
    with us show ?thesis by (cases "v = []") (simp_all add: remove_user_def users_in_set file_store.get_apart w)
  qed
qed

lemma remove_all_on_users: "on_users (\<lambda>c. Inr (remove_all_users c)) (\<lambda>us. [])"
  by (auto simp: on_users_def remove_all_users_def users_in_def get_remove_same get_remove_other)

lemma on_usersD:
  assumes "on_users f g" and "users_in c = Some us"
  obtains c' where "f c = Inr c'" and "users_in c' = Some (g us)"
  using assms unfolding on_users_def by blast

subsection \<open>The file between two readings\<close>

text \<open>A line as \<open>readlines\<close> gives it when it is not the unfinished last one.\<close>

definition whole_line :: "string \<Rightarrow> bool" where
  "whole_line l \<longleftrightarrow> (\<exists>x. l = x @ [LF] \<and> one_line x)"

lemma whole_lineI: "one_line x \<Longrightarrow> whole_line (x @ [LF])"
  by (auto simp: whole_line_def)

lemma whole_line_iff: "whole_line l \<longleftrightarrow> l \<noteq> [] \<and> last l = LF \<and> one_line (butlast l)"
  by (cases l rule: rev_cases) (auto simp: whole_line_def)

lemma whole_lines_unlines:
  assumes "\<forall>l \<in> set ls. whole_line l"
  obtains xs where "ls = map (\<lambda>x. x @ [LF]) xs" and "\<forall>x \<in> set xs. one_line x"
  using assms
proof (induction ls arbitrary: thesis)
  case (Cons l ls)
  from Cons.prems(2) obtain x where x: "l = x @ [LF]" "one_line x" by (auto simp: whole_line_def)
  from Cons.IH Cons.prems(2) obtain xs
    where xs: "ls = map (\<lambda>x. x @ [LF]) xs" "\<forall>x \<in> set xs. one_line x" by auto
  show ?case by (rule Cons.prems(1) [of "x # xs"]) (use x xs in auto)
qed simp

lemma file_lines_whole:
  assumes "\<forall>l \<in> set ls. whole_line l"
  shows "file_lines (concat ls) = ls"
proof -
  obtain xs where ls: "ls = map (\<lambda>x. x @ [LF]) xs" and xs: "\<forall>x \<in> set xs. one_line x"
    by (rule whole_lines_unlines [OF assms])
  have "CR \<notin> set (unlines xs)" "\<forall>x \<in> set xs. LF \<notin> set x"
    using xs by (auto simp: unlines_def one_line_def)
  then have "universal_newlines (unlines xs) = unlines xs" and "split_on LF (unlines xs) = xs @ [[]]"
    by (simp_all add: universal_newlines_id split_on_unlines)
  moreover have "concat ls = unlines xs" by (simp add: ls unlines_def)
  ultimately have "file_lines (concat ls) = map (\<lambda>x. x @ [LF]) xs"
    by (simp add: file_lines_def)
  then show ?thesis by (simp only: ls)
qed

lemma whole_set_line:
  "\<forall>l \<in> set ls. whole_line l \<Longrightarrow> whole_line new \<Longrightarrow> \<forall>l \<in> set (set_line key new ls). whole_line l"
  by (induction ls) auto

lemma whole_pc_set:
  assumes "\<forall>l \<in> set (pc_lines c). whole_line l" and "one_line key" and "one_line v"
  shows "\<forall>l \<in> set (pc_lines (pc_set_value key v c)). whole_line l"
proof -
  have "one_line (key @ '' '' @ v)" using assms(2,3) by (simp add: one_line_def)
  from whole_lineI [OF this] have "whole_line (key @ '' '' @ v @ [LF])" by simp
  from whole_set_line [OF assms(1) this] show ?thesis by (simp add: pc_set_value_def)
qed

lemma whole_set_values:
  assumes "\<forall>l \<in> set (pc_lines c). whole_line l" and "\<forall>(k, v) \<in> set kvs. one_line k \<and> one_line v"
  shows "\<forall>l \<in> set (pc_lines (set_values kvs c)). whole_line l"
  using assms
proof (induction kvs arbitrary: c)
  case (Cons kv kvs)
  obtain k v where kv: "kv = (k, v)" by (cases kv)
  with Cons.prems have "\<forall>l \<in> set (pc_lines (pc_set_value k v c)). whole_line l"
    by (intro whole_pc_set) auto
  with Cons kv show ?case by (simp add: set_values_def)
qed (simp add: set_values_def)

lemma one_word_line: "one_word k \<Longrightarrow> one_line k"
  by (auto simp: one_word_def one_line_def list_all_iff)

lemma file_lines_unfinished:
  assumes "\<forall>l \<in> set ls. whole_line l" and "l \<noteq> []" and "one_line l"
  shows "file_lines (concat ls @ l) = ls @ [l]"
proof -
  obtain xs where ls: "ls = map (\<lambda>x. x @ [LF]) xs" and xs: "\<forall>x \<in> set xs. one_line x"
    by (rule whole_lines_unlines [OF assms(1)])
  have c: "concat ls = unlines xs" by (simp add: ls unlines_def)
  have "CR \<notin> set (unlines xs @ l)"
    using xs assms by (auto simp: unlines_def one_line_def)
  then have "universal_newlines (unlines xs @ l) = unlines xs @ l"
    by (rule universal_newlines_id)
  moreover have "split_on LF (unlines xs @ l) = xs @ [l]"
    using xs assms(3) by (induction xs) (simp_all add: unlines_def split_on_append split_on_none one_line_def)
  ultimately have "file_lines (concat ls @ l) = map (\<lambda>x. x @ [LF]) xs @ [l]"
    using assms(2) by (simp add: file_lines_def c)
  then show ?thesis by (simp only: ls)
qed

text \<open>Open a proxy file, edit it, write it: the use that the main block shows.\<close>

definition edit_file :: "'w os_api \<Rightarrow> string \<Rightarrow> (proxy_config \<Rightarrow> exn + proxy_config) \<Rightarrow> ('w sys, unit) prog" where
  "edit_file os p f =
     bindP (mk_proxy_config p) (\<lambda>c. bindP (of_sum (f c)) (write_config os))"

lemma mk_proxy_config_ok:
  "files s p = Some t \<Longrightarrow> mk_proxy_config p s = (Inr \<lparr>pc_path = p, pc_lines = file_lines t\<rparr>, s)"
  by (simp add: mk_proxy_config_def read_config_def bindP_def)

lemma edit_file_ok:
  assumes "files s p = Some t" and "f \<lparr>pc_path = p, pc_lines = file_lines t\<rparr> = Inr c'"
    and "pc_path c' = p" and "\<forall>l \<in> set (pc_lines c'). whole_line l" and "can_write os p"
  obtains s' where "edit_file os p f s = (Inr (), s')" and "mk_proxy_config p s' = (Inr c', s')"
    and "\<forall>q. q \<noteq> p \<longrightarrow> files s' q = files s q"
proof -
  let ?s = "s\<lparr>ext := snd (os_open_w os p (ext s)), files := (files s)(p := Some (concat (pc_lines c')))\<rparr>"
  have "edit_file os p f s = (Inr (), ?s)"
    using assms by (simp add: edit_file_def mk_proxy_config_ok bindP_def write_config_def write_file_ok)
  moreover have "mk_proxy_config p ?s = (Inr c', ?s)"
    using assms(3,4) mk_proxy_config_ok [of ?s p "concat (pc_lines c')"]
    by (cases c') (simp add: file_lines_whole)
  ultimately show thesis by (rule that) simp
qed

subsection \<open>The parent proxy\<close>

definition digit_run :: "string \<Rightarrow> bool" where
  "digit_run d \<longleftrightarrow> d \<noteq> [] \<and> list_all is_digit d"

text \<open>Four groups of digits with dots between.\<close>

definition dotted_quad :: "string \<Rightarrow> bool" where
  "dotted_quad a \<longleftrightarrow> length (split_on CHR ''.'' a) = 4 \<and> list_all digit_run (split_on CHR ''.'' a)"

lemma eat_digits_run:
  assumes "digit_run d" and "r = [] \<or> \<not> is_digit (hd r)"
  shows "eat_digits (d @ r) = Some (d, r)"
proof -
  have d: "\<forall>c \<in> set d. is_digit c" "d \<noteq> []" using assms(1) by (auto simp: digit_run_def list_all_iff)
  have "takeWhile is_digit (d @ r) = d" "dropWhile is_digit (d @ r) = r"
    using d assms(2) by (cases r; simp)+
  with d show ?thesis by (simp add: eat_digits_def)
qed

lemma eat_append [simp]: "eat p (p @ r) = Some r"
  by (simp add: eat_def)

lemma dot_not_digit [simp]: "\<not> is_digit CHR ''.''" "\<not> is_digit CHR '' ''"
  by (simp_all add: is_digit_def)

lemma eat_dotted_all:
  assumes "list_all digit_run ds" and "length ds = Suc n" and "r = [] \<or> \<not> is_digit (hd r)"
  shows "eat_dotted n (join ''.'' ds @ r) = Some (join ''.'' ds, r)"
  using assms
proof (induction n arbitrary: ds)
  case 0
  then obtain d where "ds = [d]" by (auto simp: length_Suc_conv)
  with 0 show ?case by (simp add: eat_digits_run)
next
  case (Suc n)
  then obtain d es where ds: "ds = d # es" "length es = Suc n" by (auto simp: length_Suc_conv)
  then have es: "es \<noteq> []" by auto
  have "eat_digits (d @ ''.'' @ join ''.'' es @ r) = Some (d, ''.'' @ join ''.'' es @ r)"
    by (rule eat_digits_run) (use Suc.prems ds in auto)
  moreover have "eat ''.'' (''.'' @ join ''.'' es @ r) = Some (join ''.'' es @ r)"
    by (rule eat_append)
  ultimately show ?case
    using Suc ds es by (simp add: join_Cons)
qed

lemma match_parent_quad:
  assumes "digit_run w" and "dotted_quad a" and "digit_run p" and "r = [] \<or> \<not> is_digit (hd r)"
  shows "match_parent (w @ '' socks5+ '' @ a @ '' '' @ p @ r) = Some (a, p)"
proof -
  let ?r1 = "'' '' @ p @ r"
  have "eat_digits (w @ '' socks5+ '' @ a @ ?r1) = Some (w, '' socks5+ '' @ a @ ?r1)"
    by (rule eat_digits_run [OF assms(1)]) simp
  moreover have "eat '' socks5+ '' ('' socks5+ '' @ a @ ?r1) = Some (a @ ?r1)"
    by (rule eat_append)
  moreover have "eat_dotted 3 (a @ ?r1) = Some (a, ?r1)"
    using eat_dotted_all [of "split_on CHR ''.'' a" 3 ?r1] assms(2)
    by (simp add: dotted_quad_def join_split_on)
  moreover have "eat '' '' ?r1 = Some (p @ r)" by (rule eat_append)
  moreover have "eat_digits (p @ r) = Some (p, r)" by (rule eat_digits_run [OF assms(3,4)])
  ultimately show ?thesis by (simp only: match_parent_def Option.bind.simps case_prod_conv)
qed

text \<open>Replacing the last two words of the parent line is an assignment to its key.\<close>

lemma set_parent_is_set:
  assumes "find (\<lambda>l. startswith l ''parent'') (pc_lines c) = Some l"
    and "words l = ''parent'' # ws @ [x, y]"
  shows "set_parent_proxy a p c = Inr (pc_set_value ''parent'' (join '' '' (ws @ [a, p])) c)"
proof -
  have new: "join '' '' (''parent'' # ws @ [a, p]) @ [LF] =
      ''parent'' @ '' '' @ join '' '' (ws @ [a, p]) @ [LF]"
    by (subst join_Cons) simp_all
  have "find (\<lambda>l. startswith l ''parent'') ls = Some l \<Longrightarrow>
      set_parent_lines a p ls = Inr (set_line ''parent'' (join '' '' (''parent'' # ws @ [a, p]) @ [LF]) ls)" for ls
    by (induction ls) (auto simp: assms(2) Let_def split: if_splits)
  from this [OF assms(1)] show ?thesis
    unfolding new by (simp add: set_parent_proxy_def pc_set_value_def)
qed

lemma digit_run_word: "digit_run d \<Longrightarrow> one_word d"
  by (auto simp: digit_run_def one_word_def list_all_iff is_digit_not)

lemma dotted_quad_word: "dotted_quad a \<Longrightarrow> one_word a"
proof -
  assume a: "dotted_quad a"
  have "\<not> py_space c" if "c \<in> set a" for c
  proof -
    have "set a \<subseteq> {CHR ''.''} \<union> \<Union> (set ` set (split_on CHR ''.'' a))"
    proof (induction a)
      case (Cons x a)
      then show ?case by (cases "split_on CHR ''.'' a") auto
    qed simp
    with that consider "c = CHR ''.''" | d where "d \<in> set (split_on CHR ''.'' a)" "c \<in> set d" by auto
    then show ?thesis
    proof cases
      case 1
      then show ?thesis by (simp add: py_space_def)
    next
      case 2
      with a have "is_digit c" by (auto simp: dotted_quad_def list_all_iff digit_run_def)
      then show ?thesis by (simp add: is_digit_not)
    qed
  qed
  moreover have "a \<noteq> []" using a by (auto simp: dotted_quad_def)
  ultimately show ?thesis by (simp add: one_word_def list_all_iff)
qed

subsection \<open>Properties\<close>

text \<open>Edited values persist: after assignments to keys none of which begins another, the
  next reading of the file gives every assigned value, and every unrelated key as it was.\<close>

theorem values_persist:
  assumes "files s p = Some t" and "\<forall>l \<in> set (file_lines t). whole_line l" and "can_write os p"
    and "\<forall>(k, v) \<in> set kvs. one_word k \<and> one_line v \<and> stripped v"
    and "sorted_wrt (\<lambda>a b. unrelated (fst a) (fst b)) kvs"
  shows "\<exists>s' c'. edit_file os p (\<lambda>c. Inr (set_values kvs c)) s = (Inr (), s') \<and>
    mk_proxy_config p s' = (Inr c', s') \<and>
    (\<forall>(k, v) \<in> set kvs. pc_get_value k c' = Inr (Some v)) \<and>
    (\<forall>k. (\<forall>kv \<in> set kvs. unrelated (fst kv) k) \<longrightarrow>
      pc_get_value k c' = pc_get_value k \<lparr>pc_path = p, pc_lines = file_lines t\<rparr>) \<and>
    (\<forall>q. q \<noteq> p \<longrightarrow> files s' q = files s q)"
proof -
  let ?c = "\<lparr>pc_path = p, pc_lines = file_lines t\<rparr>"
  have whole: "\<forall>l \<in> set (pc_lines (set_values kvs ?c)). whole_line l"
    by (rule whole_set_values) (use assms in \<open>auto simp: one_word_line\<close>)
  have path: "pc_path (set_values kvs ?c) = p" by (simp add: path_set_values)
  obtain s' where s': "edit_file os p (\<lambda>c. Inr (set_values kvs c)) s = (Inr (), s')"
      "mk_proxy_config p s' = (Inr (set_values kvs ?c), s')" "\<forall>q. q \<noteq> p \<longrightarrow> files s' q = files s q"
    by (rule edit_file_ok [where f = "\<lambda>c. Inr (set_values kvs c)", OF assms(1) refl path whole assms(3)])
  have "pc_get_value k (set_values kvs ?c) = Inr (Some v)" if "(k, v) \<in> set kvs" for k v
    using file_store.get_assigns [OF assms(5) that, of ?c] assms(4) that
    by (auto simp: set_values_def one_word_no_space py_strip_stripped)
  moreover have "pc_get_value k (set_values kvs ?c) = pc_get_value k ?c"
    if "\<forall>kv \<in> set kvs. unrelated (fst kv) k" for k
    unfolding set_values_def by (rule file_store.get_assigns_apart [OF that])
  ultimately show ?thesis using s' by blast
qed

text \<open>An edit can be lost: when the last line of the file has no line break, as in the
  template that comes with the program, a new key is glued to that line and the next
  reading does not find it.\<close>

theorem unfinished_line_eats:
  assumes "files s p = Some (concat ls @ l)" and "\<forall>l \<in> set ls. whole_line l"
    and "l \<noteq> []" and "one_line l" and "\<forall>x \<in> set (ls @ [l]). \<not> startswith x key"
    and "length key \<le> length l" and "one_line key" and "one_line v" and "can_write os p"
  shows "\<exists>s' c'. edit_file os p (\<lambda>c. Inr (pc_set_value key v c)) s = (Inr (), s') \<and>
    mk_proxy_config p s' = (Inr c', s') \<and> pc_lines c' = ls @ [l @ key @ '' '' @ v @ [LF]] \<and>
    pc_get_value key c' = Inr None"
proof -
  let ?c = "\<lparr>pc_path = p, pc_lines = ls @ [l]\<rparr>" and ?new = "key @ '' '' @ v @ [LF]"
  let ?c' = "\<lparr>pc_path = p, pc_lines = ls @ [l @ ?new]\<rparr>"
  let ?s = "s\<lparr>ext := snd (os_open_w os p (ext s)), files := (files s)(p := Some (concat (pc_lines ?c')))\<rparr>"
  have "set_line key ?new (ls @ [l]) = ls @ [l, ?new]"
    using assms(5) by (induction ls) auto
  then have "edit_file os p (\<lambda>c. Inr (pc_set_value key v c)) s = (Inr (), ?s)"
    using assms by (simp add: edit_file_def mk_proxy_config_ok bindP_def write_config_def write_file_ok
        file_lines_unfinished pc_set_value_def)
  moreover have "mk_proxy_config p ?s = (Inr ?c', ?s)"
  proof -
    have "one_line (l @ key @ '' '' @ v)" using assms by (simp add: one_line_def)
    from whole_lineI [OF this] have "whole_line (l @ ?new)" by simp
    with assms(2) have "file_lines (concat (pc_lines ?c')) = pc_lines ?c'"
      by (intro file_lines_whole) simp
    then show ?thesis
      using mk_proxy_config_ok [of ?s p "concat (pc_lines ?c')"] by simp
  qed
  moreover have "\<forall>x \<in> set (pc_lines ?c'). \<not> startswith x key"
    using assms(5,6) by (auto simp: startswith_def)
  then have "pc_get_value key ?c' = Inr None" by (rule get_none)
  ultimately show ?thesis by fastforce
qed


text \<open>C38: The file of users is a list of users: adding one appends its entry, removing one
  filters the entries that start with the name (so \<open>user1\<close> takes \<open>user10\<close> with it),
  removing all empties it; none of them raises or touches an unrelated key.\<close>

theorem user_list:
  assumes "one_word u" and "one_word p"
  shows "on_users (add_user u p) (\<lambda>us. us @ [user_entry u p]) \<and>
    on_users (remove_user u) (filter (\<lambda>w. \<not> startswith w u)) \<and>
    on_users (\<lambda>c. Inr (remove_all_users c)) (\<lambda>us. [])"
  using add_user_on_users [OF assms] remove_user_on_users remove_all_on_users by blast

text \<open>The parent proxy that was set is the one that is parsed, when the parent line ends
  in its address and port.\<close>

theorem parent_roundtrip:
  assumes "find (\<lambda>l. startswith l ''parent'') (pc_lines c) = Some l"
    and "words l = [''parent'', w, ''socks5+'', x, y]"
    and "digit_run w" and "dotted_quad a" and "digit_run p"
  shows "\<exists>c'. set_parent_proxy a p c = Inr c' \<and> parse_parent_proxy c' = Inr (Some a, Some p) \<and>
    (\<forall>k. unrelated ''parent'' k \<longrightarrow> pc_get_value k c' = pc_get_value k c)"
proof -
  let ?v = "join '' '' [w, ''socks5+'', a, p]"
  have "stripped ?v"
    by (rule stripped_join_words) (use assms in \<open>simp add: digit_run_word dotted_quad_word, simp add: one_word_def py_space_def\<close>)
  then have "pc_get_value ''parent'' (pc_set_value ''parent'' ?v c) = Inr (Some ?v)"
    by (subst get_set_same) (simp_all only: py_strip_stripped, simp)
  moreover have "match_parent ?v = Some (a, p)"
    using match_parent_quad [OF assms(3-5), of "[]"] by simp
  ultimately have "parse_parent_proxy (pc_set_value ''parent'' ?v c) = Inr (Some a, Some p)"
    by (simp only: parse_parent_proxy_def sum.case option.case prod.case)
  moreover have "set_parent_proxy a p c = Inr (pc_set_value ''parent'' ?v c)"
    using set_parent_is_set [OF assms(1), of "[w, ''socks5+'']" x y a p] assms(2) by simp
  ultimately show ?thesis using file_store.get_apart by blast
qed

text \<open>With a login behind the port it is the login that is replaced: the address and
  the port stay as they were.\<close>

theorem parent_login_replaced:
  assumes "find (\<lambda>l. startswith l ''parent'') (pc_lines c) = Some l"
    and "words l = [''parent'', w, ''socks5+'', x, y, u, q]"
    and "digit_run w" and "dotted_quad x" and "digit_run y" and "one_word a" and "one_word p"
  shows "\<exists>c'. set_parent_proxy a p c = Inr c' \<and> parse_parent_proxy c' = Inr (Some x, Some y) \<and>
    pc_get_value ''parent'' c' = Inr (Some (join '' '' [w, ''socks5+'', x, y, a, p]))"
proof -
  let ?v = "join '' '' [w, ''socks5+'', x, y, a, p]"
  have "stripped ?v"
    by (rule stripped_join_words) (use assms in \<open>simp add: digit_run_word dotted_quad_word, simp add: one_word_def py_space_def\<close>)
  then have get: "pc_get_value ''parent'' (pc_set_value ''parent'' ?v c) = Inr (Some ?v)"
    by (subst get_set_same) (simp_all only: py_strip_stripped, simp)
  moreover have "match_parent ?v = Some (x, y)"
    using match_parent_quad [OF assms(3-5), of "'' '' @ a @ '' '' @ p"] by simp
  ultimately have "parse_parent_proxy (pc_set_value ''parent'' ?v c) = Inr (Some x, Some y)"
    by (simp only: parse_parent_proxy_def sum.case option.case prod.case)
  moreover have "set_parent_proxy a p c = Inr (pc_set_value ''parent'' ?v c)"
    using set_parent_is_set [OF assms(1), of "[w, ''socks5+'', x, y]" u q a p] assms(2) by simp
  ultimately show ?thesis using get by blast
qed

lemma wf_dict_lower: "wf_dict d \<Longrightarrow> \<forall>k \<in> set (dict_keys d). py_lower k = k"
  by (auto simp: wf_dict_def list_all_iff wf_key_def)

lemma service_write_read:
  assumes "wf_ini d" and "can_write os p"
  obtains s' where "sc_write_changes os \<lparr>sc_path = p, sc_config = d\<rparr> s = (Inr (), s')"
    and "mk_service_config p s' = (Inr \<lparr>sc_path = p, sc_config = d\<rparr>, s')"
proof (rule that)
  let ?s = "s\<lparr>ext := snd (os_open_w os p (ext s)), files := (files s)(p := Some (ini_write d))\<rparr>"
  show "sc_write_changes os \<lparr>sc_path = p, sc_config = d\<rparr> s = (Inr (), ?s)"
    using write_file_ok [OF assms(2)] by (simp add: sc_write_changes_def)
  show "mk_service_config p ?s = (Inr \<lparr>sc_path = p, sc_config = d\<rparr>, ?s)"
    using ini_read_write [OF assms(1)] by (simp add: mk_service_config_def)
qed

text \<open>A value set in a service file is there at the next reading, but every option is
  written under its lower-case name, whatever the case of its name in the file was.\<close>

theorem service_value_lowered:
  assumes "wf_ini (sc_config c)" and "has_section (sc_config c) sec" and "wf_key (py_lower key)"
    and "wf_val v" and "\<not> bad_percent v" and "can_write os (sc_path c)"
  shows "\<exists>c' s'. sc_set_value sec key v c = Inr c' \<and> sc_write_changes os c' s = (Inr (), s') \<and>
    mk_service_config (sc_path c) s' = (Inr c', s') \<and>
    dict_get (section_dict (sc_config c') sec) (py_lower key) = Some v \<and>
    (\<forall>k \<in> set (dict_keys (section_dict (sc_config c') sec)). py_lower k = k)"
proof -
  let ?d = "set_raw sec (py_lower key) v (sc_config c)"
  let ?c = "\<lparr>sc_path = sc_path c, sc_config = ?d\<rparr>"
  have sec: "\<not> is_default sec" using wf_ini_section [OF assms(1,2)] by (simp add: wf_name_def)
  have wf: "wf_ini ?d" by (rule wf_set_raw [OF assms(1-4)])
  have "c\<lparr>sc_config := ?d\<rparr> = ?c" by (cases c) simp
  with assms(2,5) sec have set: "sc_set_value sec key v c = Inr ?c"
    by (simp add: sc_set_value_def ini_set_def)
  obtain s' where io: "sc_write_changes os ?c s = (Inr (), s')"
      "mk_service_config (sc_path c) s' = (Inr ?c, s')"
    by (rule service_write_read [OF wf assms(6)])
  have get: "dict_get (section_dict ?d sec) (py_lower key) = Some v"
    using sec by (simp add: section_dict_set_raw dict_get_set)
  have "has_section ?d sec" using sec by (simp add: has_section_set_raw)
  then have "wf_dict (section_dict ?d sec)" by (rule wf_ini_section [OF wf, THEN conjunct1])
  from set io get wf_dict_lower [OF this] show ?thesis
    by (metis (no_types, lifting) service_config.select_convs(2))
qed

subsection \<open>Witnesses\<close>

definition template :: string where
  "template = unlines [''nserver 8.8.4.4'', ''nscache 65536'', ''allow *'']"

definition proxy_sys :: "string \<Rightarrow> unit sys" where
  "proxy_sys t = \<lparr>files = [''3proxy.cfg'' \<mapsto> t], ext = ()\<rparr>"

lemma template_lines:
  "file_lines template = map (\<lambda>x. x @ [LF]) [''nserver 8.8.4.4'', ''nscache 65536'', ''allow *'']"
  (is "_ = map _ ?xs")
proof -
  have "\<forall>l \<in> set (map (\<lambda>x. x @ [LF]) ?xs). whole_line l"
    by (simp add: whole_line_iff one_line_def)
  then have "file_lines (concat (map (\<lambda>x. x @ [LF]) ?xs)) = map (\<lambda>x. x @ [LF]) ?xs"
    by (rule file_lines_whole)
  then show ?thesis by (simp only: template_def unlines_def)
qed

lemma words_chars [simp]:
  "one_word ''nserver''" "one_word ''users''" "one_word ''user1''" "one_word ''secret''" "one_line ''8.8.8.8''" "stripped ''8.8.8.8''"
  by (simp_all add: one_word_def one_line_def stripped_def py_space_def)

theorem values_persist_witness:
  "\<exists>s' c'. edit_file demo_os ''3proxy.cfg'' (\<lambda>c. Inr (set_values [(''nserver'', ''8.8.8.8''), (''users'', ''8.8.8.8'')] c))
      (proxy_sys template) = (Inr (), s') \<and>
    mk_proxy_config ''3proxy.cfg'' s' = (Inr c', s') \<and> pc_get_value ''nserver'' c' = Inr (Some ''8.8.8.8'')"
proof -
  let ?kvs = "[(''nserver'', ''8.8.8.8''), (''users'', ''8.8.8.8'')]"
  have t: "files (proxy_sys template) ''3proxy.cfg'' = Some template" by (simp add: proxy_sys_def)
  have lines: "\<forall>l \<in> set (file_lines template). whole_line l"
    unfolding template_lines by (simp add: whole_line_iff one_line_def)
  have ok: "\<forall>(k, v) \<in> set ?kvs. one_word k \<and> one_line v \<and> stripped v" by simp
  have apart: "sorted_wrt (\<lambda>a b. unrelated (fst a) (fst b)) ?kvs"
    by (simp add: unrelated_def startswith_def)
  from values_persist [OF t lines can_write_demo ok apart] show ?thesis by auto
qed

theorem unfinished_line_eats_witness:
  "\<exists>s' c'. edit_file demo_os ''3proxy.cfg'' (\<lambda>c. Inr (pc_set_value ''users'' ''user1:CL:secret'' c))
      (proxy_sys (concat [''allow *'' @ [LF]] @ ''proxy -n -p2099'')) = (Inr (), s') \<and>
    mk_proxy_config ''3proxy.cfg'' s' = (Inr c', s') \<and>
    pc_lines c' = [''allow *'' @ [LF], ''proxy -n -p2099users user1:CL:secret'' @ [LF]] \<and>
    pc_get_value ''users'' c' = Inr None"
proof -
  have "files (proxy_sys (concat [''allow *'' @ [LF]] @ ''proxy -n -p2099'')) ''3proxy.cfg'' =
      Some (concat [''allow *'' @ [LF]] @ ''proxy -n -p2099'')"
    by (simp add: proxy_sys_def)
  moreover have "\<forall>l \<in> set [''allow *'' @ [LF]]. whole_line l"
    by (simp add: whole_line_iff one_line_def)
  ultimately show ?thesis
    using unfinished_line_eats [of "proxy_sys (concat [''allow *'' @ [LF]] @ ''proxy -n -p2099'')"
      "''3proxy.cfg''" "[''allow *'' @ [LF]]" "''proxy -n -p2099''" "''users''" "''user1:CL:secret''" demo_os]
    by (simp add: one_line_def startswith_def)
qed

theorem user_list_witness:
  "\<exists>c'. add_user ''user1'' ''secret'' \<lparr>pc_path = ''3proxy.cfg'', pc_lines = [''users user10:CL:x'' @ [LF]]\<rparr> = Inr c' \<and>
    users_in c' = Some [''user10:CL:x'', ''user1:CL:secret'']"
proof -
  have "users_in \<lparr>pc_path = ''3proxy.cfg'', pc_lines = [''users user10:CL:x'' @ [LF]]\<rparr> = Some [''user10:CL:x'']"
    by code_simp
  moreover have "on_users (add_user ''user1'' ''secret'') (\<lambda>us. us @ [user_entry ''user1'' ''secret''])"
    using user_list [of "''user1''" "''secret''"] by simp
  ultimately show ?thesis
    by (auto simp: user_entry_def elim!: on_usersD)
qed

theorem parent_roundtrip_witness:
  "\<exists>c'. set_parent_proxy ''192.168.1.1'' ''8080''
      \<lparr>pc_path = ''3proxy.cfg'', pc_lines = [''parent 1000 socks5+ 10.0.0.1 1080'' @ [LF]]\<rparr> = Inr c' \<and>
    parse_parent_proxy c' = Inr (Some ''192.168.1.1'', Some ''8080'')"
proof -
  have "find (\<lambda>l. startswith l ''parent'') [''parent 1000 socks5+ 10.0.0.1 1080'' @ [LF]] =
      Some (''parent 1000 socks5+ 10.0.0.1 1080'' @ [LF])"
    by (simp add: startswith_def)
  moreover have "words (''parent 1000 socks5+ 10.0.0.1 1080'' @ [LF]) =
      [''parent'', ''1000'', ''socks5+'', ''10.0.0.1'', ''1080'']"
    by code_simp
  moreover have "digit_run ''1000''" "dotted_quad ''192.168.1.1''" "digit_run ''8080''"
    by code_simp+
  ultimately show ?thesis
    using parent_roundtrip [of "\<lparr>pc_path = ''3proxy.cfg'', pc_lines = [''parent 1000 socks5+ 10.0.0.1 1080'' @ [LF]]\<rparr>"
      "''parent 1000 socks5+ 10.0.0.1 1080'' @ [LF]" "''1000''" "''10.0.0.1''" "''1080''" "''192.168.1.1''" "''8080''"]
    by auto
qed

theorem parent_login_replaced_witness:
  "\<exists>c'. set_parent_proxy ''192.168.1.1'' ''8080''
      \<lparr>pc_path = ''3proxy.cfg'', pc_lines = [''parent 1000 socks5+ 10.0.0.1 1080 joe pw'' @ [LF]]\<rparr> = Inr c' \<and>
    parse_parent_proxy c' = Inr (Some ''10.0.0.1'', Some ''1080'')"
proof -
  have "find (\<lambda>l. startswith l ''parent'') [''parent 1000 socks5+ 10.0.0.1 1080 joe pw'' @ [LF]] =
      Some (''parent 1000 socks5+ 10.0.0.1 1080 joe pw'' @ [LF])"
    by (simp add: startswith_def)
  moreover have "words (''parent 1000 socks5+ 10.0.0.1 1080 joe pw'' @ [LF]) =
      [''parent'', ''1000'', ''socks5+'', ''10.0.0.1'', ''1080'', ''joe'', ''pw'']"
    by code_simp
  moreover have "digit_run ''1000''" "dotted_quad ''10.0.0.1''" "digit_run ''1080''"
    "one_word ''192.168.1.1''" "one_word ''8080''"
    by code_simp+
  ultimately show ?thesis
    using parent_login_replaced [of "\<lparr>pc_path = ''3proxy.cfg'', pc_lines = [''parent 1000 socks5+ 10.0.0.1 1080 joe pw'' @ [LF]]\<rparr>"
      "''parent 1000 socks5+ 10.0.0.1 1080 joe pw'' @ [LF]" "''1000''" "''10.0.0.1''" "''1080''" "''joe''" "''pw''" "''192.168.1.1''" "''8080''"]
    by auto
qed

definition unit_config :: service_config where
  "unit_config = \<lparr>sc_path = ''x.service'', sc_config =
     \<lparr>defaults = [], sections = [(''Service'', [(''user'', ''root'')])]\<rparr>\<rparr>"

theorem service_value_lowered_witness:
  "\<exists>c' s'. sc_set_value ''Service'' ''ExecStart'' ''/bin/true'' unit_config = Inr c' \<and>
    sc_write_changes demo_os c' demo_sys = (Inr (), s') \<and>
    mk_service_config ''x.service'' s' = (Inr c', s') \<and>
    dict_get (section_dict (sc_config c') ''Service'') ''execstart'' = Some ''/bin/true''"
proof -
  have "wf_ini (sc_config unit_config)" "has_section (sc_config unit_config) ''Service''"
    "wf_key (py_lower ''ExecStart'')" "wf_val ''/bin/true''" "\<not> bad_percent ''/bin/true''"
    "py_lower ''ExecStart'' = ''execstart''" "sc_path unit_config = ''x.service''"
    by code_simp+
  with service_value_lowered [of unit_config "''Service''" "''ExecStart''" "''/bin/true''" demo_os demo_sys]
  show ?thesis by auto
qed

end
