(* ===== verification/Ping.thy ===== *)
theory Ping
  imports PyText "HOL-Library.Word"
begin

unbundle bit_operations_syntax

section \<open>The ICMP ping\<close>

text \<open>
  The file \<open>garbage/ping.py\<close>: the Internet checksum, the ICMP and IP headers, sending
  one echo request, waiting for its reply, \<open>ping\<close> with its four tries and
  \<open>verbose_ping\<close>. The modules \<open>errors\<close> and \<open>enums\<close> that it imports are not in the
  repository: the numbers of \<open>enums\<close> are the record \<open>icmp_codes\<close>, an exception of
  \<open>errors\<close> is \<open>External\<close> with its class name, and which of them are subclasses of
  \<open>PingError\<close> is a parameter. Sockets and clocks are functions of the record
  \<open>ping_api\<close>; a float is the bit pattern of a double and its arithmetic the record
  \<open>float_ops\<close>. Debug output is not modelled, but what is computed for it and may raise is.
\<close>

type_synonym octets = "8 word list"
type_synonym double = "64 word"

subsection \<open>The checksum\<close>

text \<open>\<open>source[::2]\<close> and \<open>source[1::2]\<close>.\<close>

fun evens :: "'a list \<Rightarrow> 'a list" where
  "evens [] = []"
| "evens [x] = [x]"
| "evens (x # y # zs) = x # evens zs"

fun odds :: "'a list \<Rightarrow> 'a list" where
  "odds [] = []"
| "odds [x] = []"
| "odds (x # y # zs) = y # odds zs"

definition byte_sum :: "octets \<Rightarrow> nat" where
  "byte_sum bs = sum_list (map unat bs)"

text \<open>\<open>while result >= carry: result = sum(divmod(result, carry))\<close>.\<close>

function fold_carry :: "nat \<Rightarrow> nat" where
  "fold_carry r = (if 65536 \<le> r then fold_carry (r div 65536 + r mod 65536) else r)"
  by pat_completeness auto

lemma fold_carry_less: "65536 \<le> r \<Longrightarrow> r div 65536 + r mod 65536 < (r :: nat)"
proof -
  assume "65536 \<le> r"
  then have "0 < r div 65536" by (simp add: div_greater_zero_iff)
  moreover have "r = 65536 * (r div 65536) + r mod 65536" by simp
  ultimately show ?thesis by linarith
qed

termination fold_carry
  by (relation "measure id") (simp_all add: fold_carry_less)

declare fold_carry.simps [simp del]

definition raw_sum :: "octets \<Rightarrow> nat" where
  "raw_sum bs = byte_sum (evens bs) + push_bit 8 (byte_sum (odds bs))"

text \<open>\<open>~result & 0xffff\<close>, on Python's unbounded integers.\<close>

definition checksum :: "octets \<Rightarrow> int" where
  "checksum bs = NOT (int (fold_carry (raw_sum bs))) AND 65535"

subsection \<open>Headers\<close>

text \<open>\<open>struct\<close> in network byte order: a value that does not fit raises.\<close>

definition pack_B :: "int \<Rightarrow> exn + octets" where
  "pack_B n = (if 0 \<le> n \<and> n \<le> 255 then Inr [word_of_int n] else Inl StructError)"

definition be16 :: "int \<Rightarrow> octets" where
  "be16 n = [word_of_int (n div 256), word_of_int (n mod 256)]"

definition pack_H :: "int \<Rightarrow> exn + octets" where
  "pack_H n = (if 0 \<le> n \<and> n \<le> 65535 then Inr (be16 n) else Inl StructError)"

fun pack_all :: "(exn + octets) list \<Rightarrow> exn + octets" where
  "pack_all [] = Inr []"
| "pack_all (Inl e # rs) = Inl e"
| "pack_all (Inr bs # rs) = (case pack_all rs of Inl e \<Rightarrow> Inl e | Inr cs \<Rightarrow> Inr (bs @ cs))"

definition be_int :: "octets \<Rightarrow> int" where
  "be_int bs = foldl (\<lambda>n b. 256 * n + uint b) 0 bs"

definition pack_d :: "double \<Rightarrow> octets" where
  "pack_d x = map (\<lambda>i. ucast (drop_bit (8 * i) x)) [7, 6, 5, 4, 3, 2, 1, 0]"

definition unpack_d :: "octets \<Rightarrow> exn + double" where
  "unpack_d bs = (if length bs = 8 then Inr (word_of_int (be_int bs)) else Inl StructError)"

record icmp_header =
  ih_type :: int
  ih_code :: int
  ih_checksum :: int
  ih_id :: int
  ih_seq :: int

definition pack_icmp :: "icmp_header \<Rightarrow> exn + octets" where
  "pack_icmp h = pack_all [pack_B (ih_type h), pack_B (ih_code h), pack_H (ih_checksum h),
     pack_H (ih_id h), pack_H (ih_seq h)]"

definition read_icmp_header :: "octets \<Rightarrow> exn + icmp_header" where
  "read_icmp_header raw =
     (if length raw = 8
      then Inr \<lparr>ih_type = be_int (take 1 raw), ih_code = be_int (take 1 (drop 1 raw)),
        ih_checksum = be_int (take 2 (drop 2 raw)), ih_id = be_int (take 2 (drop 4 raw)),
        ih_seq = be_int (take 2 (drop 6 raw))\<rparr>
      else Inl StructError)"

record ip_header =
  ip_version :: int
  ip_tos :: int
  ip_len :: int
  ip_id :: int
  ip_flags :: int
  ip_ttl :: int
  ip_protocol :: int
  ip_checksum :: int
  ip_src_addr :: string
  ip_dest_addr :: string

definition stringify_ip :: "int \<Rightarrow> string" where
  "stringify_ip ip = join ''.'' (map (\<lambda>offset. str_int (drop_bit offset ip AND 255)) [24, 16, 8, 0])"

definition read_ip_header :: "octets \<Rightarrow> exn + ip_header" where
  "read_ip_header raw =
     (if length raw = 20
      then Inr \<lparr>ip_version = be_int (take 1 raw), ip_tos = be_int (take 1 (drop 1 raw)),
        ip_len = be_int (take 2 (drop 2 raw)), ip_id = be_int (take 2 (drop 4 raw)),
        ip_flags = be_int (take 2 (drop 6 raw)), ip_ttl = be_int (take 1 (drop 8 raw)),
        ip_protocol = be_int (take 1 (drop 9 raw)), ip_checksum = be_int (take 2 (drop 10 raw)),
        ip_src_addr = stringify_ip (be_int (take 4 (drop 12 raw))),
        ip_dest_addr = stringify_ip (be_int (take 4 (drop 16 raw)))\<rparr>
      else Inl StructError)"

subsection \<open>Surroundings\<close>

record icmp_codes =
  ECHO_REPLY :: int
  ECHO_REQUEST :: int
  TIME_EXCEEDED :: int
  DESTINATION_UNREACHABLE :: int
  TTL_EXPIRED :: int
  DESTINATION_HOST_UNREACHABLE :: int
  ICMP_DEFAULT_CODE :: int

text \<open>Doubles: from an integer, sum, difference, product, the test of \<open>x > 0\<close>, \<open>int(x)\<close>
  and \<open>time.ctime(x)\<close>, which both raise for some.\<close>

record float_ops =
  fl_int :: "int \<Rightarrow> double"
  fl_add :: "double \<Rightarrow> double \<Rightarrow> double"
  fl_sub :: "double \<Rightarrow> double \<Rightarrow> double"
  fl_mul :: "double \<Rightarrow> double \<Rightarrow> double"
  fl_pos :: "double \<Rightarrow> bool"
  fl_trunc :: "double \<Rightarrow> exn + int"
  fl_ctime :: "double \<Rightarrow> exn + string"

text \<open>The machine: its kind, its byte order, the process and the thread.\<close>

record ping_host =
  h_posix :: bool
  h_darwin :: bool
  h_little :: bool
  h_pid :: nat
  h_tid :: nat

datatype raw_result = Opened | NoPermission bool | NotOpened exn

record 'w ping_api =
  pg_raw :: "'w \<Rightarrow> raw_result \<times> 'w"
  pg_dgram :: "'w \<Rightarrow> (exn + unit) \<times> 'w"
  pg_get_ttl :: "string \<Rightarrow> 'w \<Rightarrow> (exn + int) \<times> 'w"
  pg_set_ttl :: "string \<Rightarrow> int \<Rightarrow> 'w \<Rightarrow> (exn + unit) \<times> 'w"
  pg_bind_device :: "string \<Rightarrow> 'w \<Rightarrow> (exn + unit) \<times> 'w"
  pg_bind :: "string \<Rightarrow> 'w \<Rightarrow> (exn + unit) \<times> 'w"
  pg_resolve :: "string \<Rightarrow> 'w \<Rightarrow> string option \<times> 'w"
  pg_time :: "'w \<Rightarrow> double \<times> 'w"
  pg_sendto :: "octets \<Rightarrow> string \<Rightarrow> 'w \<Rightarrow> (exn + unit) \<times> 'w"
  pg_select :: "double \<Rightarrow> 'w \<Rightarrow> (exn + bool) \<times> 'w"
  pg_recvfrom :: "nat \<Rightarrow> 'w \<Rightarrow> (exn + octets) \<times> 'w"
  pg_port :: "'w \<Rightarrow> int"
  pg_sleep :: "double \<Rightarrow> 'w \<Rightarrow> 'w"
  pg_print :: "string \<Rightarrow> 'w \<Rightarrow> 'w"

definition time_now :: "'w ping_api \<Rightarrow> ('w, double) prog" where
  "time_now api = (\<lambda>w. case pg_time api w of (t, w') \<Rightarrow> (Inr t, w'))"

definition errors :: "string \<Rightarrow> exn" where
  "errors name = External name"

subsection \<open>Sending\<close>

definition htons :: "ping_host \<Rightarrow> int \<Rightarrow> int" where
  "htons h n = (if h_little h then n mod 256 * 256 + n div 256 else n)"

definition echo_payload :: "double \<Rightarrow> int \<Rightarrow> octets" where
  "echo_payload t sz = pack_d t @ replicate (nat (sz - 8)) 0x51"

definition echo_header :: "icmp_codes \<Rightarrow> int \<Rightarrow> int \<Rightarrow> int \<Rightarrow> icmp_header" where
  "echo_header cs c icmp_id seq = \<lparr>ih_type = ECHO_REQUEST cs, ih_code = ICMP_DEFAULT_CODE cs,
     ih_checksum = c, ih_id = icmp_id, ih_seq = seq\<rparr>"

text \<open>The packet: its checksum is computed over the header with a zero in its place.\<close>

definition echo_packet :: "ping_host \<Rightarrow> icmp_codes \<Rightarrow> octets \<Rightarrow> int \<Rightarrow> int \<Rightarrow> exn + octets" where
  "echo_packet h cs payload icmp_id seq =
     (case pack_icmp (echo_header cs 0 icmp_id seq) of
        Inl e \<Rightarrow> Inl e
      | Inr hdr \<Rightarrow>
          (case pack_icmp (echo_header cs (htons h (checksum (hdr @ payload))) icmp_id seq) of
             Inl e \<Rightarrow> Inl e
           | Inr hdr' \<Rightarrow> Inr (hdr' @ payload)))"

definition send_one_ping ::
  "ping_host \<Rightarrow> icmp_codes \<Rightarrow> 'w ping_api \<Rightarrow> string \<Rightarrow> int \<Rightarrow> int \<Rightarrow> int \<Rightarrow> ('w, unit) prog" where
  "send_one_ping h cs api dest_addr icmp_id seq sz = (\<lambda>w.
     case pg_resolve api dest_addr w of
       (None, w1) \<Rightarrow> (Inl (errors ''HostUnknown''), w1)
     | (Some ip, w1) \<Rightarrow>
         (case pack_icmp (echo_header cs 0 icmp_id seq) of
            Inl e \<Rightarrow> (Inl e, w1)
          | Inr _ \<Rightarrow>
              bindP (time_now api) (\<lambda>t.
              bindP (of_sum (echo_packet h cs (echo_payload t sz) icmp_id seq)) (\<lambda>packet.
              pg_sendto api packet ip)) w1))"

subsection \<open>Receiving\<close>

text \<open>What a received header means: an exception, nothing, or the reply.\<close>

datatype ping_verdict = Fails exn | Ignored | Replied

definition verdict :: "icmp_codes \<Rightarrow> int \<Rightarrow> int \<Rightarrow> icmp_header \<Rightarrow> ping_verdict" where
  "verdict cs icmp_id seq h =
     (if ih_type h = TIME_EXCEEDED cs then
        Fails (errors (if ih_code h = TTL_EXPIRED cs then ''TimeToLiveExpired'' else ''TimeExceeded''))
      else if ih_type h = DESTINATION_UNREACHABLE cs then
        Fails (errors (if ih_code h = DESTINATION_HOST_UNREACHABLE cs
          then ''DestinationHostUnreachable'' else ''DestinationUnreachable''))
      else if ih_id h \<noteq> 0 then
        (if ih_type h = ECHO_REQUEST cs then Ignored
         else if ih_id h \<noteq> icmp_id then Ignored
         else if ih_seq h \<noteq> seq then Ignored
         else if ih_type h = ECHO_REPLY cs then Replied
         else Ignored)
      else Ignored)"

definition has_ip_header :: "ping_host \<Rightarrow> bool \<Rightarrow> bool" where
  "has_ip_header h raw \<longleftrightarrow> \<not> h_posix h \<or> h_darwin h \<or> raw"

text \<open>Header and payload of a packet; with an IP header in front, that is read too.\<close>

definition split_packet :: "bool \<Rightarrow> octets \<Rightarrow> exn + icmp_header \<times> octets" where
  "split_packet ip data =
     (case (if ip then map_sum id Some (read_ip_header (take 20 data)) else Inr None) of
        Inl e \<Rightarrow> Inl e
      | Inr _ \<Rightarrow>
          (let rest = (if ip then drop 20 data else data)
           in map_sum id (\<lambda>h. (h, drop 8 rest)) (read_icmp_header (take 8 rest))))"

text \<open>The delay that a reply says: the time it was received less the time it was sent.\<close>

definition reply_delay :: "float_ops \<Rightarrow> double \<Rightarrow> octets \<Rightarrow> exn + double" where
  "reply_delay fl received payload =
     (case unpack_d (take 8 payload) of
        Inl e \<Rightarrow> Inl e
      | Inr sent \<Rightarrow> (case fl_ctime fl sent of Inl e \<Rightarrow> Inl e | Inr _ \<Rightarrow> Inr (fl_sub fl received sent)))"

text \<open>The loop \<open>while True\<close>, with a bound on its rounds: others decide how many packets come.\<close>

fun receive_loop ::
  "nat \<Rightarrow> icmp_codes \<Rightarrow> float_ops \<Rightarrow> 'w ping_api \<Rightarrow> bool \<Rightarrow> double \<Rightarrow> int \<Rightarrow> int \<Rightarrow> ('w, double) prog" where
  "receive_loop 0 cs fl api ip deadline icmp_id seq = raise OutOfFuel"
| "receive_loop (Suc n) cs fl api ip deadline icmp_id seq =
     bindP (time_now api) (\<lambda>t.
     let left = fl_sub fl deadline t; left' = (if fl_pos fl left then left else fl_int fl 0) in
     bindP (pg_select api left') (\<lambda>ready.
     if \<not> ready then raise (errors ''Timeout'')
     else
       bindP (time_now api) (\<lambda>received.
       thenP (of_sum (fl_ctime fl received)) (
       bindP (pg_recvfrom api 1500) (\<lambda>data.
       bindP (of_sum (split_packet ip data)) (\<lambda>(h, payload).
       bindP (if ip then ret icmp_id else asks (pg_port api)) (\<lambda>own.
       case verdict cs own seq h of
         Fails e \<Rightarrow> raise e
       | Ignored \<Rightarrow> receive_loop n cs fl api ip deadline own seq
       | Replied \<Rightarrow> of_sum (reply_delay fl received payload))))))))"

definition receive_one_ping ::
  "nat \<Rightarrow> icmp_codes \<Rightarrow> float_ops \<Rightarrow> 'w ping_api \<Rightarrow> bool \<Rightarrow> int \<Rightarrow> int \<Rightarrow> int \<Rightarrow> ('w, double) prog" where
  "receive_one_ping n cs fl api ip icmp_id seq timeout =
     bindP (time_now api) (\<lambda>t.
     let deadline = fl_add fl t (fl_int fl timeout) in
     thenP (of_sum (fl_ctime fl deadline)) (
     receive_loop n cs fl api ip deadline icmp_id seq))"

subsection \<open>\<open>ping\<close>\<close>

definition crc_bit :: "32 word \<Rightarrow> 32 word" where
  "crc_bit c = (if bit c 0 then drop_bit 1 c XOR 0xEDB88320 else drop_bit 1 c)"

definition crc32 :: "octets \<Rightarrow> 32 word" where
  "crc32 bs = NOT (fold (\<lambda>b c. (crc_bit ^^ 8) (c XOR ucast b)) bs (NOT 0))"

definition encode :: "string \<Rightarrow> octets" where
  "encode s = map (\<lambda>c. word_of_nat (ord_of c)) s"

definition icmp_id_of :: "ping_host \<Rightarrow> int" where
  "icmp_id_of h = uint (crc32 (encode (str_nat (h_pid h) @ str_nat (h_tid h))) AND 0xffff)"

record ping_args =
  a_timeout :: int
  a_unit :: string
  a_src_addr :: string
  a_ttl :: "int option"
  a_size :: int
  a_interface :: string

text \<open>The result says whether the socket is a raw one.\<close>

definition open_socket :: "'w ping_api \<Rightarrow> ('w, bool) prog" where
  "open_socket api = (\<lambda>w. case pg_raw api w of
     (Opened, w') \<Rightarrow> (Inr True, w')
   | (NoPermission eperm, w') \<Rightarrow>
       if eperm then thenP (pg_dgram api) (ret False) w' else (Inl (OSError ''PermissionError''), w')
   | (NotOpened e, w') \<Rightarrow> (Inl e, w'))"

text \<open>One level's \<open>IP_TTL\<close>; an \<open>OSError\<close> is only logged.\<close>

definition is_os_error :: "exn \<Rightarrow> bool" where
  "is_os_error e = (case e of OSError _ \<Rightarrow> True | _ \<Rightarrow> False)"

definition set_ttl :: "'w ping_api \<Rightarrow> string \<Rightarrow> int \<Rightarrow> ('w, unit) prog" where
  "set_ttl api level ttl =
     tryP (bindP (pg_get_ttl api level) (\<lambda>v. if v \<noteq> 0 then pg_set_ttl api level ttl else ret ()))
       (\<lambda>e. if is_os_error e then ret () else raise e)"

definition configure_socket :: "'w ping_api \<Rightarrow> ping_args \<Rightarrow> ('w, unit) prog" where
  "configure_socket api a =
     thenP (case a_ttl a of
        None \<Rightarrow> ret ()
      | Some ttl \<Rightarrow> if ttl \<noteq> 0 then thenP (set_ttl api ''IPPROTO_IP'' ttl) (set_ttl api ''SOL_IP'' ttl) else ret ()) (
     thenP (if a_interface a \<noteq> [] then pg_bind_device api (a_interface a) else ret ()) (
     if a_src_addr a \<noteq> [] then pg_bind api (a_src_addr a) else ret ()))"

text \<open>
  \<open>except (errors.Timeout, errors.PingError)\<close>: \<open>sub\<close> tells which other classes of
  \<open>errors\<close> are subclasses of these.
\<close>

definition caught :: "(string \<Rightarrow> bool) \<Rightarrow> exn \<Rightarrow> bool" where
  "caught sub e = (case e of External n \<Rightarrow> n \<in> {''Timeout'', ''PingError''} \<or> sub n | _ \<Rightarrow> False)"

text \<open>
  The loop \<open>for i in range(4)\<close>, with \<open>k\<close> rounds left; in the last one a caught
  exception ends it, by \<open>_raise\<close> if \<open>EXCEPTIONS\<close> is set and with \<open>None\<close> otherwise.
\<close>

definition raise_if :: "bool \<Rightarrow> exn \<Rightarrow> ('w, unit) prog" where
  "raise_if exceptions e = (if exceptions then raise e else ret ())"

fun ping_tries :: "bool \<Rightarrow> (string \<Rightarrow> bool) \<Rightarrow> nat \<Rightarrow> ('w, double) prog \<Rightarrow> ('w, double option) prog" where
  "ping_tries exceptions sub 0 m = ret None"
| "ping_tries exceptions sub (Suc k) m =
     tryP (bindP m (\<lambda>delay. ret (Some delay)))
       (\<lambda>e. if \<not> caught sub e then raise e
            else if k = 0 then thenP (raise_if exceptions e) (ret None)
            else ping_tries exceptions sub k m)"

definition ping ::
  "bool \<Rightarrow> (string \<Rightarrow> bool) \<Rightarrow> nat \<Rightarrow> ping_host \<Rightarrow> icmp_codes \<Rightarrow> float_ops \<Rightarrow> 'w ping_api \<Rightarrow>
   string \<Rightarrow> int \<Rightarrow> ping_args \<Rightarrow> ('w, double option) prog" where
  "ping exceptions sub n h cs fl api dest_addr seq a =
     bindP (open_socket api) (\<lambda>raw.
     thenP (configure_socket api a) (
     bindP (ping_tries exceptions sub 4
       (thenP (send_one_ping h cs api dest_addr (icmp_id_of h) seq (a_size a))
         (receive_one_ping n cs fl api (has_ip_header h raw) (icmp_id_of h) seq (a_timeout a)))) (\<lambda>delay.
     ret (case delay of
        None \<Rightarrow> None
      | Some d \<Rightarrow> Some (if a_unit a = ''ms'' then fl_mul fl d (fl_int fl 1000) else d)))))"

subsection \<open>\<open>verbose_ping\<close>\<close>

text \<open>
  The keyword arguments that were given; \<open>v_interval\<close> is a pause if it is positive.
  \<open>ping\<close> never returns \<open>False\<close>, so the branch that prints \<open>Error\<close> has no case here.
\<close>

record verbose_args =
  v_count :: nat
  v_interval :: "double option"
  v_timeout :: "int option"
  v_src :: "string option"
  v_unit :: "string option"
  v_ttl :: "int option"
  v_size :: int
  v_interface :: string

definition args_of :: "verbose_args \<Rightarrow> ping_args" where
  "args_of v = \<lparr>a_timeout = (case v_timeout v of None \<Rightarrow> 4 | Some t \<Rightarrow> t),
     a_unit = (case v_unit v of None \<Rightarrow> ''ms'' | Some u \<Rightarrow> u),
     a_src_addr = (case v_src v of None \<Rightarrow> [] | Some s \<Rightarrow> s),
     a_ttl = v_ttl v, a_size = v_size v, a_interface = v_interface v\<rparr>"

definition out :: "'w ping_api \<Rightarrow> string \<Rightarrow> ('w, unit) prog" where
  "out api t = modify (pg_print api t)"

definition head_text :: "verbose_args \<Rightarrow> string \<Rightarrow> string" where
  "head_text v dest =
     ''ping '' @ [CHR 0x27] @ dest @ [CHR 0x27] @
     (case v_src v of None \<Rightarrow> [] | Some s \<Rightarrow> if s = [] then [] else '' from '' @ [CHR 0x27] @ s @ [CHR 0x27]) @
     '' ... ''"

definition timeout_text :: "verbose_args \<Rightarrow> string" where
  "timeout_text v =
     (case v_timeout v of
        None \<Rightarrow> ''Timeout''
      | Some t \<Rightarrow> if t = 0 then ''Timeout'' else ''Timeout > '' @ str_int t @ ''s'')"

text \<open>The loop: it ends after \<open>count\<close> rounds, and never for the count 0; \<open>k\<close> bounds its rounds.\<close>

fun verbose_loop ::
  "nat \<Rightarrow> (int \<Rightarrow> ('w, double option) prog) \<Rightarrow> float_ops \<Rightarrow> 'w ping_api \<Rightarrow> verbose_args \<Rightarrow> string \<Rightarrow>
   nat \<Rightarrow> ('w, unit) prog" where
  "verbose_loop 0 p fl api v dest i = raise OutOfFuel"
| "verbose_loop (Suc k) p fl api v dest i =
     (if i < v_count v \<or> v_count v = 0 then
        thenP (case v_interval v of
           None \<Rightarrow> ret ()
         | Some x \<Rightarrow> if i > 0 then modify (pg_sleep api x) else ret ()) (
        bindP (p (int i)) (\<lambda>delay.
        thenP (out api (head_text v dest)) (
        thenP (case delay of
            None \<Rightarrow> out api (timeout_text v @ [LF])
          | Some d \<Rightarrow> bindP (of_sum (fl_trunc fl d)) (\<lambda>n.
              out api (str_int n @ a_unit (args_of v) @ [LF]))) (
        verbose_loop k p fl api v dest (Suc i)))))
      else ret ())"

definition verbose_ping ::
  "bool \<Rightarrow> (string \<Rightarrow> bool) \<Rightarrow> nat \<Rightarrow> nat \<Rightarrow> ping_host \<Rightarrow> icmp_codes \<Rightarrow> float_ops \<Rightarrow> 'w ping_api \<Rightarrow>
   string \<Rightarrow> verbose_args \<Rightarrow> ('w, unit) prog" where
  "verbose_ping exceptions sub n k h cs fl api dest_addr v =
     verbose_loop k (\<lambda>seq. ping exceptions sub n h cs fl api dest_addr seq (args_of v)) fl api v dest_addr 0"

end
