(* ===== verification/PingProps.thy ===== *)
theory PingProps
  imports Ping
begin

unbundle bit_operations_syntax

section \<open>What the ping sends and accepts\<close>

text \<open>
  The checksum is the one's complement sum of RFC 1071, whose carries are added at once
  in the code; a packet carries a valid checksum on a little-endian machine, and on others
  only by chance. Of the packets that come, the first that is not ignored decides.
\<close>

subsection \<open>The carries\<close>

abbreviation carried :: "nat \<Rightarrow> nat" where
  "carried r \<equiv> r div 65536 + r mod 65536"

lemma fold_carry_step: "65536 \<le> r \<Longrightarrow> fold_carry r = fold_carry (carried r)"
  by (subst fold_carry.simps) (simp only: if_True)

lemma fold_carry_stop: "r < 65536 \<Longrightarrow> fold_carry r = r"
  by (subst fold_carry.simps) (simp only: not_le [symmetric] if_False)

lemma fold_carry_cases:
  assumes "\<And>r. r < 65536 \<Longrightarrow> P r r" and "\<And>r. 65536 \<le> r \<Longrightarrow> P (carried r) (fold_carry r) \<Longrightarrow> P r (fold_carry r)"
  shows "P r (fold_carry r)"
proof (induction r rule: fold_carry.induct)
  case (1 r)
  show ?case
  proof (cases "65536 \<le> r")
    case True
    from 1 [OF True] have "P (carried r) (fold_carry r)" by (simp only: fold_carry_step [OF True])
    with assms(2) True show ?thesis by blast
  next
    case False
    then show ?thesis by (simp only: fold_carry_stop not_le assms(1))
  qed
qed

lemma carried_mod: "carried r mod 65535 = r mod 65535"
proof -
  have "r = 65536 * (r div 65536) + r mod 65536" by simp
  then have "r = 65535 * (r div 65536) + carried r" by linarith
  then have "r mod 65535 = (65535 * (r div 65536) + carried r) mod 65535" by (rule arg_cong)
  also have "\<dots> = carried r mod 65535" by (rule mod_mult_self4)
  finally show ?thesis by (rule sym)
qed

lemma fold_carry_mod: "fold_carry r mod 65535 = r mod 65535"
  by (rule fold_carry_cases [where P = "\<lambda>r f. f mod 65535 = r mod 65535"]) (simp_all only: carried_mod)

lemma fold_carry_bound: "fold_carry r < 65536"
  by (rule fold_carry_cases [where P = "\<lambda>r f. f < 65536"])

lemma carried_eq_0: "carried r = 0 \<longleftrightarrow> r = 0"
proof
  assume "carried r = 0"
  then have "r div 65536 = 0" "r mod 65536 = 0" by (simp_all only: add_is_0)
  then show "r = 0" by (metis div_mult_mod_eq mult_zero_left add_0)
qed simp

lemma fold_carry_eq_0: "fold_carry r = 0 \<longleftrightarrow> r = 0"
  by (rule fold_carry_cases [where P = "\<lambda>r f. f = 0 \<longleftrightarrow> r = 0"]) (simp_all only: carried_eq_0)

text \<open>A 16-bit value is known by its remainder, but for the two zeros.\<close>

lemma ones_unique:
  assumes "x < 65536" and "y < 65536" and "x mod 65535 = y mod 65535" and "x = 0 \<longleftrightarrow> y = 0"
  shows "x = (y :: nat)"
proof -
  have small: "z mod 65535 = (if z = 65535 then 0 else z)" if "z < 65536" for z :: nat
    using that by auto
  show ?thesis using assms small [of x] small [of y] by (auto split: if_splits)
qed

lemma checksum_carry: "checksum bs = 65535 - int (fold_carry (raw_sum bs))"
proof -
  let ?f = "int (fold_carry (raw_sum bs))"
  have f: "0 \<le> ?f" "?f < 65536" using fold_carry_bound [of "raw_sum bs"] by auto
  have "NOT ?f AND 65535 = take_bit 16 (NOT ?f)"
    by (simp add: take_bit_eq_mask mask_eq_exp_minus_1)
  also have "\<dots> = (- ?f - 1) mod 65536"
    by (simp add: take_bit_eq_mod not_int_def)
  also have "\<dots> = (65535 - ?f) mod 65536"
    using mod_add_self2 [of "- ?f - 1" 65536] by (simp add: algebra_simps)
  also have "\<dots> = 65535 - ?f" using f by (intro mod_pos_pos_trivial) auto
  finally show ?thesis by (simp add: checksum_def)
qed

subsection \<open>The sum of RFC 1071\<close>

text \<open>The 16-bit numbers of a text of bytes, low byte first, and their sum with the
  carry of each addition brought round.\<close>

fun le_words :: "octets \<Rightarrow> nat list" where
  "le_words [] = []"
| "le_words [x] = [unat x]"
| "le_words (x # y # zs) = (unat x + 256 * unat y) # le_words zs"

definition ones_add :: "nat \<Rightarrow> nat \<Rightarrow> nat" where
  "ones_add a b = (if a + b < 65536 then a + b else a + b - 65535)"

definition ones_sum :: "nat list \<Rightarrow> nat" where
  "ones_sum ws = foldl ones_add 0 ws"

lemma unat_byte: "unat (b :: 8 word) < 256"
  by (rule order_less_le_trans [OF unsigned_less]) simp

lemma le_words_bound: "w \<in> set (le_words bs) \<Longrightarrow> w < 65536"
proof (induction bs rule: le_words.induct)
  case (2 x)
  then show ?case using unat_byte [of x] by simp
next
  case (3 x y zs)
  then show ?case using unat_byte [of x] unat_byte [of y] by auto
qed simp

lemma raw_sum_words: "raw_sum bs = sum_list (le_words bs)"
proof (induction bs rule: le_words.induct)
  case (3 x y zs)
  then show ?case by (simp add: raw_sum_def byte_sum_def push_bit_eq_mult)
qed (simp_all add: raw_sum_def byte_sum_def)

lemma ones_add_mod: "ones_add a b mod 65535 = (a + b) mod 65535"
proof (cases "a + b < 65536")
  case False
  then have "a + b = ones_add a b + 65535" by (simp add: ones_add_def)
  then show ?thesis by (metis mod_add_self2)
qed (simp add: ones_add_def)

lemma ones_fold:
  assumes "a < 65536" and "\<forall>w \<in> set ws. w < 65536"
  shows "foldl ones_add a ws < 65536 \<and> foldl ones_add a ws mod 65535 = (a + sum_list ws) mod 65535 \<and>
    (foldl ones_add a ws = 0 \<longleftrightarrow> a + sum_list ws = 0)"
  using assms
proof (induction ws arbitrary: a)
  case (Cons w ws)
  have "ones_add a w < 65536" "ones_add a w = 0 \<longleftrightarrow> a + w = 0"
    using Cons.prems by (auto simp: ones_add_def)
  moreover have "(ones_add a w + sum_list ws) mod 65535 = (a + w + sum_list ws) mod 65535"
    using ones_add_mod mod_add_cong by blast
  ultimately show ?case using Cons.IH [of "ones_add a w"] Cons.prems by (simp add: add.assoc)
qed simp

lemma fold_carry_sum: "fold_carry (raw_sum bs) = ones_sum (le_words bs)"
proof (rule ones_unique)
  note s = ones_fold [of 0 "le_words bs", folded ones_sum_def]
  show "fold_carry (raw_sum bs) < 65536" by (rule fold_carry_bound)
  show "ones_sum (le_words bs) < 65536"
    using s le_words_bound by auto
  show "fold_carry (raw_sum bs) mod 65535 = ones_sum (le_words bs) mod 65535"
    using s le_words_bound by (auto simp: fold_carry_mod raw_sum_words)
  show "fold_carry (raw_sum bs) = 0 \<longleftrightarrow> ones_sum (le_words bs) = 0"
    using s le_words_bound by (auto simp: fold_carry_eq_0 raw_sum_words)
qed

text \<open>C36: The checksum is the complement of the one's complement sum of RFC 1071.\<close>

theorem checksum_rfc1071:
  "checksum bs = 65535 - int (ones_sum (le_words bs)) \<and> 0 \<le> checksum bs \<and> checksum bs \<le> 65535"
  using fold_carry_bound [of "raw_sum bs"] by (simp add: checksum_carry fold_carry_sum [symmetric])

subsection \<open>Headers\<close>

lemma uint_byte_of: "0 \<le> n \<Longrightarrow> n \<le> 255 \<Longrightarrow> uint (word_of_int n :: 8 word) = n"
  by (simp add: uint_word_of_int)

lemma length_pack [simp]:
  "pack_B n = Inr bs \<Longrightarrow> length bs = 1" "pack_H n = Inr bs \<Longrightarrow> length bs = 2"
  by (auto simp: pack_B_def pack_H_def be16_def split: if_splits)

lemma be_int_pack_B: "pack_B n = Inr bs \<Longrightarrow> be_int bs = n"
  by (auto simp: pack_B_def be_int_def uint_byte_of split: if_splits)

lemma be_int_be16: "0 \<le> n \<Longrightarrow> n \<le> 65535 \<Longrightarrow> be_int (be16 n) = n"
  by (simp add: be16_def be_int_def uint_byte_of)

lemma be_int_pack_H: "pack_H n = Inr bs \<Longrightarrow> be_int bs = n"
  by (auto simp: pack_H_def be_int_be16 split: if_splits)

lemma pack_all_Cons:
  "pack_all (r # rs) = Inr bs \<longleftrightarrow> (\<exists>x y. r = Inr x \<and> pack_all rs = Inr y \<and> bs = x @ y)"
  by (cases r) (auto split: sum.splits)

lemma pack_icmp_parts:
  assumes "pack_icmp h = Inr bs"
  obtains t c k i q where "pack_B (ih_type h) = Inr t" and "pack_B (ih_code h) = Inr c"
    and "pack_H (ih_checksum h) = Inr k" and "pack_H (ih_id h) = Inr i" and "pack_H (ih_seq h) = Inr q"
    and "bs = t @ c @ k @ i @ q"
  using assms by (auto simp: pack_icmp_def pack_all_Cons)

lemma length_pack_icmp: "pack_icmp h = Inr bs \<Longrightarrow> length bs = 8"
  by (elim pack_icmp_parts) simp

lemma read_pack_icmp: "pack_icmp h = Inr bs \<Longrightarrow> read_icmp_header bs = Inr h"
proof (elim pack_icmp_parts)
  fix t c k i q
  assume p: "pack_B (ih_type h) = Inr t" "pack_B (ih_code h) = Inr c" "pack_H (ih_checksum h) = Inr k"
    "pack_H (ih_id h) = Inr i" "pack_H (ih_seq h) = Inr q" and bs: "bs = t @ c @ k @ i @ q"
  have l: "length t = 1" "length c = 1" "length k = 2" "length i = 2" "length q = 2"
    using p by simp_all
  have "be_int t = ih_type h" "be_int c = ih_code h" "be_int k = ih_checksum h" "be_int i = ih_id h"
    "be_int q = ih_seq h"
    using p by (simp_all add: be_int_pack_B be_int_pack_H)
  then show ?thesis by (simp add: read_icmp_header_def bs l)
qed

subsection \<open>The checksum of a packet\<close>

lemma evens_even: "even (length xs) \<Longrightarrow> evens (xs @ ys) = evens xs @ evens ys"
  by (induction xs rule: evens.induct) auto

lemma odds_even: "even (length xs) \<Longrightarrow> odds (xs @ ys) = odds xs @ odds ys"
  by (induction xs rule: odds.induct) auto

lemma raw_sum_append: "even (length xs) \<Longrightarrow> raw_sum (xs @ ys) = raw_sum xs + raw_sum ys"
  by (simp add: raw_sum_def byte_sum_def evens_even odds_even push_bit_eq_mult)

lemma raw_sum_be16:
  assumes "0 \<le> n" and "n \<le> 65535"
  shows "int (raw_sum (be16 n)) = n div 256 + 256 * (n mod 256)"
proof -
  have "int (unat (word_of_int (n div 256) :: 8 word)) = n div 256"
    "int (unat (word_of_int (n mod 256) :: 8 word)) = n mod 256"
    using assms uint_byte_of [of "n div 256"] uint_byte_of [of "n mod 256"] by simp_all
  then show ?thesis by (simp add: be16_def raw_sum_def byte_sum_def push_bit_eq_mult)
qed

text \<open>The checksum is zero exactly if the sum is a positive multiple of 65535.\<close>

lemma checksum_zero: "checksum bs = 0 \<longleftrightarrow> raw_sum bs mod 65535 = 0 \<and> raw_sum bs \<noteq> 0"
proof -
  have "checksum bs = 0 \<longleftrightarrow> fold_carry (raw_sum bs) = 65535"
    by (simp add: checksum_carry)
  also have "\<dots> \<longleftrightarrow> fold_carry (raw_sum bs) mod 65535 = 0 \<and> fold_carry (raw_sum bs) \<noteq> 0"
    using fold_carry_bound [of "raw_sum bs"] ones_unique [of "fold_carry (raw_sum bs)" 65535] by auto
  finally show ?thesis by (simp only: fold_carry_mod fold_carry_eq_0)
qed

lemma close_dvd:
  assumes "0 \<le> q" and "q \<le> 255" and "0 \<le> m" and "m \<le> (255 :: int)"
  shows "257 dvd m - q \<longleftrightarrow> q = m"
proof
  assume d: "257 dvd m - q"
  have "\<bar>m - q\<bar> < \<bar>257\<bar>" using assms by simp
  then show "q = m" using dvd_imp_le_int [OF _ d] by fastforce
qed simp

lemma dvd_255: "255 * x mod 65535 = 0 \<longleftrightarrow> 257 dvd (x :: int)"
proof -
  have "255 * 257 dvd 255 * x \<longleftrightarrow> 257 dvd x" by (subst dvd_mult_cancel_left) simp
  moreover have "(255 :: int) * 257 = 65535" by simp
  ultimately show ?thesis by (simp only: dvd_eq_mod_eq_0)
qed

lemma swap_sum:
  assumes "0 \<le> c" and "c \<le> 65535" and "int r mod 65535 = (65535 - c) mod 65535"
  shows "(int r + c) mod 65535 = 0"
    and "(int r + (c mod 256 * 256 + c div 256)) mod 65535 = 0 \<longleftrightarrow> c div 256 = c mod 256"
proof -
  have "(int r + c) mod 65535 = (65535 - c + c) mod 65535"
    using assms(3) by (rule mod_add_cong) simp
  then show z: "(int r + c) mod 65535 = 0" by simp
  let ?q = "c div 256" and ?m = "c mod 256"
  have c: "c = 256 * ?q + ?m" by simp
  have q: "0 \<le> ?q" "?q \<le> 255" "0 \<le> ?m" "?m \<le> 255" using assms(1,2) by simp_all
  have "m * 256 + q = (256 * q + m) + 255 * (m - q)" for m q :: int by (simp add: algebra_simps)
  from this [of ?m ?q] have "?m * 256 + ?q = c + 255 * (?m - ?q)" by (simp only: c [symmetric])
  then have e: "int r + (?m * 256 + ?q) = (int r + c) + 255 * (?m - ?q)" by (simp only: add.assoc)
  have "(int r + (?m * 256 + ?q)) mod 65535 = 0 \<longleftrightarrow> (255 * (?m - ?q)) mod 65535 = 0"
    unfolding e using z by (metis add_0 mod_add_left_eq)
  also have "\<dots> \<longleftrightarrow> 257 dvd ?m - ?q" by (rule dvd_255)
  also have "\<dots> \<longleftrightarrow> ?q = ?m" by (rule close_dvd [OF q])
  finally show "(int r + (?m * 256 + ?q)) mod 65535 = 0 \<longleftrightarrow> ?q = ?m" .
qed

lemma checksum_range: "0 \<le> checksum bs \<and> checksum bs \<le> 65535"
  using fold_carry_bound [of "raw_sum bs"] by (simp add: checksum_carry)

lemma htons_range: "0 \<le> n \<Longrightarrow> n \<le> 65535 \<Longrightarrow> 0 \<le> htons h n \<and> htons h n \<le> 65535"
  by (auto simp: htons_def)

lemma echo_packet_sum:
  assumes "pack_icmp (echo_header cs 0 icmp_id seq) = Inr hdr"
    and "echo_packet h cs payload icmp_id seq = Inr packet"
  obtains hdr' where
    "pack_icmp (echo_header cs (htons h (checksum (hdr @ payload))) icmp_id seq) = Inr hdr'"
    and "packet = hdr' @ payload"
    and "raw_sum packet = raw_sum (hdr @ payload) + raw_sum (be16 (htons h (checksum (hdr @ payload))))"
proof -
  let ?n = "htons h (checksum (hdr @ payload))"
  obtain hdr' where hdr': "pack_icmp (echo_header cs ?n icmp_id seq) = Inr hdr'" and packet: "packet = hdr' @ payload"
    using assms by (auto simp: echo_packet_def split: sum.splits)
  have n: "0 \<le> ?n" "?n \<le> 65535" using checksum_range htons_range by auto
  obtain t d z i q where hdr: "hdr = t @ d @ z @ i @ q" and z: "pack_H 0 = Inr z"
      and t: "pack_B (ECHO_REQUEST cs) = Inr t" "pack_B (ICMP_DEFAULT_CODE cs) = Inr d"
      "pack_H icmp_id = Inr i" "pack_H seq = Inr q"
    using assms(1) by (elim pack_icmp_parts) (auto simp: echo_header_def)
  have hdr'_eq: "hdr' = t @ d @ be16 ?n @ i @ q"
    using hdr' t n by (elim pack_icmp_parts) (auto simp: echo_header_def pack_H_def)
  have len: "length t = 1" "length d = 1" "length z = 2" "length (be16 ?n) = 2" "length i = 2" "length q = 2"
    using t z by (simp_all add: be16_def)
  have "raw_sum z = 0" using z by (auto simp: pack_H_def be16_def raw_sum_def byte_sum_def)
  then have "raw_sum (hdr @ payload) = raw_sum (t @ d) + raw_sum (i @ q @ payload)"
    using len raw_sum_append [of "t @ d" "z @ i @ q @ payload"] raw_sum_append [of z "i @ q @ payload"]
    by (simp add: hdr)
  then have "raw_sum packet = raw_sum (hdr @ payload) + raw_sum (be16 ?n)"
    using len raw_sum_append [of "t @ d" "be16 ?n @ i @ q @ payload"] raw_sum_append [of "be16 ?n" "i @ q @ payload"]
    by (simp add: packet hdr'_eq)
  with hdr' packet show thesis by (rule that)
qed

lemma swapped_value:
  assumes "0 \<le> c" and "c \<le> 65535"
  shows "htons h c div 256 + 256 * (htons h c mod 256) =
    (if h_little h then c else c mod 256 * 256 + c div 256)"
proof (cases "h_little h")
  case True
  have q: "0 \<le> c div 256" "c div 256 < 256" using assms by auto
  then have "(c mod 256 * 256 + c div 256) div 256 = c mod 256" "(c mod 256 * 256 + c div 256) mod 256 = c div 256"
    by simp_all
  with True show ?thesis by (simp add: htons_def)
next
  case False
  then show ?thesis by (simp add: htons_def)
qed

text \<open>C35: 
  The packet that is sent: its header reads back as an echo request with the given
  numbers, its payload follows, and a receiver that sums up all of it finds it valid if
  the machine that computed it is little-endian; otherwise only if the two bytes of the
  checksum happen to be equal.
\<close>

theorem packet_checksum:
  assumes "pack_icmp (echo_header cs 0 icmp_id seq) = Inr hdr"
    and "echo_packet h cs payload icmp_id seq = Inr packet"
  shows "read_icmp_header (take 8 packet) = Inr (echo_header cs (htons h (checksum (hdr @ payload))) icmp_id seq) \<and>
    drop 8 packet = payload \<and>
    (checksum packet = 0 \<longleftrightarrow>
       h_little h \<or> checksum (hdr @ payload) div 256 = checksum (hdr @ payload) mod 256)"
proof -
  let ?c = "checksum (hdr @ payload)" and ?r = "raw_sum (hdr @ payload)"
  let ?v = "if h_little h then ?c else ?c mod 256 * 256 + ?c div 256"
  from assms obtain hdr' where hdr': "pack_icmp (echo_header cs (htons h ?c) icmp_id seq) = Inr hdr'"
    and packet: "packet = hdr' @ payload" and sum: "raw_sum packet = ?r + raw_sum (be16 (htons h ?c))"
    by (rule echo_packet_sum)
  have c: "0 \<le> ?c" "?c \<le> 65535" using checksum_range by auto
  have "int (raw_sum (be16 (htons h ?c))) = ?v"
    using raw_sum_be16 swapped_value [OF c] htons_range [OF c] by simp
  with sum have s: "int (raw_sum packet) = int ?r + ?v" by simp
  have "int (fold_carry ?r mod 65535) = int (?r mod 65535)" by (simp only: fold_carry_mod)
  then have r: "int ?r mod 65535 = (65535 - ?c) mod 65535"
    by (simp add: checksum_carry zmod_int)
  have "(int ?r + ?v) mod 65535 = 0 \<longleftrightarrow> h_little h \<or> ?c div 256 = ?c mod 256"
    using swap_sum [OF c r] by simp
  moreover have "raw_sum packet \<noteq> 0"
  proof
    assume "raw_sum packet = 0"
    with s have "int ?r + ?v = 0" by (simp only: of_nat_0)
    moreover have "0 \<le> ?v" using c by simp
    ultimately have "int ?r = 0" and v: "?v = 0"
      by (simp_all only: add_nonneg_eq_0_iff of_nat_0_le_iff)
    then have "?r = 0" by (simp only: of_nat_eq_0_iff)
    then have "?c = 65535" by (simp add: checksum_carry fold_carry_stop)
    with v show False by (simp split: if_splits)
  qed
  moreover have "int (raw_sum packet) mod 65535 = int (raw_sum packet mod 65535)"
    by (simp add: zmod_int)
  then have "raw_sum packet mod 65535 = 0 \<longleftrightarrow> (int ?r + ?v) mod 65535 = 0"
    by (simp only: s [symmetric] of_nat_eq_0_iff)
  ultimately have "checksum packet = 0 \<longleftrightarrow> h_little h \<or> ?c div 256 = ?c mod 256"
    by (simp add: checksum_zero)
  moreover have "take 8 packet = hdr'" "drop 8 packet = payload"
    using length_pack_icmp [OF hdr'] by (simp_all add: packet)
  ultimately show ?thesis using read_pack_icmp [OF hdr'] by simp
qed

subsection \<open>Which packet decides\<close>

text \<open>
  A network that holds a queue of packets: the clock leaves it alone, \<open>select\<close> says
  whether there is one, \<open>recvfrom\<close> takes the first; the socket's port does not change.
\<close>

definition queue_net :: "'w ping_api \<Rightarrow> ('w \<Rightarrow> octets list) \<Rightarrow> int \<Rightarrow> bool" where
  "queue_net api q port \<longleftrightarrow>
     (\<forall>w. q (snd (pg_time api w)) = q w) \<and>
     (\<forall>t w. \<exists>w'. pg_select api t w = (Inr (q w \<noteq> []), w') \<and> q w' = q w) \<and>
     (\<forall>w d ds. q w = d # ds \<longrightarrow> (\<exists>w'. pg_recvfrom api 1500 w = (Inr d, w') \<and> q w' = ds)) \<and>
     (\<forall>w. pg_port api w = port)"

definition formats_times :: "float_ops \<Rightarrow> bool" where
  "formats_times fl \<longleftrightarrow> (\<forall>x. \<exists>t. fl_ctime fl x = Inr t)"

text \<open>The time in the first packet that is a reply, or the error that comes before it.\<close>

fun first_decisive :: "icmp_codes \<Rightarrow> bool \<Rightarrow> int \<Rightarrow> int \<Rightarrow> octets list \<Rightarrow> exn + double" where
  "first_decisive cs ip own seq [] = Inl (errors ''Timeout'')"
| "first_decisive cs ip own seq (d # ds) =
     (case split_packet ip d of
        Inl e \<Rightarrow> Inl e
      | Inr (h, payload) \<Rightarrow>
          (case verdict cs own seq h of
             Fails e \<Rightarrow> Inl e
           | Ignored \<Rightarrow> first_decisive cs ip own seq ds
           | Replied \<Rightarrow> unpack_d (take 8 payload)))"

lemma receive_loop_decides:
  assumes "queue_net api q port" and "formats_times fl" and "length (q w) < n"
  obtains r w' where "receive_loop n cs fl api ip deadline icmp_id seq w = (r, w')"
    and "case first_decisive cs ip (if ip then icmp_id else port) seq (q w) of
        Inl e \<Rightarrow> r = Inl e
      | Inr sent \<Rightarrow> (\<exists>t. r = Inr (fl_sub fl t sent))"
  using assms
proof (induction n arbitrary: w icmp_id thesis)
  case (Suc n)
  note net = Suc.prems(2) [unfolded queue_net_def]
  let ?own = "if ip then icmp_id else port"
  obtain t w1 where t: "pg_time api w = (t, w1)" and q1: "q w1 = q w"
    using net by (metis prod.collapse)
  let ?left = "fl_sub fl deadline t"
  obtain w2 where sel: "pg_select api (if fl_pos fl ?left then ?left else fl_int fl 0) w1 = (Inr (q w \<noteq> []), w2)"
    and q2: "q w2 = q w"
    using net q1 by metis
  show ?case
  proof (cases "q w")
    case Nil
    then have "receive_loop (Suc n) cs fl api ip deadline icmp_id seq w = (Inl (errors ''Timeout''), w2)"
      using t sel by (simp add: time_now_def bindP_def Let_def)
    with Nil show ?thesis by (intro Suc.prems(1)) simp_all
  next
    case (Cons d ds)
    obtain u w3 where u: "pg_time api w2 = (u, w3)" and q3: "q w3 = d # ds"
      using net q2 Cons by (metis prod.collapse)
    obtain x where x: "fl_ctime fl u = Inr x" using Suc.prems(3) by (auto simp: formats_times_def)
    obtain w4 where recv: "pg_recvfrom api 1500 w3 = (Inr d, w4)" and q4: "q w4 = ds"
      using net q3 by blast
    have port: "pg_port api w4 = port" using net by blast
    have step: "receive_loop (Suc n) cs fl api ip deadline icmp_id seq w =
        (case split_packet ip d of Inl e \<Rightarrow> (Inl e, w4)
         | Inr (h, payload) \<Rightarrow>
            (case verdict cs ?own seq h of
               Fails e \<Rightarrow> raise e
             | Ignored \<Rightarrow> receive_loop n cs fl api ip deadline ?own seq
             | Replied \<Rightarrow> of_sum (reply_delay fl u payload)) w4)"
      using t sel u x recv port Cons
      by (cases ip; cases "split_packet ip d")
        (simp_all add: time_now_def bindP_def thenP_def Let_def split: prod.splits ping_verdict.splits)
    show ?thesis
    proof (cases "split_packet ip d")
      case (Inl e)
      with step Cons show ?thesis by (intro Suc.prems(1)) simp_all
    next
      case (Inr y)
      obtain h payload where y: "y = (h, payload)" by (cases y)
      show ?thesis
      proof (cases "verdict cs ?own seq h")
        case (Fails e)
        with step Inr y Cons show ?thesis by (intro Suc.prems(1)) simp_all
      next
        case Ignored
        obtain r w' where "receive_loop n cs fl api ip deadline ?own seq w4 = (r, w')"
          and "case first_decisive cs ip (if ip then ?own else port) seq (q w4) of
              Inl e \<Rightarrow> r = Inl e | Inr sent \<Rightarrow> (\<exists>t. r = Inr (fl_sub fl t sent))"
          using Suc.IH [where w = w4 and icmp_id = ?own] Suc.prems(2-4) q4 Cons by auto
        with step Inr y Cons Ignored q4 show ?thesis
          by (intro Suc.prems(1) [of r w']) (simp_all split: if_splits)
      next
        case Replied
        show ?thesis
        proof (cases "unpack_d (take 8 payload)")
          case (Inl e)
          with step Inr y Cons Replied show ?thesis
            by (intro Suc.prems(1)) (simp_all add: reply_delay_def)
        next
          case sent: (Inr sent)
          obtain z where "fl_ctime fl sent = Inr z" using Suc.prems(3) by (auto simp: formats_times_def)
          with sent step Inr y Cons Replied show ?thesis
            by (intro Suc.prems(1) [of "Inr (fl_sub fl u sent)" w4]) (auto simp: reply_delay_def)
        qed
      qed
    qed
  qed
qed simp

subsection \<open>The time in the payload\<close>

lemma be_int_fold: "foldl (\<lambda>n b. 256 * n + uint b) a bs = a * 256 ^ length bs + be_int bs"
proof (induction bs arbitrary: a)
  case (Cons b bs)
  have "be_int (b # bs) = uint b * 256 ^ length bs + be_int bs"
    using Cons.IH [of "uint b"] by (simp add: be_int_def)
  then show ?case by (simp only: foldl_Cons Cons.IH) (simp add: algebra_simps)
qed (simp add: be_int_def)

lemma be_int_Cons: "be_int (b # bs) = uint b * 256 ^ length bs + be_int bs"
  using be_int_fold [of "uint b" bs] by (simp add: be_int_def)

lemma be_int_digits:
  "be_int (map (\<lambda>i. word_of_int (y div 256 ^ i)) (rev [0..<k])) = y mod 256 ^ k"
proof (induction k)
  case (Suc k)
  have "y mod 256 ^ Suc k = 256 ^ k * (y div 256 ^ k mod 256) + y mod 256 ^ k"
    using zmod_zmult2_eq [of 256 y "256 ^ k"] by (simp add: mult.commute)
  then show ?case
    by (simp add: be_int_Cons Suc.IH uint_word_of_int)
qed (simp add: be_int_def)

lemma byte_of_double: "(ucast (drop_bit (8 * i) x) :: 8 word) = word_of_int (uint (x :: double) div 256 ^ i)"
proof -
  have "uint (drop_bit (8 * i) x) = drop_bit (8 * i) (take_bit LENGTH(64) (uint x))"
    by (rule unsigned_drop_bit_eq)
  also have "take_bit LENGTH(64) (uint x) = uint x"
    by (rule take_bit_int_eq_self) (simp_all only: unsigned_less unsigned_greater_eq)
  also have "drop_bit (8 * i) (uint x) = uint x div 256 ^ i"
    by (simp add: drop_bit_eq_div power_mult)
  finally have "uint (drop_bit (8 * i) x) = uint x div 256 ^ i" .
  then show ?thesis by (simp add: ucast_eq)
qed

lemma unpack_pack_d: "unpack_d (pack_d x) = Inr x"
proof -
  have "pack_d x = map (\<lambda>i. word_of_int (uint x div 256 ^ i)) (rev [0..<8])"
    by (simp add: pack_d_def byte_of_double upt_rec)
  then have "be_int (pack_d x) = uint x mod 256 ^ 8" by (simp only: be_int_digits)
  also have "\<dots> = uint x"
  proof -
    have "uint x < 2 ^ LENGTH(64)" by (rule unsigned_less)
    then show ?thesis by (simp add: mod_pos_pos_trivial)
  qed
  finally show ?thesis by (simp add: unpack_d_def pack_d_def)
qed

lemma take_echo_payload: "take 8 (echo_payload t sz) = pack_d t"
  by (simp add: echo_payload_def pack_d_def)

subsection \<open>Replies\<close>


text \<open>The answer to an echo request: the type is that of a reply, numbers and payload are the request's.\<close>

definition reply_packet :: "icmp_codes \<Rightarrow> octets \<Rightarrow> int \<Rightarrow> int \<Rightarrow> int \<Rightarrow> int \<Rightarrow> octets \<Rightarrow> exn + octets" where
  "reply_packet cs ip_part code c icmp_id seq payload =
     (case pack_icmp \<lparr>ih_type = ECHO_REPLY cs, ih_code = code, ih_checksum = c, ih_id = icmp_id, ih_seq = seq\<rparr> of
        Inl e \<Rightarrow> Inl e | Inr hdr \<Rightarrow> Inr (ip_part @ hdr @ payload))"

definition ignored :: "icmp_codes \<Rightarrow> bool \<Rightarrow> int \<Rightarrow> int \<Rightarrow> octets \<Rightarrow> bool" where
  "ignored cs ip own seq d \<longleftrightarrow>
     (case split_packet ip d of Inl e \<Rightarrow> False | Inr (h, payload) \<Rightarrow> verdict cs own seq h = Ignored)"

lemma first_decisive_ignored:
  "\<forall>d \<in> set ds. ignored cs ip own seq d \<Longrightarrow> first_decisive cs ip own seq (ds @ es) = first_decisive cs ip own seq es"
  by (induction ds) (auto simp: ignored_def split: sum.splits prod.splits)

lemma split_reply:
  assumes "reply_packet cs ip_part code c icmp_id seq payload = Inr d"
    and "length ip_part = (if ip then 20 else 0)"
  shows "split_packet ip d = Inr (\<lparr>ih_type = ECHO_REPLY cs, ih_code = code, ih_checksum = c,
    ih_id = icmp_id, ih_seq = seq\<rparr>, payload)"
proof -
  obtain hdr where hdr: "pack_icmp \<lparr>ih_type = ECHO_REPLY cs, ih_code = code, ih_checksum = c,
      ih_id = icmp_id, ih_seq = seq\<rparr> = Inr hdr" and d: "d = ip_part @ hdr @ payload"
    using assms(1) by (auto simp: reply_packet_def split: sum.splits)
  have "length hdr = 8" by (rule length_pack_icmp [OF hdr])
  with read_pack_icmp [OF hdr] assms(2) show ?thesis
    by (auto simp: split_packet_def d read_ip_header_def)
qed

text \<open>The reply to the own request is the one that is measured, whatever ignored packets
  come before it and whatever comes after it, and the time found in it is the time of the
  request; but a process whose number happens to be 0 ignores its own replies too.\<close>

theorem own_reply_measured:
  assumes "ECHO_REPLY cs \<notin> {TIME_EXCEEDED cs, DESTINATION_UNREACHABLE cs, ECHO_REQUEST cs}"
    and "reply_packet cs ip_part code c icmp_id seq (echo_payload t sz) = Inr d"
    and "length ip_part = (if ip then 20 else 0)"
    and "\<forall>x \<in> set before. ignored cs ip icmp_id seq x"
  shows "first_decisive cs ip icmp_id seq (before @ d # after) =
    (if icmp_id = 0 then first_decisive cs ip icmp_id seq after else Inr t)"
  using assms(1) split_reply [OF assms(2,3)]
  by (auto simp: first_decisive_ignored [OF assms(4)] verdict_def take_echo_payload unpack_pack_d)

subsection \<open>The tries\<close>

text \<open>The world after \<open>k\<close> tries, and how the next one ends.\<close>

definition after_tries :: "nat \<Rightarrow> ('w, 'a) prog \<Rightarrow> 'w \<Rightarrow> 'w" where
  "after_tries k m w = ((\<lambda>w. snd (m w)) ^^ k) w"

definition try_ends :: "nat \<Rightarrow> ('w, 'a) prog \<Rightarrow> 'w \<Rightarrow> exn + 'a" where
  "try_ends k m w = fst (m (after_tries k m w))"

lemma after_tries_Suc: "after_tries (Suc k) m w = after_tries k m (snd (m w))"
  by (simp add: after_tries_def funpow_Suc_right del: funpow.simps)

lemma after_tries_0: "after_tries 0 m w = w"
  by (simp add: after_tries_def)

lemma try_ends_Suc: "try_ends (Suc k) m w = try_ends k m (snd (m w))"
  by (simp add: try_ends_def after_tries_Suc)

lemma try_ends_0: "try_ends 0 m w = fst (m w)"
  by (simp add: try_ends_def after_tries_def)

definition given_up :: "(string \<Rightarrow> bool) \<Rightarrow> exn + 'a \<Rightarrow> bool" where
  "given_up sub r \<longleftrightarrow> (\<exists>e. r = Inl e \<and> caught sub e)"

lemma ping_tries_stops:
  assumes "k < n" and "\<forall>i < k. given_up sub (try_ends i m w)" and "\<not> given_up sub (try_ends k m w)"
  shows "ping_tries x sub n m w = (map_sum id Some (try_ends k m w), after_tries (Suc k) m w)"
  using assms
proof (induction n arbitrary: k w)
  case (Suc n)
  obtain r w' where m: "m w = (r, w')" by (cases "m w")
  show ?case
  proof (cases k)
    case 0
    with Suc.prems(3) m show ?thesis
      by (cases r) (auto simp: try_ends_0 given_up_def tryP_def bindP_def after_tries_def)
  next
    case (Suc j)
    from Suc.prems(2) Suc m have "given_up sub r" by (metis try_ends_0 fst_conv zero_less_Suc)
    then obtain e where e: "r = Inl e" "caught sub e" by (auto simp: given_up_def)
    have j: "j < n" "0 < n" using Suc.prems(1) Suc by auto
    have "\<forall>i < j. given_up sub (try_ends i m w')"
      using Suc.prems(2) Suc m try_ends_Suc [of _ m w] by fastforce
    moreover have "\<not> given_up sub (try_ends j m w')"
      using Suc.prems(3) Suc m by (simp add: try_ends_Suc)
    ultimately show ?thesis
      using Suc.IH [of j w'] j e m Suc by (simp add: tryP_def bindP_def try_ends_Suc after_tries_Suc)
  qed
qed simp

lemma raise_if_then: "thenP (raise_if x e) (ret None) w = (if x then (Inl e, w) else (Inr None, w))"
  by (simp add: raise_if_def thenP_def bindP_def)

lemma ping_tries_none:
  assumes "0 < n" and "\<forall>i < n. given_up sub (try_ends i m w)"
  shows "ping_tries x sub n m w =
    (if x then map_sum id Some (try_ends (n - 1) m w) else Inr None, after_tries n m w)"
  using assms
proof (induction n arbitrary: w)
  case (Suc n)
  obtain r w' where m: "m w = (r, w')" by (cases "m w")
  from Suc.prems(2) m have "given_up sub r" by (metis try_ends_0 fst_conv zero_less_Suc)
  then obtain e where e: "r = Inl e" "caught sub e" by (auto simp: given_up_def)
  have "\<forall>i < n. given_up sub (try_ends i m w')"
    using Suc.prems(2) m try_ends_Suc [of _ m w] by fastforce
  then show ?case
    using Suc.IH [of w'] e m
    by (cases n) (auto simp: raise_if_then tryP_def bindP_def try_ends_0 try_ends_Suc after_tries_Suc after_tries_0)
qed simp

text \<open>\<open>ping\<close> tries at most four times: it stops at the first try that does not end in a
  caught exception, with its outcome; after four caught ones it returns \<open>None\<close>, or
  raises the last if exceptions are asked for.\<close>

theorem four_tries:
  "(\<forall>k < 4. (\<forall>i < k. given_up sub (try_ends i m w)) \<and> \<not> given_up sub (try_ends k m w) \<longrightarrow>
      ping_tries x sub 4 m w = (map_sum id Some (try_ends k m w), after_tries (Suc k) m w)) \<and>
   ((\<forall>i < 4. given_up sub (try_ends i m w)) \<longrightarrow>
      ping_tries x sub 4 m w = (if x then map_sum id Some (try_ends 3 m w) else Inr None, after_tries 4 m w))"
  using ping_tries_stops [of _ 4 sub m w x] ping_tries_none [of 4 sub m w x] by simp

text \<open>A sequence number above 16 bits, which \<open>verbose_ping\<close> reaches when it counts
  without end, is never sent: the exception of \<open>struct\<close> ends the call.\<close>

theorem sequence_overflow:
  assumes "65535 < seq"
  shows "fst (send_one_ping h cs api dest icmp_id seq sz w) \<in> {Inl StructError, Inl (errors ''HostUnknown'')} \<and>
    snd (send_one_ping h cs api dest icmp_id seq sz w) = snd (pg_resolve api dest w)"
proof -
  have q: "pack_H seq = Inl StructError" using assms by (simp add: pack_H_def)
  have B: "pack_B x = Inl e \<Longrightarrow> e = StructError" and H: "pack_H x = Inl e \<Longrightarrow> e = StructError" for x e
    by (auto simp: pack_B_def pack_H_def split: if_splits)
  have "pack_icmp (echo_header cs 0 icmp_id seq) = Inl StructError"
    unfolding pack_icmp_def echo_header_def
    by (cases "pack_B (ECHO_REQUEST cs)"; cases "pack_B (ICMP_DEFAULT_CODE cs)"; cases "pack_H 0"; cases "pack_H icmp_id")
      (auto simp: q dest: B H)
  then show ?thesis
    by (simp add: send_one_ping_def split: prod.splits option.splits)
qed

subsection \<open>Witnesses\<close>

definition linux :: ping_host where
  "linux = \<lparr>h_posix = True, h_darwin = False, h_little = True, h_pid = 4242, h_tid = 4243\<rparr>"

definition rfc792 :: icmp_codes where
  "rfc792 = \<lparr>ECHO_REPLY = 0, ECHO_REQUEST = 8, TIME_EXCEEDED = 11, DESTINATION_UNREACHABLE = 3,
     TTL_EXPIRED = 0, DESTINATION_HOST_UNREACHABLE = 1, ICMP_DEFAULT_CODE = 0\<rparr>"

definition plain_floats :: float_ops where
  "plain_floats = \<lparr>fl_int = word_of_int, fl_add = (+), fl_sub = (-), fl_mul = (*),
     fl_pos = (\<lambda>x. 0 < x), fl_trunc = (\<lambda>x. Inr (sint x)), fl_ctime = (\<lambda>x. Inr [])\<rparr>"

definition inbox :: "octets list ping_api" where
  "inbox = \<lparr>pg_raw = (\<lambda>q. (Opened, q)), pg_dgram = (\<lambda>q. (Inr (), q)),
     pg_get_ttl = (\<lambda>l q. (Inr 64, q)), pg_set_ttl = (\<lambda>l n q. (Inr (), q)),
     pg_bind_device = (\<lambda>d q. (Inr (), q)), pg_bind = (\<lambda>a q. (Inr (), q)),
     pg_resolve = (\<lambda>d q. (Some d, q)), pg_time = (\<lambda>q. (0, q)),
     pg_sendto = (\<lambda>p a q. (Inr (), q)), pg_select = (\<lambda>t q. (Inr (q \<noteq> []), q)),
     pg_recvfrom = (\<lambda>n q. case q of [] \<Rightarrow> (Inl (OSError []), q) | d # ds \<Rightarrow> (Inr d, ds)),
     pg_port = (\<lambda>q. 9), pg_sleep = (\<lambda>x q. q), pg_print = (\<lambda>t q. q)\<rparr>"

lemma queue_inbox: "queue_net inbox (\<lambda>q. q) 9"
  by (simp add: queue_net_def inbox_def)

lemma plain_formats: "formats_times plain_floats"
  by (simp add: formats_times_def plain_floats_def)

definition demo_reply :: "int \<Rightarrow> octets" where
  "demo_reply i = replicate 20 0 @ (case pack_icmp \<lparr>ih_type = 0, ih_code = 0, ih_checksum = 0, ih_id = i, ih_seq = 1\<rparr> of
     Inl e \<Rightarrow> [] | Inr hdr \<Rightarrow> hdr @ echo_payload 5 8)"

lemma demo_reply_packet:
  "reply_packet rfc792 (replicate 20 0) 0 0 i 1 (echo_payload 5 8) = Inr (demo_reply i)"
  if "i = 7 \<or> i = 0" for i
  using that
  by (auto simp: reply_packet_def demo_reply_def rfc792_def pack_icmp_def pack_B_def pack_H_def)

theorem packet_checksum_witness:
  "\<exists>packet. echo_packet linux rfc792 [1, 2, 3] 7 1 = Inr packet \<and> checksum packet = 0"
proof -
  obtain hdr where hdr: "pack_icmp (echo_header rfc792 0 7 1) = Inr hdr"
    by (simp add: pack_icmp_def echo_header_def rfc792_def pack_B_def pack_H_def)
  have n: "0 \<le> htons linux c \<and> htons linux c \<le> 65535" if "0 \<le> c" "c \<le> 65535" for c
    using htons_range [OF that] by simp
  obtain packet where packet: "echo_packet linux rfc792 [1, 2, 3] 7 1 = Inr packet"
    using n checksum_range hdr
    by (auto simp: echo_packet_def pack_icmp_def echo_header_def rfc792_def pack_B_def pack_H_def)
  show ?thesis
    using packet_checksum [OF hdr packet] packet by (simp add: linux_def)
qed


theorem own_reply_measured_witness:
  "first_decisive rfc792 True 7 1 ([demo_reply 0] @ demo_reply 7 # []) = Inr 5"
proof -
  have "ignored rfc792 True 7 1 (demo_reply 0)"
    using split_reply [OF demo_reply_packet, of 0 True]
    by (simp add: ignored_def verdict_def rfc792_def)
  moreover have "ECHO_REPLY rfc792 \<notin> {TIME_EXCEEDED rfc792, DESTINATION_UNREACHABLE rfc792, ECHO_REQUEST rfc792}"
    by (simp add: rfc792_def)
  ultimately show ?thesis
    using own_reply_measured [OF _ demo_reply_packet, of 7 True "[demo_reply 0]" "[]"] by simp
qed

definition third_time :: "(nat, double) prog" where
  "third_time = (\<lambda>w. if w = 2 then (Inr 5, Suc w) else (Inl (errors ''Timeout''), Suc w))"

theorem four_tries_witness:
  "ping_tries False (\<lambda>n. False) 4 third_time 0 = (Inr (Some 5), 3)"
proof -
  have s: "try_ends 0 third_time 0 = Inl (errors ''Timeout'')" "try_ends 1 third_time 0 = Inl (errors ''Timeout'')"
    "try_ends 2 third_time 0 = Inr 5" "after_tries 3 third_time 0 = 3"
    by (simp_all add: try_ends_def after_tries_def third_time_def eval_nat_numeral)
  have "\<forall>i < 2. given_up (\<lambda>n. False) (try_ends i third_time 0)"
    using s by (auto simp: given_up_def caught_def errors_def less_2_cases_iff)
  moreover have "\<not> given_up (\<lambda>n. False) (try_ends 2 third_time 0)"
    using s by (simp add: given_up_def)
  ultimately show ?thesis
    using four_tries [of "\<lambda>n. False" third_time 0 False, THEN conjunct1, rule_format, of 2] s by simp
qed

theorem sequence_overflow_witness:
  "fst (send_one_ping linux rfc792 inbox ''10.0.0.1'' 7 65536 56 []) = Inl StructError"
  using sequence_overflow [of 65536 linux rfc792 inbox "''10.0.0.1''" 7 56 "[]"]
  by (simp add: send_one_ping_def inbox_def rfc792_def pack_icmp_def echo_header_def pack_B_def pack_H_def)

end
