(* ===== verification/FileInvariant.thy ===== *)
theory FileInvariant
  imports Races
begin

section \<open>What never happens to the configuration file\<close>

text \<open>
  Every part of the program writes \<open>config.conf\<close>: each construction of a loader, the
  tasks, the manager when it reloads a profile. The locale \<open>file_guard\<close> states what a
  property of configurations needs so that no operation destroys it in the file, and
  carries the proofs through all of them, up to the steps of the running program; it is
  instantiated with being loadable and agreeing with a given configuration in every
  option that the program is not meant to change.
\<close>

subsection \<open>Invariants and results together\<close>

text \<open>
  \<open>secures I P m\<close>: from a state with \<open>I\<close>, \<open>m\<close> ends in one, whether it returns or raises,
  and what it returns satisfies \<open>P\<close>.
\<close>

named_theorems secures_intros

definition secures :: "('s \<Rightarrow> bool) \<Rightarrow> ('a \<Rightarrow> bool) \<Rightarrow> ('s, 'a) prog \<Rightarrow> bool" where
  "secures I P m \<longleftrightarrow> (\<forall>s r s'. I s \<longrightarrow> m s = (r, s') \<longrightarrow> I s' \<and> (\<forall>x. r = Inr x \<longrightarrow> P x))"

lemma securesD: "secures I P m \<Longrightarrow> I s \<Longrightarrow> m s = (r, s') \<Longrightarrow> I s'"
  unfolding secures_def by blast

lemma securesD2: "secures I P m \<Longrightarrow> I s \<Longrightarrow> m s = (Inr x, s') \<Longrightarrow> I s' \<and> P x"
  unfolding secures_def by blast

lemma secures_keeps: "secures I P m \<Longrightarrow> keeps I m"
  unfolding keeps_def using securesD [of I P m] by (metis surjective_pairing)

lemma keeps_secures: "keeps I m \<Longrightarrow> secures I (\<lambda>_. True) m"
  by (auto simp: secures_def dest: keepsD)

lemma secures_weaken: "secures I Q m \<Longrightarrow> (\<And>x. Q x \<Longrightarrow> P x) \<Longrightarrow> secures I P m"
  unfolding secures_def by blast

lemma secures_ret [secures_intros]: "P x \<Longrightarrow> secures I P (ret x)"
  by (simp add: secures_def)

lemma secures_ret_any: "secures I (\<lambda>_. True) (ret x)"
  by (rule secures_ret) simp

lemma secures_raise [secures_intros]: "secures I P (raise e)"
  by (simp add: secures_def)

lemma secures_of_sum: "(\<And>x. r = Inr x \<Longrightarrow> P x) \<Longrightarrow> secures I P (of_sum r)"
  by (simp add: secures_def)

lemma secures_bindP [secures_intros]:
  assumes "secures I Q m" and "\<And>x. Q x \<Longrightarrow> secures I P (f x)"
  shows "secures I P (bindP m f)"
  unfolding secures_def
proof (intro allI impI)
  fix s r s' assume s: "I s" and b: "bindP m f s = (r, s')"
  obtain q t where m: "m s = (q, t)" by (cases "m s")
  show "I s' \<and> (\<forall>x. r = Inr x \<longrightarrow> P x)"
  proof (cases q)
    case (Inl e)
    then have "r = Inl e" "s' = t" using b m by simp_all
    then show ?thesis using securesD [OF assms(1) s m] by simp
  next
    case (Inr x)
    have "I t" "Q x" using securesD2 [OF assms(1) s] m Inr by blast+
    then show ?thesis using assms(2) [of x] b m Inr unfolding secures_def by simp
  qed
qed

lemma secures_thenP [secures_intros]: "secures I Q m \<Longrightarrow> secures I P n \<Longrightarrow> secures I P (thenP m n)"
  unfolding thenP_def by (rule secures_bindP)

lemma secures_tryP [secures_intros]:
  assumes "secures I P m" and "\<And>e. secures I P (h e)"
  shows "secures I P (tryP m h)"
  unfolding secures_def
proof (intro allI impI)
  fix s r s' assume s: "I s" and b: "tryP m h s = (r, s')"
  obtain q t where m: "m s = (q, t)" by (cases "m s")
  have t: "I t" by (rule securesD [OF assms(1) s m])
  show "I s' \<and> (\<forall>x. r = Inr x \<longrightarrow> P x)"
  proof (cases q)
    case (Inl e)
    then have "h e t = (r, s')" using b m by simp
    then show ?thesis using assms(2) [of e] t unfolding secures_def by simp
  next
    case (Inr x)
    then have "r = Inr x" "s' = t" using b m by simp_all
    then show ?thesis using securesD2 [OF assms(1) s] m Inr by simp
  qed
qed

lemma secures_attempt [secures_intros]: "secures I Q m \<Longrightarrow> secures I (\<lambda>_. True) (attempt m)"
  by (rule keeps_secures [OF keeps_attempt]) (rule secures_keeps)

lemma secures_attempts [secures_intros]: "secures I Q m \<Longrightarrow> secures I (\<lambda>_. True) (attempts n m)"
  by (rule keeps_secures [OF keeps_attempts]) (rule secures_keeps)

lemma secures_for_each [secures_intros]:
  "(\<And>x. x \<in> set xs \<Longrightarrow> secures I Q (m x)) \<Longrightarrow> secures I (\<lambda>_. True) (for_each xs m)"
  by (rule keeps_secures [OF keeps_for_each]) (rule secures_keeps)

lemma secures_foldP:
  assumes "\<And>x b. x \<in> set xs \<Longrightarrow> P b \<Longrightarrow> secures I P (m x b)" and "P b"
  shows "secures I P (foldP m xs b)"
  using assms
proof (induction xs arbitrary: b)
  case (Cons x xs)
  then show ?case by (auto intro!: secures_bindP [where Q = P])
qed (simp add: secures_ret)

lemma secures_if [secures_intros]:
  "(b \<Longrightarrow> secures I P m) \<Longrightarrow> (\<not> b \<Longrightarrow> secures I P n) \<Longrightarrow> secures I P (if b then m else n)"
  by simp

lemma secures_option_case [secures_intros]:
  "(x = None \<Longrightarrow> secures I P m) \<Longrightarrow> (\<And>y. x = Some y \<Longrightarrow> secures I P (f y)) \<Longrightarrow>
     secures I P (case x of None \<Rightarrow> m | Some y \<Rightarrow> f y)"
  by (cases x) simp_all

lemma secures_prod_case [secures_intros]:
  "(\<And>a b. x = (a, b) \<Longrightarrow> secures I P (f a b)) \<Longrightarrow> secures I P (case x of (a, b) \<Rightarrow> f a b)"
  by (cases x) simp

lemma secures_run_ini: "(\<And>x c'. m c = (Inr x, c') \<Longrightarrow> P (x, c')) \<Longrightarrow> secures I P (run_ini m c)"
  by (auto simp: secures_def run_ini_def split: prod.splits sum.splits)

text \<open>Small computations that touch no state.\<close>

lemma secures_attr [secures_intros]: "secures I (\<lambda>v. x = Some v) (attr k x)"
  by (simp add: attr_def secures_raise secures_ret split: option.split)

lemma secures_key_of [secures_intros]: "secures I (\<lambda>v. x = Some v) (key_of k x)"
  by (simp add: key_of_def secures_raise secures_ret split: option.split)

lemma secures_index_list [secures_intros]: "secures I (\<lambda>v. v \<in> set xs) (index_list n xs)"
  by (simp add: index_list_def secures_raise secures_ret)

lemma secures_any_sum [secures_intros]: "secures I (\<lambda>_. True) (of_sum r)"
  by (rule secures_of_sum) simp

subsection \<open>What the file holds\<close>

text \<open>The options that the program sets, and the values that can be set without harm.\<close>

definition changeable :: "string list" where
  "changeable = [''order'', ''user'', ''pass'', ''whitelist'', ''region'', ''instanceid'']"

definition tame :: "string \<Rightarrow> bool" where
  "tame v \<longleftrightarrow> wf_val v \<and> CHR ''%'' \<notin> set v"

definition file_is :: "(ini \<Rightarrow> bool) \<Rightarrow> 'w sys \<Rightarrow> bool" where
  "file_is good s \<longleftrightarrow> (\<exists>c. read_conf empty_ini s = (Inr c, s) \<and> good c)"

lemma file_is_frame: "file_is good s \<Longrightarrow> files s' conf_path = files s conf_path \<Longrightarrow> file_is good s'"
  by (auto simp: file_is_def read_conf_def split: option.splits)

lemma keeps_frame_file: "(\<And>x. keeps (frame conf_path x) m) \<Longrightarrow> keeps (file_is good) m"
  unfolding keeps_def using file_is_frame by (metis frame_def)

lemma file_is_write: "good c \<Longrightarrow> wf_ini c \<Longrightarrow> file_is good (s\<lparr>files := (files s)(conf_path := Some (ini_write c))\<rparr>)"
  by (simp add: file_is_def read_conf_def ini_read_write)

lemma tame_simps [simp]: "tame []" "tame (str_nat n)" "tame ''us-east-2''"
proof -
  show "tame (str_nat n)" by (simp add: tame_def)
  show "tame []" "tame ''us-east-2''" by code_simp+
qed

lemma changeable_keys [simp]:
  "''order'' \<in> set changeable" "''user'' \<in> set changeable" "''pass'' \<in> set changeable"
  "''whitelist'' \<in> set changeable" "''region'' \<in> set changeable" "''instanceid'' \<in> set changeable"
  by (simp_all add: changeable_def)

text \<open>Jobs whose arguments are tame, and a cloud whose instances have tame names.\<close>

definition tame_args :: "task_args \<Rightarrow> bool" where
  "tame_args a \<longleftrightarrow> \<not> is_default (ta_config_name a) \<and>
     (\<forall>v \<in> set [ta_new_region a, ta_new_whitelist a, ta_new_user a, ta_new_pass a]. pred_option tame v)"

definition tame_cloud :: "'w cloud_api \<Rightarrow> bool" where
  "tame_cloud api \<longleftrightarrow>
     (\<forall>cr x w r w'. c_instances api cr x w = (Inr (Some r), w') \<longrightarrow> (\<forall>is \<in> set r. \<forall>i \<in> set is. tame (in_id i))) \<and>
     (\<forall>cr im ty k w r w'. c_create api cr im ty k w = (Inr r, w') \<longrightarrow> (\<forall>i \<in> set r. tame i))"

lemma secures_ext_file [secures_intros]: "secures (file_is good) (\<lambda>_. True) (ext_op f)"
  by (intro keeps_secures keeps_frame_file keeps_intros)

lemma secures_ext_value: "(\<And>w x w'. f w = (Inr x, w') \<Longrightarrow> P x) \<Longrightarrow> secures (file_is good) P (ext_op f)"
  using secures_ext_file [of good f]
  by (auto simp: secures_def ext_op_def split: prod.splits)

lemma secures_now [secures_intros]: "secures (file_is good) (\<lambda>_. True) (now os)"
  by (intro keeps_secures keeps_frame_file keeps_now) simp

lemma secures_read_text [secures_intros]: "secures (file_is good) (\<lambda>_. True) (read_text p)"
  by (simp add: secures_def read_text_def split: option.splits)

lemma secures_write_other: "conf_path \<noteq> p \<Longrightarrow> secures (file_is good) (\<lambda>_. True) (write_file os p t)"
  by (intro keeps_secures keeps_frame_file keeps_intros)

declare keeps_on_sys [keeps_intros del]

text \<open>What writes other files only leaves it alone.\<close>

lemma file_is_ext [simp]: "file_is good (s\<lparr>ext := w\<rparr>) = file_is good s"
  by (auto elim: file_is_frame)

lemma file_is_other [simp]: "conf_path \<noteq> p \<Longrightarrow> file_is good (s\<lparr>files := (files s)(p := t)\<rparr>) = file_is good s"
  by (auto elim: file_is_frame)

lemma keeps_read_text [keeps_intros]: "keeps (file_is good) (read_text p)"
  by (rule secures_keeps [OF secures_read_text])

lemma other_paths [simp]:
  "conf_path \<noteq> app_path n" "conf_path \<noteq> opt_path order name @ f" "conf_path \<noteq> near_path order name"
  "conf_path \<noteq> CHR ''p'' # t"
  by (simp_all add: conf_path_def app_path_def opt_path_def near_path_def)

subsection \<open>The contract, and the loader under it\<close>

locale file_guard =
  fixes good :: "ini \<Rightarrow> bool"
  assumes ready: "good c \<Longrightarrow> conf_ready c \<and> wf_ini c"
    and set_good: "good c \<Longrightarrow> proper_section c x \<Longrightarrow> k \<in> set changeable \<Longrightarrow> tame v \<Longrightarrow> good (set_raw x k v c)"
    and default_good: "good c \<Longrightarrow> proper_section c x \<Longrightarrow> kv \<in> set aws_defaults \<Longrightarrow> good (add_default x kv c)"
    and merged_good: "good c \<Longrightarrow> good t \<Longrightarrow> proper_section c x \<Longrightarrow> good (merged c x t)"
begin

abbreviation guarded :: "'w sys \<Rightarrow> bool" where
  "guarded \<equiv> file_is good"

lemma write_good [secures_intros]: "good c \<Longrightarrow> secures guarded (\<lambda>_. True) (write_file os conf_path (ini_write c))"
  using ready [of c]
  by (intro keeps_secures keeps_write_file file_is_write) (auto intro: file_is_frame)

lemma read_good [secures_intros]: "secures guarded good (read_conf empty_ini)"
  by (auto simp: secures_def file_is_def)

lemma proper_good: "\<not> is_default x \<Longrightarrow> has_section c x \<Longrightarrow> proper_section c x"
  by (simp add: proper_section_def)

lemma cset_good [secures_intros]:
  assumes "good c" and "\<not> is_default x" and "py_lower k \<in> set changeable" and "pred_option tame v"
  shows "secures I (\<lambda>(_, c'). good c') (run_ini (cset x k v) c)"
proof (rule secures_run_ini)
  fix u c' assume "cset x k v c = (Inr u, c')"
  then obtain w where w: "v = Some w" "has_section c x" "c' = set_raw x (py_lower k) w c"
    using assms(2) by (auto simp: cset_def ini_set_eq_Inr split: sum.splits)
  then show "case (u, c') of (_, c') \<Rightarrow> good c'"
    using set_good [OF assms(1) proper_good [OF assms(2)] assms(3)] assms(4) by simp
qed

lemma add_defaults_good: "good c \<Longrightarrow> proper_section c x \<Longrightarrow> good (add_defaults x c)"
proof -
  have "set kvs \<subseteq> set aws_defaults \<Longrightarrow> good c \<Longrightarrow> proper_section c x \<Longrightarrow> good (fold (add_default x) kvs c)" for kvs
    by (induction kvs arbitrary: c) (auto simp: proper_add_default default_good)
  then show "good c \<Longrightarrow> proper_section c x \<Longrightarrow> good (add_defaults x c)"
    by (simp add: add_defaults_def)
qed

lemma load_profile_good [secures_intros]:
  assumes "good c" and "\<not> is_default x"
  shows "secures I (\<lambda>(_, c'). good c') (run_ini (load_aws_config x) c)"
proof (rule secures_run_ini)
  fix a c' assume l: "load_aws_config x c = (Inr a, c')"
  then have "has_section c x" using load_aws_config_missing [OF _ assms(2)] by fastforce
  then have p: "proper_section c x" by (rule proper_good [OF assms(2)])
  then show "case (a, c') of (_, c') \<Rightarrow> good c'"
    using load_aws_config_eq(1) [OF p l] add_defaults_good [OF assms(1)] by simp
qed

lemma load_api_good [secures_intros]: "good c \<Longrightarrow> secures I (\<lambda>(_, c'). good c') (run_ini load_api_config c)"
  by (rule secures_run_ini) (auto dest: load_api_state)

lemma load_all_good [secures_intros]:
  assumes "good c"
  shows "secures guarded (\<lambda>(_, c'). good c') (load_all_aws_config os c)"
proof -
  have "good c \<Longrightarrow> \<forall>x \<in> set names. \<not> is_default x \<Longrightarrow>
      secures guarded (\<lambda>(_, c'). good c') (load_all_loop os n names c)" for n names
  proof (induction names arbitrary: n c)
    case (Cons x xs)
    then have "secures guarded (\<lambda>(_, c'). good c') (load_all_loop os m xs c1)" if "good c1" for m c1
      using that by simp
    note rest = this
    have "secures guarded good (reset_aws_config_order os x c1)" "secures guarded good (reorder_aws_config os x m c1)"
      if "good c1" for m c1
      unfolding reset_aws_config_order_def reorder_aws_config_def
      using that Cons.prems by - (rule secures_intros | fastforce)+
    then show ?case
      using Cons.prems by (auto intro!: secures_bindP [where Q = good] secures_bindP [OF load_profile_good] secures_bindP [OF rest] rest secures_prod_case secures_ret)
  qed (simp add: secures_ret)
  moreover have "\<forall>x \<in> set (dict_keys (sections c)). \<not> is_default x"
    using conf_ready_profiles [of c] ready [OF assms] unfolding proper_section_def by blast
  ultimately show ?thesis using assms by (simp add: load_all_aws_config_def)
qed

lemma ConfigLoader_good [secures_intros]: "secures guarded (\<lambda>ld. good (config ld)) (ConfigLoader os)"
  unfolding ConfigLoader_def load_into_def by (rule secures_intros | fastforce)+

lemma set_value_good [secures_intros]:
  "good (config ld) \<Longrightarrow> \<not> is_default x \<Longrightarrow> py_lower k \<in> set changeable \<Longrightarrow> pred_option tame v \<Longrightarrow>
     secures I (\<lambda>ld. good (config ld)) (set_value x k v ld)"
  unfolding set_value_def by (rule secures_intros | fastforce)+

lemma load_aws_good [secures_intros]:
  "good (config ld) \<Longrightarrow> \<not> is_default x \<Longrightarrow> secures I (\<lambda>(_, ld). good (config ld)) (load_aws x ld)"
  unfolding load_aws_def by (rule secures_intros | fastforce)+

lemma write_changes_good [secures_intros]:
  assumes "good (config ld)" and "\<not> is_default x"
  shows "secures guarded (\<lambda>_. True) (write_changes os ld x)"
proof -
  have m: "secures guarded good (of_sum (merge_section (config ld) x t) :: ('a sys, ini) prog)" if "good t" for t
  proof (rule secures_of_sum)
    fix m assume m: "merge_section (config ld) x t = Inr m"
    then have "has_section (config ld) x" using assms(2) by (auto simp: merge_section_def is_default_def split: if_splits)
    then have p: "proper_section (config ld) x" by (rule proper_good [OF assms(2)])
    then show "good m"
      using merge_section_plain [OF p] ready [OF assms(1)] m merged_good [OF assms(1) that p]
      by (simp add: conf_ready_def plain_ini_section)
  qed
  show ?thesis
    unfolding write_changes_def
    by (rule secures_bindP [OF read_good]) (rule secures_bindP [OF m write_good])
qed

lemma loader_region_good [secures_intros]:
  "good (config ld) \<Longrightarrow> \<not> is_default x \<Longrightarrow> tame r \<Longrightarrow> secures guarded (\<lambda>_. True) (loader_change_region os x r ld)"
  unfolding loader_change_region_def by (rule secures_intros | fastforce)+

subsection \<open>The firewall and the generated files\<close>

lemma keeps_ConfigLoader [keeps_intros]: "keeps guarded (ConfigLoader os)"
  by (rule secures_keeps [OF ConfigLoader_good])

lemma keeps_install_firewall [keeps_intros]: "keeps guarded (install_firewall os ufw name)"
  unfolding install_firewall_def mk_firewall_def delete_rules_def apply_whitelist_def run_cmd_def Let_def
  by (intro keeps_intros) simp_all

lemma keeps_3proxy [keeps_intros]: "keeps guarded (generate_3proxy_config os name ld)"
  unfolding generate_3proxy_config_def Let_def by (intro keeps_intros) simp_all

lemma keeps_shadowsocks [keeps_intros]: "keeps guarded (generate_shadowsocks_config os name ld)"
  unfolding generate_shadowsocks_config_def Let_def by (intro keeps_intros) simp_all

lemma keeps_profile_config [keeps_intros]: "keeps guarded (generate_profile_config os name ip ld)"
  unfolding generate_profile_config_def Let_def by (intro keeps_intros) simp_all

lemma keeps_peer_config [keeps_intros]: "keeps guarded (generate_peer_config os ufw name ld)"
  unfolding generate_peer_config_def Let_def by (intro keeps_intros) simp_all

subsection \<open>The cloud account\<close>

abbreviation aws_good :: "string \<Rightarrow> aws \<Rightarrow> bool" where
  "aws_good name aw \<equiv> good (config (aw_loader aw)) \<and> aw_name aw = name \<and> \<not> is_default name"

lemma mk_aws_good [secures_intros]: "\<not> is_default name \<Longrightarrow> secures guarded (aws_good name) (mk_aws os name)"
  unfolding mk_aws_def by (rule secures_intros | fastforce)+

lemma connect_good [secures_intros]: "aws_good name aw \<Longrightarrow> secures guarded (aws_good name) (connect_ec2 api aw)"
  unfolding connect_ec2_def by (rule secures_intros | fastforce)+

lemma login_good [secures_intros]: "aws_good name aw \<Longrightarrow> secures guarded (aws_good name) (login api aw)"
  unfolding login_def Let_def by (rule secures_intros | fastforce)+

lemma store_good [secures_intros]:
  "aws_good name aw \<Longrightarrow> tame i \<Longrightarrow> secures guarded (aws_good name) (store_instance os i aw)"
  unfolding store_instance_def by (rule secures_intros | fastforce)+

lemma reload_good [secures_intros]: "aws_good name aw \<Longrightarrow> secures guarded (aws_good name) (reload_aws_config aw)"
  unfolding reload_aws_config_def by (rule secures_intros | fastforce)+

lemma keeps_types [keeps_intros]: "keeps guarded (more_types n api cr page)"
proof (induction n arbitrary: page)
  case 0
  show ?case by (subst more_types.simps) (auto intro!: keeps_intros split: option.split)
next
  case (Suc n)
  then show ?case by (subst more_types.simps) (auto intro!: keeps_intros split: option.split)
qed

lemma keeps_index_list [keeps_intros]: "keeps I (index_list n xs)"
  unfolding index_list_def by (intro keeps_intros)

lemma keeps_allow_all [keeps_intros]: "keeps I (has_allow_all ps)"
  by (induction ps rule: has_allow_all.induct) (auto simp del: ret_apply simp: keeps_ret intro!: keeps_intros)

lemma keeps_one_core [keeps_intros]: "keeps I (first_one_core ts)"
proof (induction ts)
  case (Cons t ts)
  then show ?case unfolding first_one_core.simps by (intro keeps_intros)
qed (simp only: first_one_core.simps keeps_ret)

lemma free_tier_good [secures_intros]: "secures guarded (\<lambda>_. True) (get_instance_type_free_tier n api aw)"
  unfolding get_instance_type_free_tier_def by (intro keeps_secures keeps_intros) simp_all

lemma group_good [secures_intros]:
  "aws_good name aw \<Longrightarrow> secures guarded (aws_good name) (create_security_group api aw)"
proof -
  have pick: "secures guarded (\<lambda>_. True) (foldP (pick_group api cr) gs g)"
    and allow: "secures guarded (\<lambda>_. True) (has_allow_all ps)" for cr gs g ps
    unfolding pick_group_def by (intro keeps_secures keeps_intros; simp)+
  show "aws_good name aw \<Longrightarrow> secures guarded (aws_good name) (create_security_group api aw)"
    unfolding create_security_group_def
    by (rule pick allow secures_ret_any secures_intros | fastforce)+
qed

lemma keypair_good [secures_intros]:
  "aws_good name aw \<Longrightarrow> secures guarded (aws_good name) (set_keypair os api aw)"
  unfolding set_keypair_def by (rule secures_ret_any secures_intros | fastforce)+

lemma images_good [secures_intros]:
  "aws_good name aw \<Longrightarrow> secures guarded (\<lambda>(_, aw). aws_good name aw) (describe_images api aw)"
  unfolding describe_images_def by (rule secures_intros | fastforce)+

lemma instances_good:
  "tame_cloud api \<Longrightarrow> secures guarded
     (\<lambda>r. \<forall>is. r = Some is \<longrightarrow> (\<forall>x \<in> set is. \<forall>i \<in> set x. tame (in_id i))) (ext_op (c_instances api cr x))"
  unfolding tame_cloud_def by (rule secures_ext_value) blast

lemma create_good:
  "tame_cloud api \<Longrightarrow> secures guarded (\<lambda>is. \<forall>i \<in> set is. tame i) (ext_op (c_create api cr im ty k))"
  unfolding tame_cloud_def by (rule secures_ext_value) blast

lemma reusable_good:
  "\<forall>x \<in> set rs. \<forall>i \<in> set x. P i \<Longrightarrow> secures I (\<lambda>r. \<forall>i. r = Some i \<longrightarrow> P i) (find_reusable rs)"
proof (induction rs)
  case (Cons r rs)
  then have "secures I (\<lambda>r. \<forall>i. r = Some i \<longrightarrow> P i) (find_reusable rs)" by simp
  then show ?case using Cons.prems by - (simp, (rule secures_intros | fastforce)+)
qed (simp add: secures_ret)

lemma launch_new_good [secures_intros]:
  "aws_good name aw \<Longrightarrow> tame_cloud api \<Longrightarrow> secures guarded (aws_good name) (launch_new n os api aw)"
  unfolding launch_new_def by (rule create_good secures_ret_any secures_intros | fastforce)+

lemma launch_good [secures_intros]:
  "aws_good name aw \<Longrightarrow> tame_cloud api \<Longrightarrow> secures guarded (aws_good name) (launch_instance n os api aw)"
  unfolding launch_instance_def by (rule instances_good reusable_good [where P = "\<lambda>i. tame (in_id i)"] secures_intros | fastforce)+

lemma terminate_good [secures_intros]:
  "aws_good name aw \<Longrightarrow> secures guarded (aws_good name) (terminate_instance os api aw)"
  unfolding terminate_instance_def by (rule secures_intros | fastforce)+

lemma keeps_address [keeps_intros]: "keeps guarded (get_instance_address api aw)"
  unfolding get_instance_address_def get_instance_info_def by (intro keeps_intros) simp_all

lemma keeps_new_address [keeps_intros]:
  "keeps guarded (disassociate_and_release_ip api aw)" "keeps guarded (allocate_and_associate_ip api aw)"
  unfolding disassociate_and_release_ip_def allocate_and_associate_ip_def drop_address_def
  by (intro keeps_intros; simp)+

lemmas address_good [secures_intros] =
  keeps_secures [OF keeps_address] keeps_secures [OF keeps_new_address(1)] keeps_secures [OF keeps_new_address(2)]

lemma new_ip_good [secures_intros]:
  "aws_good name aw \<Longrightarrow> tame_cloud api \<Longrightarrow> secures guarded (\<lambda>(_, aw). aws_good name aw) (get_new_ip n os api aw)"
  unfolding get_new_ip_def by (rule secures_intros | fastforce)+

subsection \<open>The tasks\<close>

lemmas generated_good [secures_intros] =
  keeps_secures [OF keeps_install_firewall] keeps_secures [OF keeps_3proxy] keeps_secures [OF keeps_shadowsocks]
  keeps_secures [OF keeps_profile_config] keeps_secures [OF keeps_peer_config]

lemma keeps_run_read [keeps_intros]: "keeps guarded (run_read api c cmd)"
  unfolding run_read_def by (intro keeps_intros) simp_all

lemma keeps_packages [keeps_intros]:
  "keeps guarded (is_package_installed api c pkg)" "keeps guarded (install_package api c pkg)"
  "keeps guarded (remove_package api c pkg)" "keeps guarded (copy_to_host api c l r)"
  unfolding is_package_installed_def install_package_def remove_package_def copy_to_host_def is_file_exists_def Let_def
  by (intro keeps_intros; simp)+

lemma keeps_host [keeps_intros]: "keeps guarded (prepare_host env h)"
  unfolding prepare_host_def host_login_def host_setup_def connect_def allow_ipv4_forwarding_def
    execute_script_def enable_service_def restart_service_def Let_def
  by (intro keeps_intros) simp_all

lemma keeps_services [keeps_intros]:
  "keeps guarded (restart_iprotate_service svc n)" "keeps guarded (service_stop svc n)"
  "keeps guarded (service_start svc n)" "keeps guarded (reset_all svc)" "keeps guarded (await_proxy env p w)"
  unfolding restart_iprotate_service_def service_stop_def service_start_def reset_all_def await_proxy_def get_external_ip_def
  by (intro keeps_intros; simp)+

lemmas services_good [secures_intros] =
  keeps_secures [OF keeps_host] keeps_secures [OF keeps_services(1)] keeps_secures [OF keeps_services(2)]
  keeps_secures [OF keeps_services(3)] keeps_secures [OF keeps_services(5)]

lemma task_body_good:
  "secures guarded (\<lambda>_. True) m \<Longrightarrow> secures guarded (\<lambda>_. True) (task_body m)"
  unfolding task_body_def by (rule secures_tryP) (simp_all only: secures_ret_any)

lemma mk_run_task_good [secures_intros]: "secures guarded (\<lambda>rt. good (config (rt_config rt))) (mk_run_task env)"
  unfolding mk_run_task_def by (rule secures_intros | fastforce)+

lemma region_good:
  "good (config (rt_config rt)) \<Longrightarrow> tame_cloud (e_cloud env) \<Longrightarrow> tame_args args \<Longrightarrow>
     secures guarded (\<lambda>_. True) (change_region env rt args)"
  unfolding change_region_def Let_def tame_args_def
  by (rule task_body_good) (rule secures_ret_any secures_intros | fastforce)+

lemma ip_good:
  "tame_cloud (e_cloud env) \<Longrightarrow> tame_args args \<Longrightarrow> secures guarded (\<lambda>_. True) (change_ip env rt args)"
  unfolding change_ip_def Let_def tame_args_def
  by (rule task_body_good) (rule secures_ret_any secures_intros | fastforce)+

lemma whitelist_good:
  "tame_args args \<Longrightarrow> secures guarded (\<lambda>_. True) (change_whitelist env rt args)"
  unfolding change_whitelist_def Let_def tame_args_def
  by (rule task_body_good) (rule secures_ret_any secures_intros | fastforce)+

lemma auth_good:
  "tame_args args \<Longrightarrow> secures guarded (\<lambda>_. True) (change_auth env rt args)"
  unfolding change_auth_def Let_def tame_args_def
  by (rule task_body_good) (rule secures_ret_any secures_intros | fastforce)+

lemma settings_good [secures_intros]:
  assumes "good (config ld)" and "\<not> is_default name"
  shows "secures I (\<lambda>ld. good (config ld)) (foldP (\<lambda>(k, v) ld. set_value name k (Some v) ld) reset_settings ld)"
proof -
  have "\<forall>(k, v) \<in> set reset_settings. py_lower k \<in> set changeable \<and> tame v" by code_simp
  then show ?thesis
    using assms by (intro secures_foldP) (auto intro!: set_value_good)
qed

lemma reset_good:
  "tame_cloud (e_cloud env) \<Longrightarrow> tame_args args \<Longrightarrow> secures guarded (\<lambda>_. True) (reset_profile env rt args)"
  unfolding reset_profile_def Let_def tame_args_def
  by (rule task_body_good) (rule secures_ret_any secures_intros | fastforce)+

lemma keeps_run_job:
  assumes "tame_cloud (e_cloud env)" and "tame_args (jb_args j)"
  shows "keeps guarded (run_job env j)"
proof -
  have "secures guarded (\<lambda>_. True) (run_job env j)"
    unfolding run_job_def task_method_def
    by (rule secures_bindP [OF mk_run_task_good], intro secures_if secures_raise)
      (simp_all add: region_good ip_good whitelist_good reset_good auth_good assms)
  then show ?thesis by (rule secures_keeps)
qed

subsection \<open>The running program\<close>

abbreviation safe :: "'w server \<Rightarrow> bool" where
  "safe s \<equiv> guarded (sv_sys s)"

lemma safe_on_sys [keeps_intros]: "keeps guarded m \<Longrightarrow> keeps safe (on_sys m)"
  by (auto simp: keeps_def on_sys_def split: prod.splits)

lemma keeps_parts [keeps_intros]:
  "keeps guarded (now os)" "keeps guarded (all_profiles os)" "keeps guarded (mk_aws os n)" "keeps guarded (login api aw)"
  "keeps guarded (get_all_regions api aw)"
proof -
  show "keeps guarded (now os)" by (rule secures_keeps [OF secures_now])
  have "secures guarded (\<lambda>_. True) (all_profiles os)"
    unfolding all_profiles_def by (rule secures_ret_any secures_intros | fastforce)+
  then show "keeps guarded (all_profiles os)" by (rule secures_keeps)
  show "keeps guarded (mk_aws os n)" unfolding mk_aws_def by (intro keeps_intros)
  show "keeps guarded (login api aw)" unfolding login_def connect_ec2_def Let_def by (intro keeps_intros) simp_all
  show "keeps guarded (get_all_regions api aw)" unfolding get_all_regions_def Let_def by (intro keeps_intros) simp_all
qed

lemma safe_table [keeps_intros]: "keeps safe (set_profile n p)" "keeps safe (start_thread j)"
  unfolding set_profile_def start_thread_def by (intro keeps_intros; simp)+

lemma safe_marks [keeps_intros]:
  "keeps safe (register_profile env n)" "keeps safe (reload_profile env n)" "keeps safe (set_stop_task env n o' d)"
  "keeps safe (mark_start env j)" "keeps safe (check_task_status env n)"
proof -
  have up: "keeps safe (update_profile n f)" "keeps safe (log_task n k v)" for n f k v
    unfolding log_task_def update_profile_def by (intro keeps_intros)+
  show reg: "keeps safe (register_profile env n)"
    unfolding register_profile_def by (intro keeps_intros)
  show "keeps safe (reload_profile env n)" "keeps safe (set_stop_task env n o' d)" "keeps safe (mark_start env j)"
    unfolding reload_profile_def set_stop_task_def mark_start_def Let_def by (intro keeps_intros up)+
  show "keeps safe (check_task_status env n)"
    unfolding check_task_status_def by (intro keeps_intros reg)
qed

lemma safe_mark_end: "keeps safe (mark_end env j r)"
  unfolding mark_end_def Let_def by (intro keeps_intros)

lemma safe_with_profile [keeps_intros]:
  "(\<And>api a. keeps safe (k api a)) \<Longrightarrow> keeps safe (with_profile env rq k)"
  unfolding with_profile_def by (intro keeps_intros)

lemma safe_with_login [keeps_intros]:
  assumes "keeps safe response" and "\<And>aw. keeps safe (k aw)"
  shows "keeps safe (with_login env n response k)"
  unfolding with_login_def
proof (intro keeps_intros)
  fix r :: "exn + aws"
  show "keeps safe (case r of Inr aw1 \<Rightarrow> k aw1
     | Inl e \<Rightarrow> thenP (set_stop_task env n ''failed'' (JErr e))
           (bindP response (\<lambda>r. ret (JObj (dict_set ''message'' (JErr e) (dict_set ''status'' (JStr ''failed'') r))))))"
    using assms by (cases r) (auto intro!: keeps_intros)
qed

lemma safe_handle: "keeps safe (handle env r rq)"
  by (cases r; simp only: handle.simps handle_change_ip_def handle_reset_def handle_change_auth_def handle_change_region_def
      handle_available_region_def handle_get_config_def handle_change_whitelist_def handle_get_task_def Let_def;
      intro keeps_intros)

lemma step_safe:
  assumes "step env y z" and "\<forall>j \<in> set (pr_running y). tame_args (jb_args j)" and "tame_cloud (e_cloud env)"
    and "safe (pr_server y)"
  shows "safe (pr_server z)"
  using assms(1)
proof (rule stepE)
  fix r rq a s assume 1: "z = y\<lparr>pr_server := s\<rparr>" "handle env r rq (pr_server y) = (a, s)"
  from keepsD [OF safe_handle assms(4) 1(2)] 1(1) show ?thesis by simp
next
  fix js j ks s assume 1: "z = \<lparr>pr_server = s, pr_running = j # pr_running y\<rparr>"
    "mark_start env j ((pr_server y)\<lparr>sv_threads := js @ ks\<rparr>) = (Inr (), s)"
  have "safe ((pr_server y)\<lparr>sv_threads := js @ ks\<rparr>)" using assms(4) by simp
  from keepsD [OF safe_marks(4) this 1(2)] 1(1) show ?thesis by simp
next
  fix js j ks e s assume 1: "z = \<lparr>pr_server = s, pr_running = pr_running y\<rparr>"
    "mark_start env j ((pr_server y)\<lparr>sv_threads := js @ ks\<rparr>) = (Inl e, s)"
  have "safe ((pr_server y)\<lparr>sv_threads := js @ ks\<rparr>)" using assms(4) by simp
  from keepsD [OF safe_marks(4) this 1(2)] 1(1) show ?thesis by simp
next
  fix js j ks r s1 a s assume 1: "z = \<lparr>pr_server = s, pr_running = js @ ks\<rparr>" "pr_running y = js @ j # ks"
    "on_sys (run_job env j) (pr_server y) = (Inr r, s1)" "mark_end env j r s1 = (a, s)"
  have "tame_args (jb_args j)" using assms(2) 1(2) by simp
  from keepsD [OF safe_on_sys [OF keeps_run_job [OF assms(3) this]] assms(4) 1(3)]
  have "safe s1" .
  from keepsD [OF safe_mark_end this 1(4)] 1(1) show ?thesis by simp
next
  fix js j ks e s assume 1: "z = \<lparr>pr_server = s, pr_running = js @ ks\<rparr>" "pr_running y = js @ j # ks"
    "on_sys (run_job env j) (pr_server y) = (Inl e, s)"
  have "tame_args (jb_args j)" using assms(2) 1(2) by simp
  from keepsD [OF safe_on_sys [OF keeps_run_job [OF assms(3) this]] assms(4) 1(3)] 1(1)
  show ?thesis by simp
qed

lemma keeps_startup: "keeps guarded (startup env)"
  unfolding startup_def mk_manager_def by (intro keeps_intros)

end

subsection \<open>What is kept\<close>

text \<open>
  Loadable, writable, with the given sections, and agreeing with \<open>E\<close> in every option that
  the program is not meant to change.
\<close>

definition ini_ok :: "string list \<Rightarrow> (string \<Rightarrow> string \<Rightarrow> string option) \<Rightarrow> ini \<Rightarrow> bool" where
  "ini_ok N E c \<longleftrightarrow> conf_ready c \<and> wf_ini c \<and> dict_keys (sections c) = N \<and>
     (\<forall>x k. k \<notin> set changeable \<longrightarrow> effective c x k = E x k)"

lemma wf_key_changeable: "k \<in> set changeable \<Longrightarrow> wf_key k"
proof -
  have "list_all wf_key changeable" by code_simp
  then show "k \<in> set changeable \<Longrightarrow> wf_key k" by (simp add: list_all_iff)
qed

lemma effective_set_raw:
  "proper_section c x \<Longrightarrow> j \<noteq> k \<Longrightarrow> effective (set_raw x k v c) y j = effective c y j"
  by (simp add: effective_def ini_store.lookup_store)

lemma default_known: "(k, v) \<in> set aws_defaults \<Longrightarrow> dict_get aws_defaults k = Some v \<and> wf_key k \<and> tame v"
proof -
  have "list_all (\<lambda>(k, v). dict_get aws_defaults k = Some v \<and> wf_key k \<and> tame v) aws_defaults" by code_simp
  then show "(k, v) \<in> set aws_defaults \<Longrightarrow> dict_get aws_defaults k = Some v \<and> wf_key k \<and> tame v"
    by (auto simp: list_all_iff)
qed

lemma effective_add_default:
  "proper_section c x \<Longrightarrow> kv \<in> set aws_defaults \<Longrightarrow> effective (add_default x kv c) y j = effective c y j"
  using default_known [of "fst kv" "snd kv"] by (auto simp: effective_def visible_add_default)

lemma effective_merged:
  assumes "proper_section c x" and "effective c x k = effective t x k"
  shows "effective (merged c x t) y k = effective t y k"
  using assms by (auto simp: effective_def merged_visible split: option.splits)

lemma ini_ok_set:
  assumes "ini_ok N E c" and "proper_section c x" and "k \<in> set changeable" and "tame v"
  shows "ini_ok N E (set_raw x k v c)"
proof -
  have "effective (set_raw x k v c) y j = E y j" if "j \<notin> set changeable" for y j
    using that assms effective_set_raw [OF assms(2), of j k v y] by (auto simp: ini_ok_def)
  then show ?thesis
    using assms wf_key_changeable [OF assms(3)]
    by (simp add: ini_ok_def tame_def conf_ready_set_raw proper_wf_set section_names_set_raw proper_section_def)
qed

lemma ini_ok_default:
  assumes "ini_ok N E c" and "proper_section c x" and "kv \<in> set aws_defaults"
  shows "ini_ok N E (add_default x kv c)"
proof -
  have kv: "wf_key (fst kv)" "tame (snd kv)" using default_known [of "fst kv" "snd kv"] assms(3) by simp_all
  then have "wf_ini (add_default x kv c)" "conf_ready (add_default x kv c)"
    using assms by (simp_all add: ini_ok_def add_default_def proper_wf_set conf_ready_set_raw tame_def)
  then show ?thesis
    using assms by (simp add: ini_ok_def names_add_default effective_add_default)
qed

lemma ini_ok_merged:
  assumes "ini_ok N E c" and "ini_ok N E t" and "proper_section c x"
  shows "ini_ok N E (merged c x t)"
proof -
  have t: "has_section t x"
    using assms by (simp add: ini_ok_def proper_section_def has_section_def dict_has_iff del: list.set_map)
  have "plain_section c x" using assms(1) by (simp add: ini_ok_def conf_ready_def plain_ini_section)
  then have "conf_ready (merged c x t)" using assms t by (intro conf_ready_merged) (simp_all add: ini_ok_def)
  moreover have "effective (merged c x t) y k = E y k" if "k \<notin> set changeable" for y k
    using that assms effective_merged [OF assms(3), of k t y] by (simp add: ini_ok_def)
  ultimately show ?thesis
    using assms t by (simp add: ini_ok_def wf_merged merged_names)
qed

interpretation kept: file_guard "ini_ok N E" for N E
proof unfold_locales
  show "conf_ready c \<and> wf_ini c" if "ini_ok N E c" for c using that by (simp add: ini_ok_def)
qed (intro ini_ok_set ini_ok_default ini_ok_merged; assumption)+

text \<open>Threads and tasks whose arguments are tame.\<close>

definition calm :: "'w program \<Rightarrow> bool" where
  "calm y \<longleftrightarrow> (\<forall>j \<in> set (sv_threads (pr_server y) @ pr_running y). tame_args (jb_args j))"

text \<open>The program as \<open>startup\<close> leaves it.\<close>

definition started :: "'w sys \<Rightarrow> manager \<Rightarrow> 'w program" where
  "started s table = \<lparr>pr_server = \<lparr>sv_sys = s, sv_tasks = table, sv_threads = []\<rparr>, pr_running = []\<rparr>"


text \<open>Here the server starts, and a change of an address is requested.\<close>

lemma startup_valid:
  assumes "read_conf empty_ini s0 = (Inr c, s0)" and "conf_ready c" and "wf_ini c"
    and "startup env s0 = (Inr (table, port), s)"
  obtains d where "reads_as env d (pr_server (started s table))" and "dict_keys (sections d) = dict_keys (sections c)"
    and "\<And>x k. k \<notin> set changeable \<Longrightarrow> effective d x k = effective c x k"
proof -
  have "file_is (ini_ok (dict_keys (sections c)) (effective c)) s0"
    using assms(1-3) by (auto simp: file_is_def ini_ok_def)
  from keepsD [OF kept.keeps_startup this assms(4)] that show ?thesis
    by (auto simp: file_is_def ini_ok_def reads_as_def started_def)
qed


end
