(* ===== verification/Injection.thy ===== *)
theory Injection
  imports FileInvariant
begin

section \<open>A carriage return in a setting\<close>

text \<open>
  The writer keeps a line break inside a value by indenting the next line, but lets a
  carriage return through; the reader, which opens the file in text mode, takes it for
  the end of a line. What follows it in a password or a whitelist becomes a line of the
  file of its own. This theory shows what one such line does: the header of the section
  once more, and the file can never be loaded again.
\<close>

subsection \<open>The lines of the file\<close>

lemma universal_newlines_append: "CR \<notin> set a \<Longrightarrow> universal_newlines (a @ b) = a @ universal_newlines b"
  by (induction a) auto

lemma split_unlines_append:
  "\<forall>l \<in> set ls. LF \<notin> set l \<Longrightarrow> split_on LF (unlines ls @ t) = ls @ split_on LF t"
  by (induction ls) (simp_all add: unlines_def split_on_append)

lemma text_lines_split:
  assumes "\<forall>l \<in> set (L @ [x, y]). LF \<notin> set l \<and> CR \<notin> set l" and "y \<noteq> []"
  shows "\<exists>rest. text_lines (unlines (L @ [x @ CR # y] @ R)) = L @ [x, y] @ rest"
proof -
  obtain c z where y: "y = c # z" using assms(2) by (cases y) auto
  have "universal_newlines (CR # y @ t) = LF # universal_newlines (y @ t)" for t
    using assms(1) by (auto simp: y)
  moreover have "CR \<notin> set (unlines L @ x)" "CR \<notin> set (y @ [LF])"
    using assms(1) by (auto simp: unlines_def)
  ultimately have "universal_newlines (unlines (L @ [x @ CR # y] @ R)) =
      unlines L @ x @ LF # y @ LF # universal_newlines (unlines R)"
    using universal_newlines_append [of "unlines L @ x" "CR # y @ LF # unlines R"]
      universal_newlines_append [of "y @ [LF]" "unlines R"]
    by (simp add: unlines_append unlines_Cons)
  also have "\<dots> = unlines (L @ [x, y]) @ universal_newlines (unlines R)"
    by (simp add: unlines_append unlines_Cons unlines_def)
  finally have u: "universal_newlines (unlines (L @ [x @ CR # y] @ R)) =
      unlines (L @ [x, y]) @ universal_newlines (unlines R)" .
  let ?ps = "split_on LF (universal_newlines (unlines R))"
  have "split_on LF (universal_newlines (unlines (L @ [x @ CR # y] @ R))) = (L @ [x, y]) @ ?ps"
    unfolding u using assms(1) by (intro split_unlines_append) auto
  then show ?thesis
    by (intro exI [of _ "if last ?ps = [] then butlast ?ps else ?ps"]) (simp add: text_lines_def butlast_append)
qed

subsection \<open>The header once more\<close>

lemma read_header_again:
  assumes "s \<noteq> []" and "indent_level st = 0" and "dict_has (r_secs st) s" and "s \<in> set (seen_secs st)"
  shows "read_line (''['' @ s @ '']'') st = Inl (DuplicateSectionError s)"
  using assms header_line_parse [OF assms(1)]
  by (simp add: read_line_def Let_def startswith_def read_header_def)

lemma read_opened:
  assumes "read_inv c st" and "wf_name s" and "s \<notin> set (dict_keys (sections c))" and "wf_dict d"
  shows "\<exists>st'. read_lines ((''['' @ s @ '']'') # map option_line d) st = Inr st' \<and> indent_level st' = 0 \<and>
    dict_has (r_secs st') s \<and> s \<in> set (seen_secs st')"
proof -
  have s: "s \<noteq> []" "s \<noteq> default_section" using assms(2) by (auto simp: wf_name_def is_default_def)
  have keys: "dict_keys (r_secs st) = dict_keys (sections c)"
    using assms(1) dict_keys_finish [of st] by (simp add: read_inv_def)
  then have new: "\<not> dict_has (r_secs st) s" using assms(3) by (simp add: dict_has_iff)
  let ?st = "st\<lparr>indent_level := 0, r_secs := r_secs st @ [(s, [])], cursect := Some s,
    seen_secs := s # seen_secs st, optname := []\<rparr>"
  have ind: "indent_level st = 0" using assms(1) by (simp add: read_inv_def)
  have hdr: "read_line (''['' @ s @ '']'') st = Inr ?st"
    using s new header_line_parse [OF s(1)] ind
    by (simp add: read_line_def Let_def startswith_def read_header_def)
  have "dict_get (r_secs st) s = None" using new by (simp add: dict_has_def)
  then have get: "get_cur ?st = []" by (simp add: get_cur_def map_add_def)
  have "\<forall>k \<in> set (dict_keys d). (s, k) \<notin> set (seen_opts ?st) \<and> k \<notin> set (dict_keys (get_cur ?st))"
    unfolding get using assms(1,3) s by (force simp: read_inv_def)
  from read_options [OF assms(4) _ _ this] obtain sp opt where
    "read_lines (map option_line d) ?st = Inr (put_cur (get_cur ?st @ as_lines d) (?st\<lparr>seen_opts := sp, optname := opt\<rparr>))"
    by auto
  with hdr show ?thesis
    by (intro exI [of _ "put_cur (get_cur ?st @ as_lines d) (?st\<lparr>seen_opts := sp, optname := opt\<rparr>)"])
      (simp add: dict_has_iff del: list.set_map)
qed

text \<open>The value: a text \<open>a\<close>, a carriage return, and the header of the section \<open>s\<close>.\<close>

definition header_value :: "string \<Rightarrow> string \<Rightarrow> string" where
  "header_value a s = a @ CR # ''['' @ s @ '']''"

lemma option_line_header:
  assumes "wf_val a" and "one_line s"
  shows "option_line (k, header_value a s) = option_line (k, a) @ CR # ''['' @ s @ '']''"
proof -
  have "LF \<notin> set a" "LF \<notin> set (header_value a s)"
    using assms by (auto simp: wf_val_def one_line_def header_value_def)
  then show ?thesis by (simp add: option_line_def indent_newlines_id header_value_def)
qed

lemma read_injected:
  assumes "wf_dict (defaults m)" and "sections m = before @ (s, d1 @ (k, header_value a s) # d2) # after"
    and "list_all (\<lambda>(x, d). wf_name x \<and> wf_dict d) before" and "distinct (dict_keys before)"
    and "s \<notin> set (dict_keys before)" and "wf_name s" and "wf_dict (d1 @ [(k, a)])"
  shows "ini_read empty_ini (ini_write m) = Inl (DuplicateSectionError s)"
proof -
  let ?dl = "if defaults m = [] then [] else section_lines default_section (defaults m)"
  let ?bl = "concat (map (\<lambda>(x, d). section_lines x d) before)" and ?h = "''['' @ s @ '']''"
  let ?L = "?dl @ ?bl @ ?h # map option_line d1"
  have w: "wf_key k" "wf_val a" "one_line s" "s \<noteq> []"
    using assms(6,7) by (auto simp: wf_dict_def wf_name_def is_default_def)
  have "wf_dict d1" using assms(7) by (simp add: wf_dict_def)
  have "one_line default_section" by (simp add: one_line_def default_section_def)
  then have "\<forall>l \<in> set ?dl. one_line l" using section_lines_one_line [OF assms(1)] by simp
  moreover have "\<forall>l \<in> set ?bl. one_line l"
  proof
    fix l assume "l \<in> set ?bl"
    then obtain x d where x: "(x, d) \<in> set before" "l \<in> set (section_lines x d)" by auto
    then have "one_line x" "wf_dict d" using assms(3) by (auto simp: list_all_iff wf_name_def)
    then show "one_line l" using section_lines_one_line x(2) by blast
  qed
  moreover have "\<forall>l \<in> set (?h # map option_line d1 @ [[]]). one_line l"
    using section_lines_one_line [OF \<open>wf_dict d1\<close> w(3)] unfolding section_lines_def by blast
  ultimately have "\<forall>l \<in> set (?L @ [option_line (k, a), ?h]). one_line l"
    using option_line_one_line [OF w(1,2)] by (auto simp del: append_Cons)
  then have "\<forall>l \<in> set (?L @ [option_line (k, a), ?h]). LF \<notin> set l \<and> CR \<notin> set l"
    by (simp add: one_line_def)
  from text_lines_split [OF this, of "map option_line d2 @ [[]] @ concat (map (\<lambda>(x, d). section_lines x d) after)"]
  obtain rest where rest: "text_lines (ini_write m) = ?L @ [option_line (k, a), ?h] @ rest"
    by (auto simp: ini_write_def ini_lines_def assms(2) section_lines_def option_line_header w)
  have "read_inv empty_ini (start_rd empty_ini)"
    by (simp add: read_inv_def start_rd_def empty_ini_def finish_rd_def join_dict_def)
  then obtain st0 where st0: "read_lines ?dl (start_rd empty_ini) = Inr st0" "read_inv (empty_ini\<lparr>defaults := defaults m\<rparr>) st0"
    using read_default_section [OF assms(1)] by (cases "defaults m = []") (auto simp: empty_ini_def)
  obtain st1 where st1: "read_lines ?bl st0 = Inr st1"
    "read_inv ((empty_ini\<lparr>defaults := defaults m\<rparr>)\<lparr>sections := before\<rparr>) st1"
    using read_sections [OF st0(2), of before] assms(3,4) by (auto simp: empty_ini_def)
  obtain st2 where st2: "read_lines (?h # map option_line (d1 @ [(k, a)])) st1 = Inr st2" "indent_level st2 = 0"
    "dict_has (r_secs st2) s" "s \<in> set (seen_secs st2)"
    using read_opened [OF st1(2) assms(6) _ assms(7)] assms(5) by auto
  have "text_lines (ini_write m) = ?dl @ ?bl @ (?h # map option_line (d1 @ [(k, a)])) @ ?h # rest"
    by (simp add: rest)
  then have "read_lines (text_lines (ini_write m)) (start_rd empty_ini) = Inl (DuplicateSectionError s)"
    using st0(1) st1(1) st2(1) read_header_again [OF w(4) st2(2-4)]
    by (simp only: read_lines_append read_lines.simps sum.case)
  then show ?thesis by (simp add: ini_read_def)
qed

subsection \<open>The store that is written\<close>

text \<open>Well-formed but for the value of one option.\<close>

definition entry_except :: "string \<Rightarrow> string \<Rightarrow> string \<Rightarrow> string \<times> string \<Rightarrow> bool" where
  "entry_except s k x kv \<longleftrightarrow> wf_key (fst kv) \<and> (x = s \<and> fst kv = k \<or> wf_val (snd kv))"

definition section_except :: "string \<Rightarrow> string \<Rightarrow> string \<times> (string, string) dict \<Rightarrow> bool" where
  "section_except s k xd \<longleftrightarrow> wf_name (fst xd) \<and> distinct (dict_keys (snd xd)) \<and>
     (\<forall>kv \<in> set (snd xd). entry_except s k (fst xd) kv)"

definition wf_except :: "string \<Rightarrow> string \<Rightarrow> ini \<Rightarrow> bool" where
  "wf_except s k c \<longleftrightarrow> wf_dict (defaults c) \<and> distinct (dict_keys (sections c)) \<and>
     (\<forall>xd \<in> set (sections c). section_except s k xd)"

lemma wf_except_ini: "wf_ini c \<Longrightarrow> wf_except s k c"
  by (fastforce simp: wf_except_def section_except_def entry_except_def wf_ini_def wf_dict_def list_all_iff)

lemma section_except_set:
  assumes "section_except s k (s, d)" and "wf_key j" and "j \<noteq> k \<longrightarrow> wf_val w"
  shows "section_except s k (s, dict_set j w d)"
proof -
  have "entry_except s k s kv" if "kv \<in> set (dict_set j w d)" for kv
    using dict_set_cases [OF that] assms by (auto simp: section_except_def entry_except_def)
  then show ?thesis
    using assms(1) by (simp add: section_except_def map_dict_set_keys del: list.set_map)
qed

lemma wf_except_set:
  assumes "wf_except s k c" and "proper_section c s" and "wf_key j" and "j \<noteq> k \<longrightarrow> wf_val w"
  shows "wf_except s k (set_raw s j w c)"
proof -
  obtain d where d: "dict_get (sections c) s = Some d"
    using assms(2) by (auto simp: proper_section_def has_section_def dict_has_def)
  have sd: "section_dict c s = d" using d by (simp add: section_dict_def)
  have "section_except s k (s, d)" using assms(1) map_of_SomeD [OF d] by (simp add: wf_except_def)
  from section_except_set [OF this assms(3,4)]
  have "section_except s k xd" if "xd \<in> set (dict_set s (dict_set j w d) (sections c))" for xd
    using dict_set_cases [OF that] assms(1) by (auto simp: wf_except_def)
  then show ?thesis
    using assms(1,2) by (simp add: wf_except_def set_raw_def proper_section_def sd map_dict_set_keys del: list.set_map)
qed

lemma wf_except_copy:
  "wf_except s k t \<Longrightarrow> proper_section t s \<Longrightarrow> \<forall>j \<in> set ks. wf_key j \<and> (j \<noteq> k \<longrightarrow> wf_val (f j)) \<Longrightarrow>
     wf_except s k (fold (\<lambda>j. set_raw s j (f j)) ks t)"
  by (induction ks arbitrary: t) (simp_all add: wf_except_set ini_store.present_store)

lemma not_wf_header: "\<not> wf_val (header_value a s)"
  by (simp add: wf_val_def one_line_def header_value_def)

text \<open>Such a file cannot be read.\<close>

lemma unreadable:
  assumes "wf_except s k m" and "proper_section m s" and "visible m s k = Some (header_value a s)" and "wf_val a"
  shows "ini_read empty_ini (ini_write m) = Inl (DuplicateSectionError s)"
proof -
  obtain d where d: "dict_get (sections m) s = Some d"
    using assms(2) by (auto simp: proper_section_def has_section_def dict_has_def)
  have "dict_get (defaults m) k \<noteq> Some (header_value a s)"
    using assms(1) not_wf_header by (auto simp: wf_except_def wf_dict_def list_all_iff dest!: map_of_SomeD)
  then have "dict_get d k = Some (header_value a s)"
    using assms(3) d by (auto simp: visible_def section_dict_def split: option.splits)
  then obtain d1 d2 where dd: "d = d1 @ (k, header_value a s) # d2"
    by (meson map_of_SomeD split_list)
  obtain before after where m: "sections m = before @ (s, d) # after"
    using d by (meson map_of_SomeD split_list)
  have ds: "distinct (dict_keys (sections m))" and w0: "wf_dict (defaults m)"
    and all: "\<forall>xd \<in> set (sections m). section_except s k xd"
    using assms(1) by (auto simp: wf_except_def)
  have sd: "section_except s k (s, d)" using all by (simp add: m)
  then have kd: "distinct (dict_keys (d1 @ [(k, a)]))" "wf_name s" "wf_key k" "\<forall>kv \<in> set d1. entry_except s k s kv"
    by (simp_all add: section_except_def entry_except_def dd)
  then have "wf_key j \<and> wf_val v" if "(j, v) \<in> set d1" for j v
    using that by (force simp: entry_except_def)
  then have sd: "wf_name s" "wf_dict (d1 @ [(k, a)])"
    using kd assms(4) by (auto simp: wf_dict_def list_all_iff)
  have "s \<notin> set (dict_keys before)" "distinct (dict_keys before)" using ds by (auto simp: m)
  moreover have "wf_name x \<and> wf_dict e" if "(x, e) \<in> set before" for x e
  proof -
    have "section_except s k (x, e)" using all that by (simp add: m)
    moreover have "x \<noteq> s" using \<open>s \<notin> set (dict_keys before)\<close> that by force
    ultimately show ?thesis by (auto simp: section_except_def entry_except_def wf_dict_def list_all_iff)
  qed
  then have "list_all (\<lambda>(x, d). wf_name x \<and> wf_dict d) before" by (auto simp: list_all_iff)
  ultimately show ?thesis
    using m dd sd w0 by (intro read_injected [of m before s d1 k a d2 after]) simp_all
qed

subsection \<open>Storing the value\<close>

lemma header_written:
  assumes "read_conf empty_ini s = (Inr t, s)" and "conf_ready t" and "wf_ini t" and "can_write os conf_path"
    and "proper_section (config ld) x" and "has_section t x" and "conf_ready (config ld)" and "wf_ini (config ld)"
    and "wf_key k" and "wf_val a" and "CHR ''%'' \<notin> set (a @ x)"
  obtains s' where "write_changes os (ld\<lparr>config := set_raw x k (header_value a x) (config ld)\<rparr>) x s = (Inr (), s')"
    and "read_conf empty_ini s' = (Inl (DuplicateSectionError x), s')"
proof -
  let ?v = "header_value a x"
  define c where "c = set_raw x k ?v (config ld)"
  have px: "proper_section c x" "proper_section t x"
    using assms(5) by (simp add: c_def ini_store.present_store) (use assms(5,6) in \<open>simp add: proper_section_def\<close>)
  have vis: "visible c x j = (if j = k then Some ?v else visible (config ld) x j)" for j
    using assms(5) by (simp add: c_def ini_store.lookup_store)
  have "CHR ''%'' \<notin> set ?v" using assms(11) by (auto simp: header_value_def)
  then have "conf_ready c" using assms(5,7) by (simp add: c_def conf_ready_set_raw)
  then have plain: "plain_section c x" by (simp add: conf_ready_def plain_ini_section)
  have keys: "wf_key j \<and> (j \<noteq> k \<longrightarrow> wf_val (seen c x j))" if "j \<in> set (ini_options c x)" for j
  proof (cases "j = k")
    case True
    then show ?thesis using assms(9) by simp
  next
    case False
    with that obtain w where w: "visible (config ld) x j = Some w" by (auto simp: ini_options_visible vis)
    from wf_visible [OF assms(8) w] show ?thesis using w False by (simp add: seen_def option_or_def vis)
  qed
  then have m: "merge_section c x t = Inr (merged c x t)"
    by (intro merge_section_keys px plain) (auto simp: wf_key_def)
  have "open_section x t = t" using assms(6) by (simp add: open_section_def)
  then have "wf_except x k (merged c x t)"
    unfolding merged_def using wf_except_copy [OF wf_except_ini [OF assms(3)] px(2)] keys by simp
  moreover have "visible (merged c x t) x k = Some ?v" by (simp add: merged_visible [OF px(1)] vis)
  moreover have "proper_section (merged c x t) x"
    using conf_ready_merged [OF assms(2,3) plain px(1) assms(6)] merged_names [OF px(1) assms(6)] assms(6) px(1)
    by (simp add: proper_section_def has_section_def dict_has_iff del: list.set_map)
  ultimately have bad: "ini_read empty_ini (ini_write (merged c x t)) = Inl (DuplicateSectionError x)"
    using assms(10) by (intro unreadable)
  obtain s' where s': "write_file os conf_path (ini_write (merged c x t)) s = (Inr (), s')"
    "files s' = (files s)(conf_path := Some (ini_write (merged c x t)))"
    using assms(4) by (simp add: write_file_ok)
  have "write_changes os (ld\<lparr>config := c\<rparr>) x s = (Inr (), s')"
    using assms(1) m s'(1) by (simp add: write_changes_def bindP_def)
  then show ?thesis using that s'(2) bad by (simp add: c_def read_conf_def)
qed

lemma ConfigLoader_unreadable: "read_conf empty_ini s = (Inl e, s) \<Longrightarrow> ConfigLoader os s = (Inl e, s)"
  by (simp add: ConfigLoader_def load_into_def)

lemma main_unreadable:
  assumes "read_conf empty_ini s = (Inl e, s)"
  shows "fst (main_block env fr s) = Inl e"
proof -
  obtain t s1 where n: "now (e_os env) s = (Inr t, s1)" "files s1 = files s" using now_files by blast
  have "read_conf empty_ini s1 = (Inl e, s1)" using assms n(2) by (simp add: read_conf_def split: option.splits)
  then have "ConfigLoader (e_os env) s1 = (Inl e, s1)" by (rule ConfigLoader_unreadable)
  then show ?thesis
    using n(1) by (simp add: main_block_def startup_def mk_manager_def all_profiles_def thenP_def bindP_def)
qed

text \<open>C12: one whitelist with a carriage return puts the whole server out of action: on a loadable
  file that can be written, the task that changes the whitelist of the profile \<open>x\<close> to a text
  \<open>a\<close>, a carriage return and \<open>[x]\<close> fails only after it has written the file; from then on
  \<open>config.conf\<close> cannot be read (\<open>DuplicateSectionError\<close>), so neither the constructor of the
  loader returns, which every handler calls first, nor can the server be started again.\<close>

theorem carriage_return_breaks_file:
  assumes "reads_as env c s" and "can_write (e_os env) conf_path" and "x \<in> set (profiles c)"
    and "rq_new_whitelist rq = Some (header_value a x)" and "wf_val a" and "CHR ''%'' \<notin> set (a @ x)"
  shows "\<exists>s'. run_job env (whitelist_job x rq) (sv_sys s) =
      (Inr (result ''failed'' (JErr (DuplicateSectionError x))), s') \<and>
    ConfigLoader (e_os env) s' = (Inl (DuplicateSectionError x), s') \<and>
    fst (main_block env fr s') = Inl (DuplicateSectionError x)"
proof -
  let ?os = "e_os env" and ?e = "DuplicateSectionError x"
  have r: "read_conf empty_ini (sv_sys s) = (Inr c, sv_sys s)" "conf_ready c" "wf_ini c"
    using assms(1) by (simp_all add: reads_as_def)
  obtain ld0 s1 d where 1: "ConfigLoader ?os (sv_sys s) = (Inr ld0, s1)" "read_conf empty_ini s1 = (Inr d, s1)"
    "conf_ready d" "wf_ini d" "dict_keys (sections d) = dict_keys (sections c)"
    by (rule ConfigLoader_file [OF r assms(2)])
  obtain ld s2 t where 2: "ConfigLoader ?os s1 = (Inr ld, s2)" "config ld = renumber 1 (dict_keys (sections d)) d"
    "read_conf empty_ini s2 = (Inr t, s2)" "conf_ready t" "wf_ini t" "dict_keys (sections t) = dict_keys (sections d)"
    by (rule ConfigLoader_file [OF 1(2-4) assms(2)])
  have p: "\<forall>y \<in> set (dict_keys (sections d)). proper_section d y" using conf_ready_profiles [OF 1(3)] by blast
  have x: "x \<in> set (dict_keys (sections d))" using assms(3) 1(5) by (auto simp: profiles_def)
  have px: "proper_section (config ld) x" unfolding 2(2) proper_renumber [OF p] using p x by (rule bspec)
  have cr: "conf_ready (config ld)" "wf_ini (config ld)"
    unfolding 2(2) using conf_ready_renumber [OF 1(3) p] wf_renumber [OF 1(4) p] by auto
  have hs: "has_section t x" using x 2(6) by (simp add: has_section_def dict_has_iff del: list.set_map)
  obtain s3 where 3: "write_changes ?os (ld\<lparr>config := set_raw x ''whitelist'' (header_value a x) (config ld)\<rparr>) x s2 = (Inr (), s3)"
    "read_conf empty_ini s3 = (Inl ?e, s3)"
    by (rule header_written [OF 2(3-5) assms(2) px hs cr wf_key_changeable [of "''whitelist''"] assms(5,6)]) simp_all
  have "CHR ''%'' \<notin> set (header_value a x)" using assms(6) by (auto simp: header_value_def)
  then have sv: "set_value x ''whitelist'' (Some (header_value a x)) ld s2 =
      (Inr (ld\<lparr>config := set_raw x ''whitelist'' (header_value a x) (config ld)\<rparr>), s2)"
    using set_value_eq [OF px, of "header_value a x" "''whitelist''"] by simp
  have cl: "ConfigLoader ?os s3 = (Inl ?e, s3)" by (rule ConfigLoader_unreadable [OF 3(2)])
  then have "install_firewall ?os (e_ufw env) x s3 = (Inl ?e, s3)"
    by (simp add: install_firewall_def mk_firewall_def)
  then have "run_job env (whitelist_job x rq) (sv_sys s) = (Inr (result ''failed'' (JErr ?e)), s3)"
    using 1(1) 2(1) sv 3(1) assms(4)
    by (simp add: run_job_def mk_run_task_def whitelist_job_def named_job_def task_method_def change_whitelist_def
        task_body_def tryP_def thenP_def bindP_def Let_def)
  then show ?thesis using cl main_unreadable [OF 3(2)] by blast
qed

definition quiet_front :: "unit front_api" where
  "quiet_front = \<lparr>fr_enable = (\<lambda>w. (Inr (), w)), fr_default = (\<lambda>i q r w. (Inr (), w)), fr_run = (\<lambda>p h d w. (Inr (), w))\<rparr>"

text \<open>The whitelist \<open>1.2.3.4\<close>, with the header of the profile's own section behind it.\<close>

theorem carriage_return_breaks_file_witness:
  "\<exists>rq s'. run_job (demo_env open_cloud) (whitelist_job ''acc2'' rq) demo_sys =
      (Inr (result ''failed'' (JErr (DuplicateSectionError ''acc2''))), s') \<and>
    fst (main_block (demo_env open_cloud) quiet_front s') = Inl (DuplicateSectionError ''acc2'')"
proof -
  let ?rq = "(demo_request ''s3cret'')\<lparr>rq_new_whitelist := Some (header_value ''1.2.3.4'' ''acc2'')\<rparr>"
  have "''acc2'' \<in> set (profiles demo_ini)" "wf_val ''1.2.3.4''" "CHR ''%'' \<notin> set (''1.2.3.4'' @ ''acc2'')"
    by code_simp+
  moreover have "rq_new_whitelist ?rq = Some (header_value ''1.2.3.4'' ''acc2'')" by simp
  ultimately show ?thesis
    using carriage_return_breaks_file [OF reads_as_demo(1) can_write_env, of "''acc2''" ?rq "''1.2.3.4''" open_cloud quiet_front]
    by (simp add: demo_server_def demo_sys_def) blast
qed

end
