(* ===== verification/OldLoader.thy ===== *)
theory OldLoader
  imports Server
begin

section \<open>The old loader\<close>

text \<open>
  The class \<open>ConfigLoader\<close> of \<open>garbage/main2.py\<close>, which nothing imports any more: it
  sorts the profiles of \<open>config.conf\<close> by their cloud and builds for each the address at
  which its change of the address was asked for. The four lists that it appends to are
  attributes that it never sets; here they are options, so that both the class as it is
  and the class with its lists can be followed.
\<close>

subsection \<open>Addresses\<close>

text \<open>
  \<open>urllib.parse\<close>, as far as the loader uses it. \<open>urlparse\<close> is given a text that starts
  with \<open>http://\<close>: tabs and line breaks are dropped, the host ends at the first slash,
  question mark or number sign, a bracket must have its partner, and what is between two
  brackets is looked at by \<open>ok\<close> (which accepts all in older versions of Python).
\<close>

record url_parts =
  up_netloc :: string
  up_path :: string
  up_params :: string
  up_query :: string
  up_fragment :: string

definition cut :: "char \<Rightarrow> string \<Rightarrow> string \<times> string" where
  "cut c s = (takeWhile (\<lambda>x. x \<noteq> c) s, drop 1 (dropWhile (\<lambda>x. x \<noteq> c) s))"

text \<open>\<open>_splitparams\<close>: the parameters of the last segment of a path.\<close>

definition split_params :: "string \<Rightarrow> string \<times> string" where
  "split_params p =
     (let seg = rev (takeWhile (\<lambda>x. x \<noteq> CHR ''/'') (rev p)); (a, b) = cut CHR '';'' seg
      in (take (length p - length seg) p @ a, b))"

definition parse_http :: "(string \<Rightarrow> bool) \<Rightarrow> string \<Rightarrow> exn + url_parts" where
  "parse_http ok r =
     (let u = filter (\<lambda>c. c \<notin> {TAB, LF, CR}) r;
          netloc = takeWhile (\<lambda>c. c \<notin> {CHR ''/'', CHR ''?'', CHR ''#''}) u;
          (u1, fragment) = cut CHR ''#'' (drop (length netloc) u);
          (u2, query) = cut CHR ''?'' u1;
          (path, params) = split_params u2
      in if (CHR ''['' \<in> set netloc) \<noteq> (CHR '']'' \<in> set netloc) then Inl (ValueError ''Invalid IPv6 URL'')
         else if CHR ''['' \<in> set netloc \<and> \<not> ok netloc then Inl (ValueError netloc)
         else Inr \<lparr>up_netloc = netloc, up_path = path, up_params = params, up_query = query, up_fragment = fragment\<rparr>)"

definition unparse_http :: "url_parts \<Rightarrow> string" where
  "unparse_http u =
     (let p0 = (if up_params u \<noteq> [] then up_path u @ '';'' @ up_params u else up_path u);
          p1 = (if up_netloc u \<noteq> [] \<or> take 2 p0 \<noteq> ''//''
                then ''//'' @ up_netloc u @ (if p0 \<noteq> [] \<and> \<not> startswith p0 ''/'' then ''/'' @ p0 else p0)
                else p0)
      in ''http:'' @ p1 @ (if up_query u \<noteq> [] then ''?'' @ up_query u else []) @
         (if up_fragment u \<noteq> [] then ''#'' @ up_fragment u else []))"

text \<open>\<open>quote_plus\<close>, on the bytes of UTF-8.\<close>

definition unreserved :: "char \<Rightarrow> bool" where
  "unreserved c \<longleftrightarrow> 48 \<le> ord_of c \<and> ord_of c \<le> 57 \<or> 65 \<le> ord_of c \<and> ord_of c \<le> 90 \<or>
     97 \<le> ord_of c \<and> ord_of c \<le> 122 \<or> c \<in> {CHR ''_'', CHR ''.'', CHR ''-'', CHR ''~''}"

definition upper_hex :: "nat \<Rightarrow> char" where
  "upper_hex d = (if d < 10 then char_of (48 + d) else char_of (55 + d))"

definition percent_byte :: "nat \<Rightarrow> string" where
  "percent_byte b = [CHR ''%'', upper_hex (b div 16), upper_hex (b mod 16)]"

definition quote_char :: "char \<Rightarrow> string" where
  "quote_char c =
     (if unreserved c then [c]
      else if c = CHR '' '' then ''+''
      else if ord_of c < 128 then percent_byte (ord_of c)
      else percent_byte (192 + ord_of c div 64) @ percent_byte (128 + ord_of c mod 64))"

definition quote_plus :: "string \<Rightarrow> string" where
  "quote_plus s = concat (map quote_char s)"

subsection \<open>The object\<close>

record old_api =
  oa_prefix :: string
  oa_port :: string
  oa_wgPrivateKey :: string
  oa_wgPublicKey :: string
  oa_sshKeyPath :: string
  oa_apiHostName :: string

type_synonym old_config = "(string, string) dict"

record old_loader =
  ol_config :: ini
  ol_api :: old_api
  civo_config_list :: "old_config list option"
  tencent_config_list :: "old_config list option"
  azure_config_list :: "old_config list option"
  aws_config_list :: "old_config list option"

record old_configs =
  oc_api :: old_api
  oc_civo :: "old_config list"
  oc_tencent :: "old_config list"
  oc_azure :: "old_config list"
  oc_aws :: "old_config list"

text \<open>The key \<open>key\<close> of the dictionary is the host name once more.\<close>

definition old_load_api_config :: "ini \<Rightarrow> ('s, old_api) prog" where
  "old_load_api_config c =
     (let get = (\<lambda>k. of_sum (ini_get c ''api'' k)) in
      bindP (get ''apiHostName'') (\<lambda>_.
      bindP (get ''prefix'') (\<lambda>prefix.
      bindP (get ''port'') (\<lambda>port.
      bindP (get ''wgPrivateKey'') (\<lambda>priv.
      bindP (get ''wgPublicKey'') (\<lambda>pub.
      bindP (get ''sshKeyPath'') (\<lambda>ssh.
      bindP (get ''apiHostName'') (\<lambda>host.
      ret \<lparr>oa_prefix = prefix, oa_port = port, oa_wgPrivateKey = priv, oa_wgPublicKey = pub,
           oa_sshKeyPath = ssh, oa_apiHostName = host\<rparr>))))))))"

definition newip_path :: "string \<Rightarrow> string \<Rightarrow> string" where
  "newip_path prefix ty = (if ty = ''civo'' then prefix @ ''/civo/newip'' else prefix @ ''/newip'')"

definition change_ip_url :: "(string \<Rightarrow> bool) \<Rightarrow> old_api \<Rightarrow> string \<Rightarrow> string \<Rightarrow> exn + string" where
  "change_ip_url ok api ty name =
     (case parse_http ok (oa_apiHostName api @ '':'' @ oa_port api) of
        Inl e \<Rightarrow> Inl e
      | Inr u \<Rightarrow> Inr (unparse_http
          (u\<lparr>up_path := newip_path (oa_prefix api) ty, up_query := ''configName='' @ quote_plus name\<rparr>)))"

text \<open>The further options of a profile, by its cloud.\<close>

definition own_fields :: "string \<Rightarrow> string list" where
  "own_fields ty =
     (if ty = ''tencent'' then [''secretId'', ''secretKey'', ''region'', ''instanceId'']
      else if ty = ''azure'' then [''clientId'', ''clientSecret'', ''tenantId'', ''subscriptionId'',
        ''resourceGroupName'', ''publicIpName'', ''ipConfigName'', ''nicName'', ''vmName'']
      else if ty = ''aws'' then [''accessKey'', ''secretKey'', ''instanceId'', ''region'']
      else if ty = ''civo'' then [''token'', ''cookie'', ''region'', ''instanceId'']
      else [])"

fun read_fields :: "ini \<Rightarrow> string \<Rightarrow> string list \<Rightarrow> ('s, old_config) prog" where
  "read_fields c name [] = ret []"
| "read_fields c name (k # ks) =
     bindP (of_sum (ini_get c name k)) (\<lambda>v. bindP (read_fields c name ks) (\<lambda>kvs. ret ((k, v) # kvs)))"

definition get_if_there :: "ini \<Rightarrow> string \<Rightarrow> string \<Rightarrow> ('s, string option) prog" where
  "get_if_there c name k =
     (if has_option c name k then bindP (of_sum (ini_get c name k)) (\<lambda>v. ret (Some v)) else ret None)"

definition add_config :: "string \<Rightarrow> old_config \<Rightarrow> old_loader \<Rightarrow> ('s, old_loader) prog" where
  "add_config ty conf ol =
     (if ty = ''tencent''
      then bindP (attr ''tencent_config_list'' (tencent_config_list ol)) (\<lambda>l. ret (ol\<lparr>tencent_config_list := Some (l @ [conf])\<rparr>))
      else if ty = ''azure''
      then bindP (attr ''azure_config_list'' (azure_config_list ol)) (\<lambda>l. ret (ol\<lparr>azure_config_list := Some (l @ [conf])\<rparr>))
      else if ty = ''aws''
      then bindP (attr ''aws_config_list'' (aws_config_list ol)) (\<lambda>l. ret (ol\<lparr>aws_config_list := Some (l @ [conf])\<rparr>))
      else if ty = ''civo''
      then bindP (attr ''civo_config_list'' (civo_config_list ol)) (\<lambda>l. ret (ol\<lparr>civo_config_list := Some (l @ [conf])\<rparr>))
      else ret ol)"

text \<open>What \<open>load_configuration\<close> puts together for a profile: its cloud and its entry.\<close>

definition old_entry :: "(string \<Rightarrow> bool) \<Rightarrow> ini \<Rightarrow> old_api \<Rightarrow> string \<Rightarrow> ('s, string \<times> old_config) prog" where
  "old_entry ok c api name =
     bindP (of_sum (ini_get c name ''type'')) (\<lambda>ty.
     bindP (of_sum (ini_get c name ''socks5Port'')) (\<lambda>socks5_port.
     bindP (of_sum (ini_get c name ''httpPort'')) (\<lambda>http_port.
     bindP (get_if_there c name ''socks5User'') (\<lambda>user.
     bindP (get_if_there c name ''socks5Pass'') (\<lambda>passwd.
     bindP (of_sum (change_ip_url ok api ty name)) (\<lambda>url.
     let base = [(''configName'', name), (''socks5Port'', socks5_port), (''httpPort'', http_port), (''changeIpUrl'', url)];
         conf = (case (user, passwd) of
                   (Some u, Some p) \<Rightarrow> if u \<noteq> [] \<and> p \<noteq> [] \<and> ty \<noteq> ''api''
                     then base @ [(''socks5User'', u), (''socks5Pass'', p)] else base
                 | _ \<Rightarrow> base) in
     bindP (read_fields c name (own_fields ty)) (\<lambda>kvs. ret (ty, dict_update conf kvs))))))))"

definition load_configuration :: "(string \<Rightarrow> bool) \<Rightarrow> string \<Rightarrow> old_loader \<Rightarrow> ('s, old_loader) prog" where
  "load_configuration ok name ol =
     bindP (old_entry ok (ol_config ol) (ol_api ol) name) (\<lambda>(ty, conf). add_config ty conf ol)"

definition load_configurations :: "(string \<Rightarrow> bool) \<Rightarrow> old_loader \<Rightarrow> ('s, old_configs \<times> old_loader) prog" where
  "load_configurations ok ol =
     bindP (foldP (\<lambda>name ol. if name = ''api'' then ret ol else load_configuration ok name ol)
              (dict_keys (sections (ol_config ol))) ol) (\<lambda>ol1.
     bindP (attr ''civo_config_list'' (civo_config_list ol1)) (\<lambda>civo.
     bindP (attr ''tencent_config_list'' (tencent_config_list ol1)) (\<lambda>tencent.
     bindP (attr ''azure_config_list'' (azure_config_list ol1)) (\<lambda>azure.
     bindP (attr ''aws_config_list'' (aws_config_list ol1)) (\<lambda>aws.
     ret (\<lparr>oc_api = ol_api ol1, oc_civo = civo, oc_tencent = tencent, oc_azure = azure, oc_aws = aws\<rparr>, ol1))))))"

text \<open>The constructor sets the list \<open>aws_configs\<close>, which nothing uses, and none of the four.\<close>

definition Old_ConfigLoader :: "(string \<Rightarrow> bool) \<Rightarrow> ('w sys, old_configs \<times> old_loader) prog" where
  "Old_ConfigLoader ok =
     bindP (read_conf empty_ini) (\<lambda>c.
     bindP (old_load_api_config c) (\<lambda>api.
     load_configurations ok \<lparr>ol_config = c, ol_api = api, civo_config_list = None, tencent_config_list = None,
       azure_config_list = None, aws_config_list = None\<rparr>))"

end
