(* ===== verification/OldLoaderProps.thy ===== *)
theory OldLoaderProps
  imports OldLoader FileInvariant
begin

section \<open>What the old loader would do, and does\<close>

text \<open>
  With its four lists the old loader would sort the profiles by their cloud, each in the
  order of the file; without them, as it is, its constructor never returns. The address
  that it builds for a profile.
\<close>

subsection \<open>Without the lists\<close>

lemma secures_fields: "secures I (\<lambda>_. True) (read_fields c name ks)"
  by (induction ks) (simp_all only: read_fields.simps, (rule secures_ret_any secures_intros | assumption)+)

lemma secures_get_if_there: "secures I (\<lambda>_. True) (get_if_there c name k)"
  unfolding get_if_there_def by (rule secures_ret_any secures_intros | assumption)+

lemma secures_entry: "secures I (\<lambda>_. True) (old_entry ok c api name)"
  unfolding old_entry_def Let_def
  by (rule secures_fields secures_get_if_there secures_ret_any secures_intros | assumption)+

abbreviation lacks_civo :: "old_loader \<Rightarrow> bool" where
  "lacks_civo ol \<equiv> civo_config_list ol = None"

lemma lacks_add: "lacks_civo ol \<Longrightarrow> secures I lacks_civo (add_config ty conf ol)"
  unfolding add_config_def by (rule secures_if secures_bindP secures_attr secures_ret | simp)+

lemma lacks_load: "lacks_civo ol \<Longrightarrow> secures I lacks_civo (load_configuration ok name ol)"
  unfolding load_configuration_def
  by (rule secures_bindP [OF secures_entry]) (rule secures_prod_case, erule lacks_add)

lemma load_configurations_raises:
  assumes "lacks_civo ol"
  shows "secures I (\<lambda>_. False) (load_configurations ok ol)"
proof -
  have "secures I lacks_civo (foldP (\<lambda>name ol. if name = ''api'' then ret ol else load_configuration ok name ol) ns ol)" for ns
    using assms by (intro secures_foldP) (auto intro: secures_ret lacks_load)
  then show ?thesis
    unfolding load_configurations_def by (rule secures_bindP) (simp add: attr_def secures_def)
qed

lemma secures_old_api: "secures I (\<lambda>_. True) (old_load_api_config c)"
  unfolding old_load_api_config_def Let_def by (rule secures_ret_any secures_intros | assumption)+

text \<open>C39: the constructor of the old loader never returns, whatever the file holds: the lists
  it appends to and returns are never created, so that a file without any mistake ends in
  \<open>AttributeError\<close>, at the latest when the result is put together.\<close>

theorem old_loader_never_returns: "\<exists>e. Old_ConfigLoader ok s = (Inl e, s)"
proof -
  have "secures (\<lambda>t. t = s) (\<lambda>_. True) (read_conf empty_ini)"
    by (auto simp: secures_def read_conf_def split: option.splits)
  then have "secures (\<lambda>t. t = s) (\<lambda>_. False) (Old_ConfigLoader ok)"
    unfolding Old_ConfigLoader_def
    by (rule secures_bindP) (rule secures_bindP [OF secures_old_api], simp add: load_configurations_raises)
  moreover obtain r t where r: "Old_ConfigLoader ok s = (r, t)" by (cases "Old_ConfigLoader ok s")
  ultimately have "t = s" "\<forall>x. r \<noteq> Inr x" unfolding secures_def by blast+
  with r show ?thesis by (cases r) auto
qed

subsection \<open>With the lists\<close>

text \<open>The entries of the profiles, in the order of the file; those of one cloud.\<close>

fun old_entries :: "(string \<Rightarrow> bool) \<Rightarrow> ini \<Rightarrow> old_api \<Rightarrow> string list \<Rightarrow> ('s, (string \<times> old_config) list) prog" where
  "old_entries ok c api [] = ret []"
| "old_entries ok c api (n # ns) =
     (if n = ''api'' then old_entries ok c api ns
      else bindP (old_entry ok c api n) (\<lambda>e. bindP (old_entries ok c api ns) (\<lambda>es. ret (e # es))))"

definition of_cloud :: "string \<Rightarrow> (string \<times> old_config) list \<Rightarrow> old_config list" where
  "of_cloud ty es = map snd (filter (\<lambda>e. fst e = ty) es)"

definition with_lists :: "ini \<Rightarrow> old_api \<Rightarrow> (string \<times> old_config) list \<Rightarrow> old_loader" where
  "with_lists c api es = \<lparr>ol_config = c, ol_api = api, civo_config_list = Some (of_cloud ''civo'' es),
     tencent_config_list = Some (of_cloud ''tencent'' es), azure_config_list = Some (of_cloud ''azure'' es),
     aws_config_list = Some (of_cloud ''aws'' es)\<rparr>"

lemma of_cloud_snoc: "of_cloud ty (es @ [e]) = of_cloud ty es @ (if fst e = ty then [snd e] else [])"
  by (simp add: of_cloud_def)

lemma with_lists_simps [simp]: "ol_config (with_lists c api es) = c" "ol_api (with_lists c api es) = api"
  by (simp_all add: with_lists_def)

lemma add_with_lists: "add_config ty conf (with_lists c api es) s = (Inr (with_lists c api (es @ [(ty, conf)])), s)"
  by (simp add: add_config_def with_lists_def of_cloud_snoc attr_def)

lemma fold_with_lists:
  "old_entries ok c api ns s = (Inr es, t) \<Longrightarrow>
     foldP (\<lambda>name ol. if name = ''api'' then ret ol else load_configuration ok name ol) ns (with_lists c api es0) s =
       (Inr (with_lists c api (es0 @ es)), t)"
proof (induction ns arbitrary: s es0 es)
  case (Cons n ns)
  show ?case
  proof (cases "n = ''api''")
    case True
    with Cons show ?thesis by simp
  next
    case False
    then obtain ty conf es' s1 where e: "old_entry ok c api n s = (Inr (ty, conf), s1)"
      "old_entries ok c api ns s1 = (Inr es', t)" "es = (ty, conf) # es'"
      using Cons.prems by (auto simp: bindP_eq_Inr)
    have "load_configuration ok n (with_lists c api es0) s = (Inr (with_lists c api (es0 @ [(ty, conf)])), s1)"
      using e(1) by (simp add: load_configuration_def add_with_lists)
    with Cons.IH [OF e(2), of "es0 @ [(ty, conf)]"] False e(3) show ?thesis by simp
  qed
qed simp


text \<open>Two profiles of two clouds.\<close>

definition old_ini :: ini where
  "old_ini = \<lparr>defaults = [], sections = [(''api'', []),
     (''a'', [(''type'', ''aws''), (''socks5port'', ''1''), (''httpport'', ''2''), (''accesskey'', ''AK''),
            (''secretkey'', ''SK''), (''instanceid'', ''i-1''), (''region'', ''r'')]),
     (''b c'', [(''type'', ''civo''), (''socks5port'', ''3''), (''httpport'', ''4''), (''socks5user'', ''u''), (''socks5pass'', ''p''),
              (''token'', ''t''), (''cookie'', ''k''), (''region'', ''r''), (''instanceid'', ''i-2'')])]\<rparr>"

definition old_demo_api :: old_api where
  "old_demo_api = \<lparr>oa_prefix = ''/v1'', oa_port = ''80'', oa_wgPrivateKey = [], oa_wgPublicKey = [],
     oa_sshKeyPath = [], oa_apiHostName = ''h''\<rparr>"

definition old_demo_entries :: "(string \<times> old_config) list" where
  "old_demo_entries =
    [(''aws'', [(''configName'', ''a''), (''socks5Port'', ''1''), (''httpPort'', ''2''), (''changeIpUrl'', ''http://h:80/v1/newip?configName=a''),
       (''accessKey'', ''AK''), (''secretKey'', ''SK''), (''instanceId'', ''i-1''), (''region'', ''r'')]),
     (''civo'', [(''configName'', ''b c''), (''socks5Port'', ''3''), (''httpPort'', ''4''),
       (''changeIpUrl'', ''http://h:80/v1/civo/newip?configName=b+c''), (''socks5User'', ''u''), (''socks5Pass'', ''p''),
       (''token'', ''t''), (''cookie'', ''k''), (''region'', ''r''), (''instanceId'', ''i-2'')])]"

lemma old_demo_read: "old_entries (\<lambda>_. True) old_ini old_demo_api (dict_keys (sections old_ini)) () = (Inr old_demo_entries, ())"
  by code_simp


subsection \<open>The address\<close>

definition host_char :: "char \<Rightarrow> bool" where
  "host_char c \<longleftrightarrow> c \<notin> {CHR ''/'', CHR ''?'', CHR ''#'', CHR ''['', CHR '']'', TAB, LF, CR}"

lemma parse_plain_host:
  assumes "list_all host_char r"
  shows "parse_http ok r = Inr \<lparr>up_netloc = r, up_path = [], up_params = [], up_query = [], up_fragment = []\<rparr>"
proof -
  have h: "\<forall>c \<in> set r. host_char c" using assms by (simp add: list_all_iff)
  have f: "filter (\<lambda>c. c \<noteq> TAB \<and> c \<noteq> LF \<and> c \<noteq> CR) r = r"
    using h by (intro filter_True) (auto simp: host_char_def)
  have t: "takeWhile (\<lambda>c. c \<noteq> CHR ''/'' \<and> c \<noteq> CHR ''?'' \<and> c \<noteq> CHR ''#'') r = r"
    using h by (auto simp: takeWhile_eq_all_conv host_char_def)
  have "CHR ''['' \<notin> set r" "CHR '']'' \<notin> set r" using h by (auto simp: host_char_def)
  then show ?thesis
    by (simp add: parse_http_def f t cut_def split_params_def Let_def)
qed

lemma upper_hex_unreserved: "d < 16 \<Longrightarrow> unreserved (upper_hex d)"
  by (cases "d < 10") (simp_all add: upper_hex_def unreserved_def)

lemma percent_byte_safe: "b < 256 \<Longrightarrow> x \<in> set (percent_byte b) \<Longrightarrow> unreserved x \<or> x = CHR ''%''"
  using upper_hex_unreserved [of "b div 16"] upper_hex_unreserved [of "b mod 16"]
  by (auto simp: percent_byte_def)

lemma quote_plus_safe:
  assumes "x \<in> set (quote_plus s)"
  shows "unreserved x \<or> x \<in> {CHR ''%'', CHR ''+''}"
proof -
  obtain c where c: "x \<in> set (quote_char c)" using assms by (auto simp: quote_plus_def)
  have "ord_of c < 256" by simp
  then have "192 + ord_of c div 64 < 256" "128 + ord_of c mod 64 < 256" by linarith+
  then show ?thesis
    using c percent_byte_safe [of "ord_of c"] percent_byte_safe [of "192 + ord_of c div 64"]
      percent_byte_safe [of "128 + ord_of c mod 64"] \<open>ord_of c < 256\<close>
    by (auto simp: quote_char_def split: if_splits)
qed

text \<open>the address of a profile: for a host and port of plain characters it is the host, the
  path for the cloud under the prefix, and the name of the profile as the one parameter; no
  character of the name can end the parameter or start another.\<close>

theorem change_ip_url_plain:
  assumes "list_all host_char (oa_apiHostName api @ '':'' @ oa_port api)"
  shows "change_ip_url ok api ty name = Inr (''http://'' @ oa_apiHostName api @ '':'' @ oa_port api @
      (if startswith (newip_path (oa_prefix api) ty) ''/'' then [] else ''/'') @ newip_path (oa_prefix api) ty @
      ''?configName='' @ quote_plus name) \<and>
    list_all (\<lambda>c. unreserved c \<or> c \<in> {CHR ''%'', CHR ''+''}) (quote_plus name)"
proof -
  let ?p = "newip_path (oa_prefix api) ty"
  have p: "?p \<noteq> []" by (simp add: newip_path_def)
  have "change_ip_url ok api ty name = Inr (''http://'' @ oa_apiHostName api @ '':'' @ oa_port api @
      (if startswith ?p ''/'' then [] else ''/'') @ ?p @ ''?configName='' @ quote_plus name)"
    unfolding change_ip_url_def parse_plain_host [OF assms] using p by (simp add: unparse_http_def)
  then show ?thesis using quote_plus_safe by (simp add: list_all_iff)
qed

theorem change_ip_url_plain_witness:
  "change_ip_url ok old_demo_api ''civo'' ''b c'' = Inr ''http://h:80/v1/civo/newip?configName=b+c''"
proof -
  have "list_all host_char (oa_apiHostName old_demo_api @ '':'' @ oa_port old_demo_api)" by code_simp
  from change_ip_url_plain [OF this, of ok "''civo''" "''b c''"] show ?thesis
    by (simp add: old_demo_api_def newip_path_def startswith_def quote_plus_def quote_char_def unreserved_def)
qed

end
