(* ===== verification/Scripts.thy ===== *)
theory Scripts
  imports FileInvariant ProxyFile
begin

section \<open>The scripts in the modules\<close>

text \<open>
  The blocks under \<open>if __name__ == "__main__"\<close> of \<open>functions/aws.py\<close>,
  \<open>functions/ssh_setup.py\<close>, \<open>functions/service.py\<close> and \<open>garbage/config.py\<close>, by which
  the modules were tried. What they print is left out; what is computed for it is not.
\<close>

subsection \<open>The cloud account\<close>

definition aws_script :: "'w env \<Rightarrow> ('w sys, string) prog" where
  "aws_script env =
     bindP (mk_aws (e_os env) ''aws02'') (\<lambda>aw.
     bindP (login (e_cloud env) aw) (\<lambda>aw1.
     bindP (terminate_instance (e_os env) (e_cloud env) aw1) (\<lambda>aw2.
     bindP (launch_instance (e_rounds env) (e_os env) (e_cloud env) aw2) (\<lambda>aw3.
     get_instance_address (e_cloud env) aw3))))"

definition service_script :: "'w env \<Rightarrow> ('w sys, unit) prog" where
  "service_script env = reset_all (e_svc env)"

subsection \<open>The rented host\<close>

definition ssh_close :: "'w ssh_api \<Rightarrow> ssh \<Rightarrow> ('w sys, unit) prog" where
  "ssh_close api c = ext_op (sh_close api c)"

definition prepare_unless_there :: "'w env \<Rightarrow> ssh \<Rightarrow> host \<Rightarrow> ('w sys, unit) prog" where
  "prepare_unless_there env c h =
     bindP (connect (e_ssh env) 10 c) (\<lambda>there. if \<not> there then prepare_host env h else ret ())"

definition ssh_script :: "'w env \<Rightarrow> ('w sys, unit) prog" where
  "ssh_script env =
     (let os = e_os env; api = e_cloud env; name = ''aws2''; key = ''/root/.ssh/id_rsa'' in
      bindP (mk_aws os name) (\<lambda>aw.
      bindP (login api aw) (\<lambda>aw1.
      bindP (terminate_instance os api aw1) (\<lambda>aw2.
      bindP (launch_instance (e_rounds env) os api aw2) (\<lambda>aw3.
      bindP (get_new_ip (e_rounds env) os api aw3) (\<lambda>(ips, aw4).
      let aws_ip = snd ips; order = ac_order (aw_config aw4); svc = profile_name order name;
          peer = \<lparr>ssh_host = far_ip order, ssh_user = ''ubuntu'', ssh_key = key\<rparr>;
          h = \<lparr>h_host = aws_ip, h_user = ''ubuntu'', h_key = key, h_local = local_wg_path order name,
               h_remote = ''/etc/wireguard/wg0.conf'', h_ssh = None\<rparr> in
      bindP (ConfigLoader os) (\<lambda>peer_config.
      bindP (run_ini load_api_config (config peer_config)) (\<lambda>(_, c).
      bindP (generate_peer_config os (e_ufw env) name (peer_config\<lparr>config := c\<rparr>)) (\<lambda>(_, peer_config1).
      bindP (generate_profile_config os name (Some aws_ip) peer_config1) (\<lambda>_.
      bindP (wg_reload os svc) (\<lambda>reloaded.
      thenP (restart_iprotate_service (e_svc env) svc) (
      thenP (if \<not> reloaded
             then thenP (restart_iprotate_service (e_svc env) svc) (prepare_unless_there env peer h)
             else ret ())
        (prepare_unless_there env peer h)))))))))))))"

text \<open>Whatever happens in them, the two scripts that use the cloud leave the configuration file valid.\<close>

context file_guard begin

lemma keeps_unless_there [keeps_intros]: "keeps guarded (prepare_unless_there env c h)"
  unfolding prepare_unless_there_def connect_def by (intro keeps_intros) simp_all

lemma keeps_wg_reload [keeps_intros]: "keeps guarded (wg_reload os n)"
  unfolding wg_reload_def by (intro keeps_intros) simp_all

lemmas scripts_good [secures_intros] = keeps_secures [OF keeps_unless_there] keeps_secures [OF keeps_wg_reload]

lemma keeps_aws_script:
  assumes "tame_cloud (e_cloud env)"
  shows "keeps guarded (aws_script env)"
proof -
  have "\<not> is_default ''aws02''" by code_simp
  then have "secures guarded (\<lambda>_. True) (aws_script env)"
    unfolding aws_script_def using assms by - (rule secures_ret_any secures_intros | fastforce)+
  then show ?thesis by (rule secures_keeps)
qed

lemma keeps_ssh_script:
  assumes "tame_cloud (e_cloud env)"
  shows "keeps guarded (ssh_script env)"
proof -
  have "\<not> is_default ''aws2''" by code_simp
  then have "secures guarded (\<lambda>_. True) (ssh_script env)"
    unfolding ssh_script_def Let_def using assms by - (rule secures_ret_any secures_intros | fastforce)+
  then show ?thesis by (rule secures_keeps)
qed

end

theorem scripts_keep_config:
  assumes "read_conf empty_ini s = (Inr c, s)" and "conf_ready c" and "wf_ini c" and "tame_cloud (e_cloud env)"
    and "s' \<in> {snd (aws_script env s), snd (ssh_script env s)}"
  shows "\<exists>d. read_conf empty_ini s' = (Inr d, s') \<and> conf_ready d \<and> wf_ini d \<and>
    dict_keys (sections d) = dict_keys (sections c) \<and> (\<forall>x k. k \<notin> set changeable \<longrightarrow> effective d x k = effective c x k)"
proof -
  have "file_is (ini_ok (dict_keys (sections c)) (effective c)) s"
    using assms(1-3) by (auto simp: file_is_def ini_ok_def)
  then have "file_is (ini_ok (dict_keys (sections c)) (effective c)) s'"
    using assms(5) kept.keeps_aws_script [OF assms(4)] kept.keeps_ssh_script [OF assms(4)]
    unfolding keeps_def by blast
  then show ?thesis by (auto simp: file_is_def ini_ok_def)
qed

subsection \<open>The proxy file\<close>

definition config_script :: "'w os_api \<Rightarrow> ('w sys, unit) prog" where
  "config_script os =
     bindP (mk_proxy_config ''3proxy_template.cfg'') (\<lambda>c.
     bindP (of_sum (pc_get_value ''nserver'' c)) (\<lambda>_.
     bindP (of_sum (pc_get_value ''log'' c)) (\<lambda>_.
     bindP (of_sum (pc_get_value ''users'' c)) (\<lambda>_.
     bindP (of_sum (add_user ''user3'' ''password3'' (pc_set_value ''nserver'' ''8.8.4.4'' c))) (\<lambda>c1.
     bindP (of_sum (remove_user ''user1'' c1)) (\<lambda>c2.
     bindP (of_sum (parse_parent_proxy c2)) (\<lambda>_.
     bindP (of_sum (set_parent_proxy ''192.168.1.1'' ''8080'' c2)) (\<lambda>c3.
     thenP (write_config os c3) (
     bindP (of_sum (pc_get_value ''parent'' c3)) (\<lambda>_.
     bindP (mk_service_config ''service_template.service'') (\<lambda>sc.
     bindP (of_sum (sc_get_value ''Service'' ''ExecStart'' sc)) (\<lambda>_.
     bindP (of_sum (sc_set_value ''Service'' ''ExecStart'' ''/usr/bin/python3 /path/to/app.py'' sc)) (\<lambda>sc1.
     sc_write_changes os sc1)))))))))))))"

text \<open>The template of the repository, whose last line has no line break.\<close>

definition template_lines :: "string list" where
  "template_lines =
     [''nserver 8.8.4.4'', ''nscache 65536'', ''allow *'',
      ''log '' @ [CHR 0x22] @ ''/usr/local/3proxy/logs/main.log'' @ [CHR 0x22],
      ''logformat '' @ [CHR 0x22] @ ''L%t.%.  %N.%p %E %U %C:%c %R:%r %O %I %h %T'' @ [CHR 0x22]]"

definition template_text :: string where
  "template_text = unlines template_lines @ ''proxy -n -p2099''"

definition template_after :: string where
  "template_after = unlines (template_lines @ [''proxy -n -p2099users user3:CL:password3''])"

definition template_config :: "string list \<Rightarrow> proxy_config" where
  "template_config ls = \<lparr>pc_path = ''3proxy_template.cfg'', pc_lines = ls\<rparr>"

definition user3_line :: string where
  "user3_line = ''users user3:CL:password3'' @ [LF]"

lemma template_steps:
  defines "c \<equiv> template_config (file_lines template_text)"
    and "c1 \<equiv> template_config (file_lines template_text @ [user3_line])"
  shows "pc_get_value ''nserver'' c = Inr (Some ''8.8.4.4'')"
    and "pc_get_value ''log'' c = Inr (Some ([CHR 0x22] @ ''/usr/local/3proxy/logs/main.log'' @ [CHR 0x22]))" and "pc_get_value ''users'' c = Inr None"
    and "add_user ''user3'' ''password3'' (pc_set_value ''nserver'' ''8.8.4.4'' c) = Inr c1"
    and "remove_user ''user1'' c1 = Inr c1" and "parse_parent_proxy c1 = Inr (None, None)"
    and "set_parent_proxy ''192.168.1.1'' ''8080'' c1 = Inr c1" and "pc_get_value ''parent'' c1 = Inr None"
    and "concat (pc_lines c1) = template_after"
  unfolding c_def c1_def by code_simp+

lemma template_reread: "pc_get_value ''users'' (template_config (file_lines template_after)) = Inr None"
  by code_simp

text \<open>the script of \<open>garbage/config.py\<close> spoils the template that the repository ships: run beside
  \<open>3proxy_template.cfg\<close> as it is, whose last line has no line break, it glues the user it adds to
  that line, which makes a port of it, so that the next reading finds no user; then it raises
  \<open>NoSectionError\<close>, because the service template it reads is not in the repository.\<close>

theorem script_spoils_template:
  assumes "files s ''3proxy_template.cfg'' = Some template_text" and "files s ''service_template.service'' = None"
    and "can_write os ''3proxy_template.cfg''"
  shows "\<exists>s' c. config_script os s = (Inl (NoSectionError ''Service''), s') \<and>
    files s' = (files s)(''3proxy_template.cfg'' \<mapsto> template_after) \<and>
    mk_proxy_config ''3proxy_template.cfg'' s' = (Inr c, s') \<and> pc_get_value ''users'' c = Inr None"
proof -
  note st = template_steps
  have m: "mk_proxy_config ''3proxy_template.cfg'' s = (Inr (template_config (file_lines template_text)), s)"
    using assms(1) by (simp add: mk_proxy_config_def read_config_def bindP_def template_config_def)
  let ?c1 = "template_config (file_lines template_text @ [user3_line])"
  obtain s' where w: "write_config os ?c1 s = (Inr (), s')" "files s' = (files s)(''3proxy_template.cfg'' \<mapsto> template_after)"
    using assms(3) st(9) by (simp add: write_config_def template_config_def write_file_ok)
  have sc: "mk_service_config ''service_template.service'' s' =
      (Inr \<lparr>sc_path = ''service_template.service'', sc_config = empty_ini\<rparr>, s')"
    using assms(2) w(2) by (simp add: mk_service_config_def)
  have no: "sc_get_value ''Service'' ''ExecStart'' \<lparr>sc_path = p, sc_config = empty_ini\<rparr> = Inl (NoSectionError ''Service'')" for p
    unfolding sc_get_value_def by simp code_simp
  have "config_script os s = (Inl (NoSectionError ''Service''), s')"
    using m w(1) sc no by (simp add: config_script_def thenP_def bindP_def st)
  moreover have "mk_proxy_config ''3proxy_template.cfg'' s' = (Inr (template_config (file_lines template_after)), s')"
    using w(2) by (simp add: mk_proxy_config_def read_config_def bindP_def template_config_def)
  ultimately show ?thesis using w(2) template_reread by blast
qed

theorem script_spoils_template_witness:
  "\<exists>s' c. config_script demo_os \<lparr>files = [''3proxy_template.cfg'' \<mapsto> template_text], ext = ()\<rparr> =
      (Inl (NoSectionError ''Service''), s') \<and>
    mk_proxy_config ''3proxy_template.cfg'' s' = (Inr c, s') \<and> pc_get_value ''users'' c = Inr None"
  using script_spoils_template [of "\<lparr>files = [''3proxy_template.cfg'' \<mapsto> template_text], ext = ()\<rparr>" demo_os] by auto

end
