(* ===== verification/Spec2Isabelle.thy ===== *)
theory Spec2Isabelle
  imports Races RegionEffect ProxyFileProps PingProps Injection OldLoaderProps Scripts
begin

text \<open>
  \<^bold>\<open>The program.\<close> A Flask server that gives each of its profiles (a section of
  \<open>config.conf\<close> with the credentials of a cloud account) a proxy whose outgoing address
  is that of a rented instance. \<open>app.py\<close> answers requests and starts one thread per
  task; \<open>functions/task_manager.py\<close> keeps the table of profiles and runs a task;
  \<open>functions/run.py\<close> is the five tasks; they use \<open>functions/main.py\<close> (the
  configuration and the generated files), \<open>functions/aws.py\<close> (the cloud),
  \<open>functions/connection.py\<close> (the local firewall and a probe through the proxy),
  \<open>functions/ssh_setup.py\<close> (the rented host) and \<open>functions/service.py\<close> (local
  services).

  \<^bold>\<open>The model.\<close> A method is a computation (\<open>Prelude\<close>: \<open>('s, 'a) prog\<close>) that
  returns a value or raises an exception and changes a state, which is kept when it
  raises. The state of most methods is \<open>'w sys\<close> (\<open>World\<close>): the text files and an
  outside world \<open>'w\<close> of which nothing is assumed. What the code reaches through
  packages, the operating system or the network is a field of a record of functions on
  that world (\<open>os_api\<close>, \<open>ufw_api\<close>, \<open>net_api\<close>, \<open>cloud_api\<close>, \<open>ssh_api\<close>,
  \<open>svc_api\<close>, \<open>front_api\<close>, \<open>ping_api\<close>), a parameter of every definition that uses it. What a theorem needs of one of
  them is a named hypothesis (\<open>can_write\<close>, \<open>ufw_numbers\<close>, \<open>address_service\<close>, \<open>stops\<close>,
  \<open>terminates\<close>, \<open>accepts\<close>, \<open>refuses\<close>, \<open>services_run\<close>, \<open>yields_instances\<close>, \<open>tame_cloud\<close>, \<open>queue_net\<close>,
  \<open>apart\<close>, \<open>renews\<close>, \<open>describes\<close>, \<open>offers\<close>, \<open>answers\<close>, \<open>restarts\<close>), shown to hold of a concrete instance in the
  theorem's witness. Objects are records that methods return updated.

  \<^bold>\<open>The theories\<close>, in the order of their imports:
  \<^item> \<open>Prelude\<close>, \<open>World\<close>: computations, dictionaries, JSON values, invariants of
    computations (\<open>keeps\<close>, collection \<open>keeps_intros\<close>; \<open>returns\<close>), files.
  \<^item> \<open>PyText\<close>, \<open>IniStore\<close>, \<open>IniText\<close>: the standard library that the code uses:
    string methods, \<open>int\<close>, \<open>str\<close>; \<open>configparser\<close> with interpolation, its
    reader and its writer, with the proof that a well-formed store reads back as it was written.
  \<^item> \<open>Loader\<close>, \<open>LoaderProps\<close>, \<open>LoaderWrite\<close>: the class \<open>ConfigLoader\<close>
    without its generators. The locale \<open>option_store\<close> is the contract of the store
    of options, interpreted on the parser. Shown: numbering, totality and idempotence of the
    constructor, and what the write-back of a section keeps and loses.
  \<^item> \<open>IpNet\<close>, \<open>Firewall\<close>, \<open>FirewallProps\<close>: \<open>ipaddress.ip_network\<close>, the class
    \<open>Firewall\<close> and \<open>Socks5\<close>. Shown: the exact commands of a whitelist, which texts
    can reach the shell, and that deletion by shifting index deletes the right rules.
  \<^item> \<open>Generators\<close>, \<open>GeneratorProps\<close>: the generated WireGuard, shadowsocks and 3proxy
    files. Shown: the two ends of a tunnel match, the exact lines of the proxy file, the
    round trip of the authentication file.
  \<^item> \<open>Cloud\<close>, \<open>CloudProps\<close>: the class \<open>Aws\<close>. \<open>more_types\<close> asks for pages with a
    bound on the rounds (\<open>e_rounds\<close>), because the service decides when it ends; a
    theorem shows that any bound not below the number of pages the service has is enough, and
    running out of it is the exception \<open>OutOfFuel\<close>, which no code raises.
  \<^item> \<open>Remote\<close>, \<open>RemoteProps\<close>: \<open>SSHSetup\<close>, \<open>SetupHost\<close>, \<open>ServiceManager\<close>.
  \<^item> \<open>Tasks\<close>, \<open>TaskProps\<close>, \<open>TaskEffects\<close>, \<open>AddressEffect\<close>, \<open>RegionEffect\<close>: the
    class \<open>RunTask\<close>, over all of the above. Shown: every task reports, and what each of the five
    leaves behind from end to end: the change of the whitelist, the reset and the change of the
    credentials in the file, in the firewall and in the generated files; the change of the address and
    of the region in the file, in the account, in the two ends of the tunnel and in the answer. An
    observation of the outside that the other services leave alone (\<open>apart\<close>) is followed through a
    whole task (\<open>obs_is\<close>, collection \<open>obs_intros\<close>).
  \<^item> \<open>Manager\<close>, \<open>ManagerProps\<close>: the class \<open>TaskManager\<close>. The locale
    \<open>status_board\<close> is the contract of marking profiles busy and idle, interpreted on
    \<open>set_start_task\<close> and \<open>set_stop_task\<close>.
  \<^item> \<open>Server\<close>, \<open>ServerProps\<close>: the handlers of \<open>app.py\<close>. Shown: who is let in,
    what is shown, which requests start threads.
  \<^item> \<open>Races\<close>: the running program as a step relation of requests and threads, the invariant
    of the table in every reachable state, and two tasks of one profile at once.
  \<^item> \<open>FileInvariant\<close>: what no part of the program ever does to \<open>config.conf\<close>. The locale
    \<open>file_guard\<close> is the contract of a property of configurations that survives the settings
    and merges of the loader, and carries it through every operation up to the steps of the
    running program (\<open>secures\<close>, collection \<open>secures_intros\<close>); it is interpreted on
    \<open>ini_ok\<close>: loadable, well-formed, with the given sections and with every option as given
    that the program does not set. The values from outside must be tame (one line, no percent sign).
  \<^item> \<open>Injection\<close>: why they must: a carriage return in a whitelist makes the file unreadable.
  \<^item> \<open>Scripts\<close>: the main blocks of \<open>aws.py\<close>, \<open>ssh_setup.py\<close>, \<open>service.py\<close>
    and \<open>garbage/config.py\<close>, the last one run on the template of the repository.
  \<^item> \<open>OldLoader\<close>, \<open>OldLoaderProps\<close>: \<open>garbage/main2.py\<close>, an older loader that nothing
    imports, with what it uses of \<open>urllib.parse\<close>. Shown: as it is it never returns; with its
    lists it would sort the profiles by their cloud.
  \<^item> \<open>ProxyFile\<close>, \<open>ProxyFileProps\<close>: \<open>garbage/config.py\<close>, the editor of 3proxy
    and unit files, which the program no longer uses. The locale \<open>line_store\<close> is the contract
    of assigning to lines, interpreted on \<open>ProxyConfig\<close>. Shown: the users line as a list,
    edits that persist and edits that are lost, the round trip of the parent proxy.
  \<^item> \<open>Ping\<close>, \<open>PingProps\<close>: \<open>garbage/ping.py\<close>, an ICMP ping, unused as well. Its
    modules \<open>errors\<close> and \<open>enums\<close> are missing, so the numbers and the class hierarchy are
    parameters. The loops that others end (\<open>receive_loop\<close>, \<open>verbose_loop\<close>) have a
    bound on their rounds; one round more than there are packets is enough. Shown: the checksum is
    that of RFC 1071 and valid on little-endian machines, which packet decides, four tries.
  \<^item> \<open>Demo\<close>: a concrete installation for the witnesses.

  \<^bold>\<open>Abstractions.\<close> Characters are those of code points up to 255, one byte each. A
  handler, and the work of a task, is one step of \<open>Races\<close>. \<open>JErr e\<close> stands for the text
  of an exception. Times are the texts the code formats.

  \<^bold>\<open>Not modelled.\<close> Log output and pauses (\<open>time.sleep\<close>); the file lock of
  \<open>write_changes\<close>, which only excludes other write-backs; the directory of a generated file
  is made (\<open>os_makedirs\<close>), not tracked; the set-up of the logger and the debug output of
  \<open>garbage/ping.py\<close>; the code that is a comment or a string (the playbook runner of
  \<open>aws.py\<close>); the shell scripts, unit files and Ansible playbooks, which are no Python.
  The main loop of the server is the step relation of \<open>Races\<close>, not the function \<open>fr_run\<close>.
\<close>

end
